(* ===== verification/GoPrelude.thy ===== *)
theory GoPrelude
  imports Main "HOL-Library.Word" "HOL-Library.Char_ord" "HOL-Library.List_Lexorder"
    "HOL-Library.Finite_Map"
begin

text \<open>
  What every component shares: Go's strings (byte sequences), its fixed-width integers and
  the part of package \<open>fmt\<close> the operator uses, Go errors as values, and world-passing
  actions that end with a value, an error or a panic. The rules the component proofs
  run on are collected in \<open>run\<close> (evaluation of actions).
\<close>

named_theorems run

section \<open>Strings\<close>

type_synonym strmap = "(string, string) fmap"

text \<open>Package \<open>strings\<close>.\<close>

definition HasPrefix :: "string \<Rightarrow> string \<Rightarrow> bool" where
  "HasPrefix s p \<longleftrightarrow> length p \<le> length s \<and> take (length p) s = p"

definition HasSuffix :: "string \<Rightarrow> string \<Rightarrow> bool" where
  "HasSuffix s p \<longleftrightarrow> length p \<le> length s \<and> drop (length s - length p) s = p"

definition TrimSuffix :: "string \<Rightarrow> string \<Rightarrow> string" where
  "TrimSuffix s p = (if HasSuffix s p then take (length s - length p) s else s)"

fun Join :: "string list \<Rightarrow> string \<Rightarrow> string" where
  "Join [] sep = []"
| "Join [x] sep = x"
| "Join (x # y # xs) sep = x @ sep @ Join (y # xs) sep"

lemma HasPrefix_iff: "HasPrefix s p \<longleftrightarrow> (\<exists>t. s = p @ t)"
proof
  assume "HasPrefix s p"
  then have "s = p @ drop (length p) s"
    by (metis HasPrefix_def append_take_drop_id)
  then show "\<exists>t. s = p @ t" ..
qed (auto simp: HasPrefix_def)

lemma HasSuffix_iff: "HasSuffix s p \<longleftrightarrow> (\<exists>t. s = t @ p)"
proof
  assume "HasSuffix s p"
  then have "s = take (length s - length p) s @ p"
    by (metis HasSuffix_def append_take_drop_id)
  then show "\<exists>t. s = t @ p" ..
qed (auto simp: HasSuffix_def)

lemma HasSuffix_append [simp]: "HasSuffix (t @ p) p"
  by (simp add: HasSuffix_def)

lemma HasSuffix_refl [simp]: "HasSuffix p p"
  by (simp add: HasSuffix_def)

lemma TrimSuffix_append [simp]: "TrimSuffix (t @ p) p = t"
  by (simp add: TrimSuffix_def)

section \<open>Integers\<close>

type_synonym i32 = "32 word"
type_synonym i64 = "64 word"

text \<open>Go's \<open>int\<close> has 64 bits on the platforms the operator is built for.\<close>

definition int_of_i32 :: "i32 \<Rightarrow> i64" where
  "int_of_i32 n = scast n"

definition igt :: "('a::len) word \<Rightarrow> 'a word \<Rightarrow> bool" where
  "igt a b \<longleftrightarrow> sint a > sint b"

definition ilt :: "('a::len) word \<Rightarrow> 'a word \<Rightarrow> bool" where
  "ilt a b \<longleftrightarrow> sint a < sint b"

lemma sint_int_of_i32 [simp]: "sint (int_of_i32 n) = sint n"
  unfolding int_of_i32_def by (rule sint_up_scast) (simp add: is_up)

text \<open>The verbs \<open>%d\<close> and \<open>%05d\<close>.\<close>

definition digit :: "nat \<Rightarrow> char" where
  "digit d = char_of (48 + d)"

fun dec_nat :: "nat \<Rightarrow> string" where
  "dec_nat n = (if n < 10 then [digit n] else dec_nat (n div 10) @ [digit (n mod 10)])"

declare dec_nat.simps [simp del]

definition dec_int :: "int \<Rightarrow> string" where
  "dec_int i = (if i < 0 then CHR ''-'' # dec_nat (nat (- i)) else dec_nat (nat i))"

definition fmt_d :: "('a::len) word \<Rightarrow> string" where
  "fmt_d w = dec_int (sint w)"

definition zero_pad :: "nat \<Rightarrow> string \<Rightarrow> string" where
  "zero_pad n s = replicate (n - length s) (CHR ''0'') @ s"

definition fmt_05d :: "('a::len) word \<Rightarrow> string" where
  "fmt_05d w =
     (if sint w < 0 then CHR ''-'' # zero_pad 4 (dec_nat (nat (- sint w)))
      else zero_pad 5 (dec_nat (nat (sint w))))"

text \<open>
  The verb \<open>%q\<close>: a double-quoted Go string literal. Bytes from 128 on are taken to belong
  to printable characters, which \<open>%q\<close> leaves as they are.
\<close>

definition hex_digit :: "nat \<Rightarrow> char" where
  "hex_digit d = (if d < 10 then char_of (48 + d) else char_of (87 + d))"

definition quote_char :: "char \<Rightarrow> string" where
  "quote_char c =
     (let n = (of_char c :: nat) in
      if n = 34 then [char_of (92::nat), c]
      else if n = 92 then [c, c]
      else if n = 7 then [char_of (92::nat), CHR ''a'']
      else if n = 8 then [char_of (92::nat), CHR ''b'']
      else if n = 12 then [char_of (92::nat), CHR ''f'']
      else if n = 10 then [char_of (92::nat), CHR ''n'']
      else if n = 13 then [char_of (92::nat), CHR ''r'']
      else if n = 9 then [char_of (92::nat), CHR ''t'']
      else if n = 11 then [char_of (92::nat), CHR ''v'']
      else if n < 32 \<or> n = 127 then
        [char_of (92::nat), CHR ''x'', hex_digit (n div 16), hex_digit (n mod 16)]
      else [c])"

definition fmt_q :: "string \<Rightarrow> string" where
  "fmt_q s = [char_of (34::nat)] @ concat (map quote_char s) @ [char_of (34::nat)]"

section \<open>Errors\<close>

text \<open>
  An error is what the code observes of it: its text (\<open>Error()\<close>), the status reason that
  \<open>apierrors.ReasonForError\<close> finds in its chain, if any, and the members of the
  \<open>Aggregate\<close> that \<open>errors.As\<close> finds in its chain, if any.
\<close>

datatype status_reason = NotFound | AlreadyExists | Conflict | OtherReason string

datatype go_error =
  GoError (err_text: string) (err_reason: "status_reason option")
    (err_items: "go_error list option")

definition IsNotFound :: "go_error \<Rightarrow> bool" where
  "IsNotFound e \<longleftrightarrow> err_reason e = Some NotFound"

definition IsConflict :: "go_error \<Rightarrow> bool" where
  "IsConflict e \<longleftrightarrow> err_reason e = Some Conflict"

definition IsAlreadyExists :: "go_error \<Rightarrow> bool" where
  "IsAlreadyExists e \<longleftrightarrow> err_reason e = Some AlreadyExists"

text \<open>\<open>fmt.Errorf("s")\<close> and \<open>fmt.Errorf("s: %w", err)\<close>: wrapping keeps the chain.\<close>

definition new_error :: "string \<Rightarrow> go_error" where
  "new_error s = GoError s None None"

definition wrap :: "string \<Rightarrow> go_error \<Rightarrow> go_error" where
  "wrap s e = GoError (s @ '': '' @ err_text e) (err_reason e) (err_items e)"

lemma wrap_reason [simp]: "err_reason (wrap s e) = err_reason e"
  and wrap_items [simp]: "err_items (wrap s e) = err_items e"
  and wrap_text [simp]: "err_text (wrap s e) = s @ '': '' @ err_text e"
  by (simp_all add: wrap_def)

lemma wrap_IsNotFound [simp]: "IsNotFound (wrap s e) = IsNotFound e"
  and wrap_IsConflict [simp]: "IsConflict (wrap s e) = IsConflict e"
  and wrap_IsAlreadyExists [simp]: "IsAlreadyExists (wrap s e) = IsAlreadyExists e"
  by (simp_all add: IsNotFound_def IsConflict_def IsAlreadyExists_def)

section \<open>Actions\<close>

datatype 'a result = Ok 'a | Err go_error | Panic string

type_synonym ('w, 'a) action = "'w \<Rightarrow> 'a result \<times> 'w"

text \<open>Sequencing of computations that only return: \<open>x := f(); g(x)\<close> where \<open>f\<close> may panic.\<close>

fun rbind :: "'a result \<Rightarrow> ('a \<Rightarrow> 'b result) \<Rightarrow> 'b result" where
  "rbind (Ok x) f = f x"
| "rbind (Err e) f = Err e"
| "rbind (Panic p) f = Panic p"

lemma rbind_eq_Ok: "rbind r f = Ok y \<longleftrightarrow> (\<exists>x. r = Ok x \<and> f x = Ok y)"
  by (cases r) simp_all

definition ok :: "'a \<Rightarrow> ('w, 'a) action" where
  "ok x w = (Ok x, w)"

definition throw :: "go_error \<Rightarrow> ('w, 'a) action" where
  "throw e w = (Err e, w)"

definition lift :: "'a result \<Rightarrow> ('w, 'a) action" where
  "lift r w = (r, w)"

text \<open>
  \<open>handle m h f\<close> is \<open>x, err := m; if err != nil { h(err) } else { f(x) }\<close>; a panic passes
  through both. \<open>andThen\<close> returns the error unchanged, \<open>wrapErr\<close> returns it wrapped.
\<close>

definition handle ::
  "('w, 'a) action \<Rightarrow> (go_error \<Rightarrow> ('w, 'b) action) \<Rightarrow> ('a \<Rightarrow> ('w, 'b) action) \<Rightarrow> ('w, 'b) action"
where
  "handle m h f w =
     (case m w of
        (Ok x, w') \<Rightarrow> f x w'
      | (Err e, w') \<Rightarrow> h e w'
      | (Panic p, w') \<Rightarrow> (Panic p, w'))"

definition andThen :: "('w, 'a) action \<Rightarrow> ('a \<Rightarrow> ('w, 'b) action) \<Rightarrow> ('w, 'b) action" where
  "andThen m f = handle m throw f"

definition wrapErr :: "string \<Rightarrow> ('w, 'a) action \<Rightarrow> ('w, 'a) action" where
  "wrapErr s m = handle m (\<lambda>e. throw (wrap s e)) ok"

definition ignoreNotFound :: "('w, unit) action \<Rightarrow> ('w, unit) action" where
  "ignoreNotFound m = handle m (\<lambda>e. if IsNotFound e then ok () else throw e) ok"

fun forEach :: "('a \<Rightarrow> ('w, unit) action) \<Rightarrow> 'a list \<Rightarrow> ('w, unit) action" where
  "forEach f [] = ok ()"
| "forEach f (x # xs) = andThen (f x) (\<lambda>_. forEach f xs)"

subsection \<open>Evaluation\<close>

lemma ok_run [simp, run]: "ok x w = (Ok x, w)"
  and throw_run [simp, run]: "throw e w = (Err e, w)"
  and lift_run [simp, run]: "lift r w = (r, w)"
  by (simp_all add: ok_def throw_def lift_def)

lemma handle_Ok [run]: "m w = (Ok x, w') \<Longrightarrow> handle m h f w = f x w'"
  and handle_Err [run]: "m w = (Err e, w') \<Longrightarrow> handle m h f w = h e w'"
  and handle_Panic [run]: "m w = (Panic p, w') \<Longrightarrow> handle m h f w = (Panic p, w')"
  by (simp_all add: handle_def)

lemma andThen_Ok [run]: "m w = (Ok x, w') \<Longrightarrow> andThen m f w = f x w'"
  and andThen_Err [run]: "m w = (Err e, w') \<Longrightarrow> andThen m f w = (Err e, w')"
  and andThen_Panic [run]: "m w = (Panic p, w') \<Longrightarrow> andThen m f w = (Panic p, w')"
  by (simp_all add: andThen_def handle_def)

lemma andThen_eqI: "m w = (Ok x, w') \<Longrightarrow> f x w' = z \<Longrightarrow> andThen m f w = z"
  by (simp add: andThen_Ok)

lemma wrapErr_Ok [run]: "m w = (Ok x, w') \<Longrightarrow> wrapErr s m w = (Ok x, w')"
  and wrapErr_Err [run]: "m w = (Err e, w') \<Longrightarrow> wrapErr s m w = (Err (wrap s e), w')"
  and wrapErr_Panic [run]: "m w = (Panic p, w') \<Longrightarrow> wrapErr s m w = (Panic p, w')"
  by (simp_all add: wrapErr_def handle_def)

lemma ignoreNotFound_Ok [run]: "m w = (Ok x, w') \<Longrightarrow> ignoreNotFound m w = (Ok (), w')"
  by (simp add: ignoreNotFound_def handle_def)

subsection \<open>Inversion of a successful run\<close>

lemma handle_case:
  "handle m h f w =
     (case m w of (r, w') \<Rightarrow>
       case r of Ok x \<Rightarrow> f x w' | Err e \<Rightarrow> h e w' | Panic p \<Rightarrow> (Panic p, w'))"
  by (simp add: handle_def split: prod.split result.split)

lemma andThen_eq_Ok:
  "andThen m f w = (Ok y, v) \<longleftrightarrow> (\<exists>x w'. m w = (Ok x, w') \<and> f x w' = (Ok y, v))"
  by (cases "m w"; cases "fst (m w)") (auto simp: andThen_def handle_def)

lemma wrapErr_eq_Ok [simp]: "wrapErr s m w = (Ok y, v) \<longleftrightarrow> m w = (Ok y, v)"
  by (cases "m w"; cases "fst (m w)") (auto simp: wrapErr_def handle_def)

lemma wrapErr_snd [simp]: "snd (wrapErr s m w) = snd (m w)"
  by (cases "m w"; cases "fst (m w)") (auto simp: wrapErr_def handle_def)

lemma ignoreNotFound_snd [simp]: "snd (ignoreNotFound m w) = snd (m w)"
  by (cases "m w"; cases "fst (m w)") (auto simp: ignoreNotFound_def handle_def)

lemma forEach_Cons_eq_Ok:
  "forEach f (x # xs) w = (Ok u, v) \<longleftrightarrow>
     (\<exists>w'. f x w = (Ok (), w') \<and> forEach f xs w' = (Ok u, v))"
  by (auto simp: andThen_eq_Ok)

subsection \<open>Relations kept along a run\<close>

text \<open>
  \<open>stays R m\<close>: whatever \<open>m\<close> returns, the world it ends in is related by \<open>R\<close> to the one
  it started in. With \<open>R\<close> the equality this says that \<open>m\<close> only reads.
\<close>

definition stays :: "('w \<Rightarrow> 'w \<Rightarrow> bool) \<Rightarrow> ('w, 'a) action \<Rightarrow> bool" where
  "stays R m \<longleftrightarrow> (\<forall>w. R w (snd (m w)))"

lemma staysD: "stays R m \<Longrightarrow> R w (snd (m w))"
  by (simp add: stays_def)

lemma stays_Pair: "reflp R \<Longrightarrow> stays R (Pair r)"
  by (auto simp: stays_def reflp_def)

lemma stays_ok: "reflp R \<Longrightarrow> stays R (ok x)"
  and stays_throw: "reflp R \<Longrightarrow> stays R (throw e)"
  and stays_lift: "reflp R \<Longrightarrow> stays R (lift r)"
  by (auto simp: stays_def reflp_def)

lemma stays_handle:
  assumes "transp R" "stays R m" "\<And>e. stays R (h e)" "\<And>x. stays R (f x)"
  shows "stays R (handle m h f)"
  unfolding stays_def
proof
  fix w
  obtain r w' where m: "m w = (r, w')" by (cases "m w")
  with assms(2) have R: "R w w'" by (auto simp: stays_def dest: spec [of _ w])
  show "R w (snd (handle m h f w))"
  proof (cases r)
    case (Ok x)
    with m have "snd (handle m h f w) = snd (f x w')" by (simp add: handle_def)
    with R assms(1) assms(4) [of x] show ?thesis by (metis staysD transpD)
  next
    case (Err e)
    with m have "snd (handle m h f w) = snd (h e w')" by (simp add: handle_def)
    with R assms(1) assms(3) [of e] show ?thesis by (metis staysD transpD)
  next
    case (Panic p)
    with m R show ?thesis by (simp add: handle_def)
  qed
qed

lemma stays_andThen:
  assumes "reflp R" "transp R" "stays R m" "\<And>x. stays R (f x)"
  shows "stays R (andThen m f)"
  unfolding andThen_def using assms by (intro stays_handle stays_throw)

lemma stays_wrapErr: "stays R m \<Longrightarrow> stays R (wrapErr s m)"
  and stays_ignoreNotFound: "stays R n \<Longrightarrow> stays R (ignoreNotFound n)"
  by (simp_all add: stays_def)

lemma stays_forEach:
  assumes "reflp R" "transp R" "\<And>x. x \<in> set xs \<Longrightarrow> stays R (f x)"
  shows "stays R (forEach f xs)"
  using assms(3)
proof (induction xs)
  case Nil
  show ?case using assms(1) by (simp add: stays_Pair)
next
  case (Cons x xs)
  then show ?case using assms(1,2) by (auto intro!: stays_andThen)
qed

lemmas stays_rules = stays_Pair stays_ok stays_throw stays_lift stays_handle stays_andThen stays_wrapErr
  stays_ignoreNotFound stays_forEach

end
