(* ===== verification/CappTypes.thy ===== *)
theory CappTypes
  imports GoPrelude
begin

text \<open>
  The data model: the API types of \<open>api/v1alpha1\<close> field by field, and of the third-party
  objects the operator reads and writes those fields that its code mentions. The fields it
  never looks at are kept together, as one serialised value of type \<open>opaque\<close> (empty for a
  zero value), so that two objects that differ only there still differ in the model.
  Pointers are \<open>option\<close>s; nil and empty slices, and nil and empty maps, are one value, as
  they are for \<open>equality.Semantic.DeepEqual\<close>, which is equality here; a
  \<open>resource.Quantity\<close> is its amount.
\<close>

type_synonym opaque = string
type_synonym time = int
type_synonym quantity = int
type_synonym resource_list = "(string, quantity) fmap"

section \<open>Object metadata\<close>

record owner_ref =
  or_APIVersion :: string
  or_Kind :: string
  or_Name :: string
  or_UID :: string

record object_meta =
  Name :: string
  Namespace :: string
  UID :: string
  ResourceVersion :: string
  Generation :: i64
  CreationTimestamp :: time
  DeletionTimestamp :: "time option"
  Labels :: strmap
  Annotations :: strmap
  OwnerReferences :: "owner_ref list"
  Finalizers :: "string list"

definition newMeta :: "string \<Rightarrow> string \<Rightarrow> strmap \<Rightarrow> object_meta" where
  "newMeta n ns ls =
     \<lparr>Name = n, Namespace = ns, UID = [], ResourceVersion = [], Generation = 0,
      CreationTimestamp = 0, DeletionTimestamp = None, Labels = ls, Annotations = fmempty,
      OwnerReferences = [], Finalizers = []\<rparr>"

record ('sp, 'st) resource =
  TypeKind :: string
  Meta :: object_meta
  Spec :: 'sp
  Status :: 'st

text \<open>\<open>types.NamespacedName\<close>.\<close>

datatype namespaced_name = NamespacedName (nn_Namespace: string) (nn_Name: string)

type_synonym key = namespaced_name

definition key_of :: "('sp, 'st) resource \<Rightarrow> key" where
  "key_of r = NamespacedName (Namespace (Meta r)) (Name (Meta r))"

section \<open>Conditions\<close>

record condition =
  cond_Type :: string
  cond_Status :: string
  cond_Reason :: string
  cond_Message :: string
  cond_LastTransitionTime :: "time option"
  cond_rest :: opaque

record conditioned_status =
  st_Conditions :: "condition list"
  st_rest :: opaque

definition zeroConditioned :: conditioned_status where
  "zeroConditioned = \<lparr>st_Conditions = [], st_rest = []\<rparr>"

section \<open>Knative Serving\<close>

record volume_mount =
  vm_Name :: string
  vm_rest :: opaque

record container =
  ctr_Name :: string
  ctr_VolumeMounts :: "volume_mount list"
  ctr_Requests :: resource_list
  ctr_Limits :: resource_list
  ctr_rest :: opaque

datatype volume_source = PersistentVolumeClaim string | OtherVolumeSource opaque

record volume =
  vol_Name :: string
  vol_Source :: volume_source

record revision_spec =
  rev_Containers :: "container list"
  rev_Volumes :: "volume list"
  rev_EnableServiceLinks :: "bool option"
  rev_TimeoutSeconds :: "i64 option"
  rev_rest :: opaque

record revision_template =
  tmpl_Labels :: strmap
  tmpl_Annotations :: strmap
  tmpl_rest :: opaque
  tmpl_Spec :: revision_spec

record configuration_spec =
  Template :: revision_template

record service_spec =
  svc_Configuration :: configuration_spec
  svc_Route :: opaque

record service_status =
  ks_Conditions :: "condition list"
  ks_LatestCreatedRevisionName :: string
  ks_LatestReadyRevisionName :: string
  ks_rest :: opaque

definition zeroServiceStatus :: service_status where
  "zeroServiceStatus =
     \<lparr>ks_Conditions = [], ks_LatestCreatedRevisionName = [], ks_LatestReadyRevisionName = [],
      ks_rest = []\<rparr>"

type_synonym knative_service = "(service_spec, service_status) resource"
type_synonym knative_revision = "(opaque, opaque) resource"

record kreference =
  kr_APIVersion :: string
  kr_Kind :: string
  kr_Name :: string
  kr_Namespace :: string

record domain_mapping_spec =
  dm_Ref :: kreference
  dm_TLS :: "string option"

type_synonym domain_mapping = "(domain_mapping_spec, conditioned_status) resource"

section \<open>Certificates, DNS records, volumes, secrets\<close>

record issuer_ref =
  ir_Name :: string
  ir_Kind :: string
  ir_Group :: string

record private_key =
  pk_Algorithm :: string
  pk_Encoding :: string
  pk_Size :: i64

record certificate_spec =
  cert_CommonName :: string
  cert_DNSNames :: "string list"
  cert_PrivateKey :: "private_key option"
  cert_IsCA :: bool
  cert_IssuerRef :: issuer_ref
  cert_SecretName :: string
  cert_SecretTemplateLabels :: strmap
  cert_rest :: opaque

type_synonym certificate = "(certificate_spec, conditioned_status) resource"

record cname_parameters =
  fp_Name :: "string option"
  fp_Zone :: "string option"
  fp_Cname :: "string option"
  fp_rest :: opaque

record provider_ref =
  pr_Name :: string
  pr_Kind :: string

record cname_spec =
  cn_ForProvider :: cname_parameters
  cn_ProviderConfigReference :: "provider_ref option"
  cn_rest :: opaque

type_synonym cname_record = "(cname_spec, conditioned_status) resource"

record nfspvc_spec =
  np_Server :: string
  np_Path :: string
  np_AccessModes :: "string list"
  np_Capacity :: resource_list

record nfspvc_status =
  np_PvPhase :: string
  np_PvcPhase :: string

definition zeroNfsPvcStatus :: nfspvc_status where
  "zeroNfsPvcStatus = \<lparr>np_PvPhase = [], np_PvcPhase = []\<rparr>"

type_synonym nfspvc = "(nfspvc_spec, nfspvc_status) resource"

record secret_data =
  sec_Data :: strmap
  sec_StringData :: strmap

type_synonym secret = "(secret_data, unit) resource"

section \<open>Logging\<close>

record http_output =
  ho_URL :: string
  ho_User :: string
  ho_PasswordSecretName :: string
  ho_PasswordSecretKey :: string
  ho_PeerVerify :: bool
  ho_SslVersion :: string

record elasticsearch_output =
  eo_Index :: string
  eo_Template :: string
  eo_HTTPOutput :: http_output

record elasticsearch_datastream_output =
  ed_Record :: string
  ed_HTTPOutput :: http_output

record output_spec =
  out_Elasticsearch :: "elasticsearch_output option"
  out_ElasticsearchDatastream :: "elasticsearch_datastream_output option"
  out_rest :: opaque

record regexp_match =
  rm_Pattern :: string
  rm_Type :: string
  rm_Value :: string

record flow_spec =
  fl_Match :: "regexp_match option"
  fl_LocalOutputRefs :: "string list"
  fl_rest :: opaque

record logging_object_status =
  lo_ProblemsCount :: i64
  lo_rest :: opaque

definition zeroLoggingObjectStatus :: logging_object_status where
  "zeroLoggingObjectStatus = \<lparr>lo_ProblemsCount = 0, lo_rest = []\<rparr>"

type_synonym syslogng_output = "(output_spec, logging_object_status) resource"
type_synonym syslogng_flow = "(flow_spec, logging_object_status) resource"

section \<open>Event sources\<close>

record destination =
  dst_Ref :: kreference
  dst_URI :: "opaque option"

record ping_source_spec =
  ps_Schedule :: string
  ps_Data :: string
  ps_ContentType :: string
  ps_Sink :: destination
  ps_rest :: opaque

record secret_key_ref =
  sk_Name :: string
  sk_Key :: string

record kafka_sasl =
  sasl_Enable :: bool
  sasl_User :: secret_key_ref
  sasl_Password :: secret_key_ref
  sasl_Type :: secret_key_ref

record kafka_source_spec =
  kfs_Consumers :: "i32 option"
  kfs_BootstrapServers :: "string list"
  kfs_SASL :: kafka_sasl
  kfs_TLSEnable :: bool
  kfs_Topics :: "string list"
  kfs_ConsumerGroup :: string
  kfs_Sink :: destination
  kfs_rest :: opaque

type_synonym ping_source = "(ping_source_spec, conditioned_status) resource"
type_synonym kafka_source = "(kafka_source_spec, conditioned_status) resource"

section \<open>Capp\<close>

definition CappStateEnabled :: string where "CappStateEnabled = ''enabled''"
definition CappStateDisabled :: string where "CappStateDisabled = ''disabled''"
definition CappConditionReady :: string where "CappConditionReady = ''Ready''"
definition LogTypeElastic :: string where "LogTypeElastic = ''elastic''"
definition LogTypeElasticDataStream :: string where
  "LogTypeElasticDataStream = ''elastic-datastream''"

record scale_spec =
  sc_Metric :: string
  sc_MinReplicas :: "i32 option"
  sc_MaxReplicas :: "i32 option"
  sc_ScaleDelaySeconds :: "i32 option"

record ping_source_configuration =
  pc_Schedule :: string
  pc_Data :: string

record kafka_source_configuration =
  kc_BootstrapServers :: "string list"
  kc_Topics :: "string list"
  kc_ConsumerGroup :: string
  kc_Consumers :: "i32 option"
  kc_SecretRefName :: string

record source_configuration =
  src_Name :: string
  src_URI :: "opaque option"
  src_Ping :: "ping_source_configuration option"
  src_Kafka :: "kafka_source_configuration option"

record nfs_volume =
  nfs_Server :: string
  nfs_Path :: string
  nfs_Name :: string
  nfs_Capacity :: resource_list

record route_spec =
  rt_Hostname :: string
  rt_TlsEnabled :: bool
  rt_TrafficTarget :: opaque
  rt_RouteTimeoutSeconds :: "i64 option"

type_synonym log_type = string

record log_spec =
  log_Type :: log_type
  log_Host :: string
  log_Index :: string
  log_User :: string
  log_PasswordSecret :: string

definition zeroLogSpec :: log_spec where
  "zeroLogSpec =
     \<lparr>log_Type = [], log_Host = [], log_Index = [], log_User = [], log_PasswordSecret = []\<rparr>"

record capp_spec =
  cs_State :: string
  cs_ScaleSpec :: scale_spec
  cs_ConfigurationSpec :: configuration_spec
  cs_RouteSpec :: route_spec
  cs_LogSpec :: log_spec
  cs_NFSVolumes :: "nfs_volume list"
  cs_Sources :: "source_configuration list"

record revision_info =
  ri_Status :: opaque
  ri_Name :: string

record state_status =
  ss_State :: string
  ss_LastChange :: "time option"

record event_source_status =
  es_Name :: string
  es_Condition :: condition

record logging_status =
  ls_SyslogNGFlow :: logging_object_status
  ls_SyslogNGOutput :: logging_object_status
  ls_Conditions :: "condition list"

definition zeroLoggingStatus :: logging_status where
  "zeroLoggingStatus =
     \<lparr>ls_SyslogNGFlow = zeroLoggingObjectStatus, ls_SyslogNGOutput = zeroLoggingObjectStatus,
      ls_Conditions = []\<rparr>"

record route_status =
  rs_DomainMapping :: conditioned_status
  rs_DNSRecord :: conditioned_status
  rs_Certificate :: conditioned_status

record nfs_volume_status =
  nv_VolumeName :: string
  nv_Status :: nfspvc_status

record capp_status =
  cst_KnativeObjectStatus :: service_status
  cst_RevisionInfo :: "revision_info list"
  cst_StateStatus :: state_status
  cst_LoggingStatus :: logging_status
  cst_RouteStatus :: route_status
  cst_VolumesStatus :: "nfs_volume_status list"
  cst_EventingStatus :: "event_source_status list"
  cst_Conditions :: "condition list"

type_synonym capp = "(capp_spec, capp_status) resource"

section \<open>CappConfig\<close>

record hostname_pattern =
  hp_Match :: string
  hp_Explanation :: string

record dns_config =
  dns_Zone :: string
  dns_CNAME :: string
  dns_Provider :: string
  dns_IssuerRef :: issuer_ref

record autoscale_config =
  as_RPS :: i64
  as_CPU :: i64
  as_Memory :: i64
  as_Concurrency :: i64
  as_ActivationScale :: i64
  as_MinReplicasLimit :: i64
  as_MaxReplicasLimit :: i64
  as_MaxScaleDelay :: i64

record capp_config_spec =
  cfg_DNSConfig :: dns_config
  cfg_AutoscaleConfig :: autoscale_config
  cfg_DefaultRequests :: resource_list
  cfg_DefaultLimits :: resource_list
  cfg_AllowedHostnamePatterns :: "hostname_pattern list"
  cfg_RevisionHistoryLimit :: i64
  cfg_MaxKafkaConsumers :: i32

type_synonym capp_config = "(capp_config_spec, unit) resource"

section \<open>CappRevision\<close>

record capp_template =
  ct_Spec :: capp_spec
  ct_Labels :: strmap
  ct_Annotations :: strmap

record capp_revision_spec =
  cr_RevisionNumber :: i64
  cr_CappTemplate :: capp_template

type_synonym capp_revision = "(capp_revision_spec, unit) resource"

end
