(* ===== verification/KubeClient.thy ===== *)
theory KubeClient
  imports CappTypes "HOL-Library.Multiset"
begin

text \<open>
  The world the operator acts on and the third-party code it acts with.

  The world holds, for every kind the operator touches, the table of the objects the API
  server stores, the events recorded so far and the clock. The code under \<open>src/\<close> reaches
  the tables only through a \<open>client.Client\<close>, which is third-party code: it is the parameter
  \<open>client\<close> of every definition that calls it, one \<open>kind_client\<close> per kind, each of whose
  operations may answer with any error and change the world in any way. What the theorems
  that need more rely on is the locale \<open>kind_api\<close>: the documented behaviour of a reachable
  API server with no concurrent writer. The in-memory client at the end satisfies it.

  The helper libraries the operator calls (controller-runtime's \<open>controllerutil\<close>, Knative's
  defaulting and validation, the resolver and so on) are the parameter \<open>lib\<close> in the same way.
\<close>

section \<open>Tables\<close>

type_synonym ('sp, 'st) table = "('sp, 'st) resource list"

definition tlookup :: "('sp, 'st) table \<Rightarrow> key \<Rightarrow> ('sp, 'st) resource option" where
  "tlookup t k = find (\<lambda>r. key_of r = k) t"

definition tremove :: "key \<Rightarrow> ('sp, 'st) table \<Rightarrow> ('sp, 'st) table" where
  "tremove k t = filter (\<lambda>r. key_of r \<noteq> k) t"

definition tput :: "('sp, 'st) resource \<Rightarrow> ('sp, 'st) table \<Rightarrow> ('sp, 'st) table" where
  "tput r t = r # tremove (key_of r) t"

lemma tlookup_Some_key: "tlookup t k = Some r \<Longrightarrow> key_of r = k"
  by (auto simp: tlookup_def find_Some_iff)

lemma tlookup_remove: "tlookup (tremove k t) = (tlookup t)(k := None)"
proof
  fix k'
  show "tlookup (tremove k t) k' = ((tlookup t)(k := None)) k'"
    by (induction t) (auto simp: tlookup_def tremove_def)
qed

lemma tlookup_put: "tlookup (tput r t) = (tlookup t)(key_of r \<mapsto> r)"
proof
  fix k'
  have "tlookup (tput r t) k' =
      (if key_of r = k' then Some r else tlookup (tremove (key_of r) t) k')"
    by (simp add: tput_def tlookup_def)
  then show "tlookup (tput r t) k' = ((tlookup t)(key_of r \<mapsto> r)) k'"
    by (simp add: tlookup_remove)
qed

section \<open>The world\<close>

record event_record =
  ev_Type :: string
  ev_Reason :: string
  ev_Note :: string

record world =
  capps :: "(capp_spec, capp_status) table"
  cappconfigs :: "(capp_config_spec, unit) table"
  capprevisions :: "(capp_revision_spec, unit) table"
  ksvcs :: "(service_spec, service_status) table"
  knrevisions :: "(opaque, opaque) table"
  nfspvcs :: "(nfspvc_spec, nfspvc_status) table"
  outputs :: "(output_spec, logging_object_status) table"
  flows :: "(flow_spec, logging_object_status) table"
  certificates :: "(certificate_spec, conditioned_status) table"
  domainmappings :: "(domain_mapping_spec, conditioned_status) table"
  cnamerecords :: "(cname_spec, conditioned_status) table"
  pingsources :: "(ping_source_spec, conditioned_status) table"
  kafkasources :: "(kafka_source_spec, conditioned_status) table"
  secrets :: "(secret_data, unit) table"
  events :: "event_record list"
  clock :: time

type_synonym 'a act = "(world, 'a) action"

definition Eventf :: "string \<Rightarrow> string \<Rightarrow> string \<Rightarrow> unit act" where
  "Eventf type reason note w =
     (Ok (), w\<lparr>events := events w @
        [\<lparr>ev_Type = type, ev_Reason = reason, ev_Note = note\<rparr>]\<rparr>)"

section \<open>Clients\<close>

record ('sp, 'st) kind_client =
  kget :: "string \<Rightarrow> string \<Rightarrow> ('sp, 'st) resource act"
    \<comment> \<open>namespace, name\<close>
  klist :: "string \<Rightarrow> strmap \<Rightarrow> nat option \<Rightarrow> ('sp, 'st) resource list act"
    \<comment> \<open>namespace, label selector (equalities), limit\<close>
  kcreate :: "('sp, 'st) resource \<Rightarrow> unit act"
  kupdate :: "('sp, 'st) resource \<Rightarrow> unit act"
  kdelete :: "('sp, 'st) resource \<Rightarrow> unit act"

record client =
  c_capps :: "(capp_spec, capp_status) kind_client"
  c_cappconfigs :: "(capp_config_spec, unit) kind_client"
  c_capprevisions :: "(capp_revision_spec, unit) kind_client"
  c_ksvcs :: "(service_spec, service_status) kind_client"
  c_knrevisions :: "(opaque, opaque) kind_client"
  c_nfspvcs :: "(nfspvc_spec, nfspvc_status) kind_client"
  c_outputs :: "(output_spec, logging_object_status) kind_client"
  c_flows :: "(flow_spec, logging_object_status) kind_client"
  c_certificates :: "(certificate_spec, conditioned_status) kind_client"
  c_domainmappings :: "(domain_mapping_spec, conditioned_status) kind_client"
  c_cnamerecords :: "(cname_spec, conditioned_status) kind_client"
  c_pingsources :: "(ping_source_spec, conditioned_status) kind_client"
  c_kafkasources :: "(kafka_source_spec, conditioned_status) kind_client"
  c_secrets :: "(secret_data, unit) kind_client"
  c_allCapps :: "capp list act"
  c_statusUpdate :: "capp \<Rightarrow> unit act"

text \<open>
  The helper libraries. \<open>SetOwnerReference\<close> gives the owner references of the object after
  the call; the defaulting functions give the defaulted value; \<open>AggregateText\<close> is the text of
  an \<open>Aggregate\<close>. \<open>sort.Slice\<close> is not stable and a map is ranged over in any order, so both are
  parameters too: one sort for each slice the code sorts, with the order of the keys of
  equal elements left open, and the order of a map's keys. The validation functions give the
  text of the error they find (\<open>labels.NewRequirement\<close> the error itself), \<open>RegexpCompile\<close> that text or the matcher, and \<open>LookupHost\<close>
  the text of the error and whether it is a not-found one.
\<close>

record field_error =
  fe_Message :: string
  fe_Path :: "string list"

record lib =
  l_SetOwnerReference :: "capp \<Rightarrow> object_meta \<Rightarrow> owner_ref list result"
  l_HasOwnerReference :: "owner_ref list \<Rightarrow> capp \<Rightarrow> bool result"
  l_ContainsFinalizer :: "string list \<Rightarrow> string \<Rightarrow> bool"
  l_AddFinalizer :: "string list \<Rightarrow> string \<Rightarrow> string list"
  l_RemoveFinalizer :: "string list \<Rightarrow> string \<Rightarrow> string list"
  l_ConfigurationSetDefaults :: "configuration_spec \<Rightarrow> configuration_spec"
  l_RouteSetDefaults :: "opaque \<Rightarrow> opaque"
  l_RevisionSetDefaults :: "revision_spec \<Rightarrow> revision_spec"
  l_SetStatusCondition :: "time \<Rightarrow> condition list \<Rightarrow> condition \<Rightarrow> condition list"
  l_ChildName :: "string \<Rightarrow> string \<Rightarrow> string"
  l_NewRequirement :: "string \<Rightarrow> string \<Rightarrow> go_error option"
  l_AggregateText :: "go_error list \<Rightarrow> string"
  l_SortCappRevisions :: "capp_revision list \<Rightarrow> capp_revision list"
  l_SortKnativeRevisions :: "knative_revision list \<Rightarrow> knative_revision list"
  l_SortEventSources :: "event_source_status list \<Rightarrow> event_source_status list"
  l_MapKeys :: "strmap \<Rightarrow> string list"
  l_IsFQDN :: "string \<Rightarrow> string option"
  l_RegexpCompile :: "string \<Rightarrow> (string, string \<Rightarrow> bool) sum"
  l_FieldErrorText :: "field_error list \<Rightarrow> string"
  l_ClusterDomain :: string
  l_LookupHost :: "string \<Rightarrow> (string \<times> bool) option"
  l_ValidatePingSource :: "string \<Rightarrow> string \<Rightarrow> string option"

text \<open>
  The documented contract of \<open>SetOwnerReference\<close> and \<open>HasOwnerReference\<close>: the second answers
  on every reference list the server accepts; the first succeeds on an object of the owner's
  namespace, leaves a reference that \<open>HasOwnerReference\<close> finds, and setting it again changes
  nothing.
\<close>

definition owner_refs_lib :: "lib \<Rightarrow> bool" where
  "owner_refs_lib l \<longleftrightarrow>
     (\<forall>c rs. \<exists>b. l_HasOwnerReference l rs c = Ok b) \<and>
     (\<forall>c m. Namespace m = Namespace (Meta c) \<longrightarrow>
        (\<exists>rs. l_SetOwnerReference l c m = Ok rs
           \<and> l_HasOwnerReference l rs c = Ok True
           \<and> (\<forall>m'. Namespace m' = Namespace m \<longrightarrow> OwnerReferences m' = rs \<longrightarrow>
                l_SetOwnerReference l c m' = Ok rs)))"

text \<open>\<open>sort.Slice\<close>: the same elements, none before one that is less.\<close>

definition slice_sorted :: "('a \<Rightarrow> 'a \<Rightarrow> bool) \<Rightarrow> ('a list \<Rightarrow> 'a list) \<Rightarrow> bool" where
  "slice_sorted lt srt \<longleftrightarrow>
     (\<forall>xs. mset (srt xs) = mset xs \<and> sorted_wrt (\<lambda>x y. \<not> lt y x) (srt xs))"

lemma slice_sorted_set:
  assumes "slice_sorted lt srt"
  shows "set (srt xs) = set xs" and "length (srt xs) = length xs"
proof -
  have "mset (srt xs) = mset xs" using assms by (simp add: slice_sorted_def)
  then show "set (srt xs) = set xs" and "length (srt xs) = length xs"
    by (auto dest: mset_eq_setD mset_eq_length)
qed

definition newerRevision :: "capp_revision \<Rightarrow> capp_revision \<Rightarrow> bool" where
  "newerRevision a b \<longleftrightarrow> CreationTimestamp (Meta b) < CreationTimestamp (Meta a)"

definition olderKnativeRevision :: "knative_revision \<Rightarrow> knative_revision \<Rightarrow> bool" where
  "olderKnativeRevision a b \<longleftrightarrow>
     (if CreationTimestamp (Meta a) \<noteq> CreationTimestamp (Meta b)
      then CreationTimestamp (Meta a) < CreationTimestamp (Meta b)
      else Name (Meta a) < Name (Meta b))"

definition sort_lib :: "lib \<Rightarrow> bool" where
  "sort_lib l \<longleftrightarrow> slice_sorted newerRevision (l_SortCappRevisions l)
     \<and> slice_sorted olderKnativeRevision (l_SortKnativeRevisions l)
     \<and> slice_sorted (\<lambda>a b. es_Name a < es_Name b) (l_SortEventSources l)"

definition map_keys_lib :: "lib \<Rightarrow> bool" where
  "map_keys_lib l \<longleftrightarrow> (\<forall>m. set (l_MapKeys l m) = fset (fmdom m))"

text \<open>
  \<open>meta.SetStatusCondition\<close>: the only condition of its type is the given one, with a
  transition time; setting it again changes nothing, and the time of the call only shows in
  transition times.
\<close>

definition condition_lib :: "lib \<Rightarrow> bool" where
  "condition_lib l \<longleftrightarrow>
     (\<forall>t cs c. (\<exists>x \<in> set (l_SetStatusCondition l t cs c).
          cond_Type x = cond_Type c \<and> cond_Status x = cond_Status c
          \<and> cond_Reason x = cond_Reason c \<and> cond_Message x = cond_Message c)
        \<and> (\<forall>t'. l_SetStatusCondition l t' (l_SetStatusCondition l t cs c) c
                = l_SetStatusCondition l t cs c
             \<and> map (\<lambda>x. x\<lparr>cond_LastTransitionTime := None\<rparr>) (l_SetStatusCondition l t' cs c)
                = map (\<lambda>x. x\<lparr>cond_LastTransitionTime := None\<rparr>) (l_SetStatusCondition l t cs c)))"

section \<open>A reachable API server without concurrent writers\<close>

definition selected :: "strmap \<Rightarrow> object_meta \<Rightarrow> bool" where
  "selected sel m \<longleftrightarrow> sel \<subseteq>\<^sub>f Labels m"

text \<open>
  What the server keeps of an object it is sent: everything the client may set. It assigns
  the UID, the resource version, the generation and the creation time itself.
\<close>

definition persisted :: "('sp, 'st) resource \<Rightarrow> ('sp, 'st) resource \<Rightarrow> bool" where
  "persisted r r' \<longleftrightarrow>
     Spec r' = Spec r \<and> Name (Meta r') = Name (Meta r)
     \<and> Namespace (Meta r') = Namespace (Meta r) \<and> Labels (Meta r') = Labels (Meta r)
     \<and> Annotations (Meta r') = Annotations (Meta r)
     \<and> OwnerReferences (Meta r') = OwnerReferences (Meta r)
     \<and> Finalizers (Meta r') = Finalizers (Meta r)"

lemma persisted_key: "persisted r r' \<Longrightarrow> key_of r' = key_of r"
  by (simp add: persisted_def key_of_def)

definition terminating :: "('sp, 'st) resource \<Rightarrow> bool" where
  "terminating r \<longleftrightarrow> DeletionTimestamp (Meta r) \<noteq> None"

text \<open>
  The laws of one kind: \<open>tab\<close> and \<open>upd\<close> are the field of the world that holds its table.
  A delete of an object with finalizers only marks it as terminating.
\<close>

locale kind_api =
  fixes kc :: "('sp, 'st) kind_client"
    and tab :: "world \<Rightarrow> ('sp, 'st) table"
    and upd :: "(('sp, 'st) table \<Rightarrow> ('sp, 'st) table) \<Rightarrow> world \<Rightarrow> world"
  assumes tab_upd: "tab (upd g w) = g (tab w)"
    and tab_events: "tab (events_update h w) = tab w"
    and upd_upd: "upd g (upd f w) = upd (\<lambda>t. g (f t)) w"
    and upd_same: "upd (\<lambda>_. tab w) w = w"
    and upd_events: "events_update k (upd g w) = upd g (events_update k w)"
    and get_found: "tlookup (tab w) (NamespacedName ns n) = Some r \<Longrightarrow> kget kc ns n w = (Ok r, w)"
    and get_missing: "tlookup (tab w) (NamespacedName ns n) = None \<Longrightarrow>
      \<exists>e. IsNotFound e \<and> kget kc ns n w = (Err e, w)"
    and list_all_selected: "\<exists>rs. klist kc ns sel None w = (Ok rs, w)
      \<and> distinct (map key_of rs)
      \<and> set rs = {r. tlookup (tab w) (key_of r) = Some r
                     \<and> Namespace (Meta r) = ns \<and> selected sel (Meta r)}"
    and list_limited: "\<exists>rs. klist kc ns sel (Some lim) w = (Ok rs, w)
      \<and> distinct (map key_of rs) \<and> length rs \<le> lim
      \<and> set rs \<subseteq> {r. tlookup (tab w) (key_of r) = Some r
                     \<and> Namespace (Meta r) = ns \<and> selected sel (Meta r)}
      \<and> (card {r. tlookup (tab w) (key_of r) = Some r
                   \<and> Namespace (Meta r) = ns \<and> selected sel (Meta r)} \<le> lim \<longrightarrow>
          set rs = {r. tlookup (tab w) (key_of r) = Some r
                     \<and> Namespace (Meta r) = ns \<and> selected sel (Meta r)})"
    and create_new: "tlookup (tab w) (key_of r) = None \<Longrightarrow>
      \<exists>t' r'. kcreate kc r w = (Ok (), upd (\<lambda>_. t') w) \<and> persisted r r'
        \<and> \<not> terminating r' \<and> tlookup t' = (tlookup (tab w))(key_of r \<mapsto> r')"
    and update_current: "tlookup (tab w) (key_of r) = Some r0 \<Longrightarrow>
      ResourceVersion (Meta r) = ResourceVersion (Meta r0) \<Longrightarrow> \<not> terminating r0 \<Longrightarrow>
      \<exists>t' r'. kupdate kc r w = (Ok (), upd (\<lambda>_. t') w) \<and> persisted r r'
        \<and> \<not> terminating r' \<and> tlookup t' = (tlookup (tab w))(key_of r \<mapsto> r')"
    and delete_present: "tlookup (tab w) (key_of r) = Some r0 \<Longrightarrow>
      \<exists>t' x. kdelete kc r w = (Ok (), upd (\<lambda>_. t') w)
        \<and> tlookup t' = (tlookup (tab w))(key_of r := x)
        \<and> (Finalizers (Meta r0) = [] \<longrightarrow> x = None)
        \<and> (\<forall>r'. x = Some r' \<longrightarrow> terminating r' \<and> persisted r0 r')"
    and delete_missing: "tlookup (tab w) (key_of r) = None \<Longrightarrow>
      \<exists>e. IsNotFound e \<and> kdelete kc r w = (Err e, w)"
    and create_taken: "tlookup (tab w) (key_of r) = Some r0 \<Longrightarrow>
      \<exists>e. IsAlreadyExists e \<and> kcreate kc r w = (Err e, w)"
begin

lemma get_cases:
  obtains (found) r where "tlookup (tab w) (NamespacedName ns n) = Some r" "kget kc ns n w = (Ok r, w)"
      "key_of r = NamespacedName ns n"
  | (missing) e where "tlookup (tab w) (NamespacedName ns n) = None" "IsNotFound e"
      "kget kc ns n w = (Err e, w)"
proof (cases "tlookup (tab w) (NamespacedName ns n)")
  case None
  with get_missing [OF None] show ?thesis by (auto intro: missing)
next
  case (Some r)
  then show ?thesis by (intro found [OF Some]) (auto simp: get_found dest: tlookup_Some_key)
qed

end

section \<open>An in-memory client\<close>

text \<open>
  The client a test would use (as the operator's own tests use a fake one): every operation
  acts on the table of its kind at once. An update keeps the stored status, as for kinds
  with a status subresource.
\<close>

definition api_error :: "status_reason \<Rightarrow> string \<Rightarrow> go_error" where
  "api_error rsn s = GoError s (Some rsn) None"

definition mem_get ::
  "(world \<Rightarrow> ('sp, 'st) table) \<Rightarrow> string \<Rightarrow> string \<Rightarrow> ('sp, 'st) resource act" where
  "mem_get tab ns n w =
     (case tlookup (tab w) (NamespacedName ns n) of
        None \<Rightarrow> (Err (api_error NotFound (fmt_q n @ '' not found'')), w)
      | Some r \<Rightarrow> (Ok r, w))"

definition mem_list ::
  "(world \<Rightarrow> ('sp, 'st) table) \<Rightarrow> string \<Rightarrow> strmap \<Rightarrow> nat option \<Rightarrow>
   ('sp, 'st) resource list act" where
  "mem_list tab ns sel limit w =
     (let rs = remdups (filter (\<lambda>r. tlookup (tab w) (key_of r) = Some r
                 \<and> Namespace (Meta r) = ns \<and> selected sel (Meta r)) (tab w))
      in (Ok (case limit of None \<Rightarrow> rs | Some n \<Rightarrow> take n rs), w))"

definition mem_create ::
  "(world \<Rightarrow> ('sp, 'st) table) \<Rightarrow> ((('sp, 'st) table \<Rightarrow> ('sp, 'st) table) \<Rightarrow> world \<Rightarrow> world) \<Rightarrow>
   ('sp, 'st) resource \<Rightarrow> unit act" where
  "mem_create tab upd r w =
     (case tlookup (tab w) (key_of r) of
        Some r0 \<Rightarrow> (Err (api_error AlreadyExists (fmt_q (Name (Meta r)) @ '' already exists'')), w)
      | None \<Rightarrow>
          (Ok (), upd (\<lambda>_. tput (r\<lparr>Meta := (Meta r)\<lparr>CreationTimestamp := clock w, DeletionTimestamp := None\<rparr>\<rparr>) (tab w)) w))"

definition mem_update ::
  "(world \<Rightarrow> ('sp, 'st) table) \<Rightarrow> ((('sp, 'st) table \<Rightarrow> ('sp, 'st) table) \<Rightarrow> world \<Rightarrow> world) \<Rightarrow>
   ('sp, 'st) resource \<Rightarrow> unit act" where
  "mem_update tab upd r w =
     (case tlookup (tab w) (key_of r) of
        None \<Rightarrow> (Err (api_error NotFound (fmt_q (Name (Meta r)) @ '' not found'')), w)
      | Some r0 \<Rightarrow>
          if ResourceVersion (Meta r) \<noteq> ResourceVersion (Meta r0)
          then (Err (api_error Conflict ''the object has been modified''), w)
          else
            (let r' = r\<lparr>Status := Status r0,
                        Meta := (Meta r)\<lparr>DeletionTimestamp := DeletionTimestamp (Meta r0),
                          ResourceVersion := ResourceVersion (Meta r) @ ''+''\<rparr>\<rparr>
             in if terminating r0 \<and> Finalizers (Meta r) = []
                then (Ok (), upd (\<lambda>_. tremove (key_of r) (tab w)) w)
                else (Ok (), upd (\<lambda>_. tput r' (tab w)) w)))"

definition mem_delete ::
  "(world \<Rightarrow> ('sp, 'st) table) \<Rightarrow> ((('sp, 'st) table \<Rightarrow> ('sp, 'st) table) \<Rightarrow> world \<Rightarrow> world) \<Rightarrow>
   ('sp, 'st) resource \<Rightarrow> unit act" where
  "mem_delete tab upd r w =
     (case tlookup (tab w) (key_of r) of
        None \<Rightarrow> (Err (api_error NotFound (fmt_q (Name (Meta r)) @ '' not found'')), w)
      | Some r0 \<Rightarrow>
          if Finalizers (Meta r0) = [] then (Ok (), upd (\<lambda>_. tremove (key_of r) (tab w)) w)
          else (Ok (), upd (\<lambda>_. tput (r0\<lparr>Meta := (Meta r0)\<lparr>DeletionTimestamp :=
                  (case DeletionTimestamp (Meta r0) of None \<Rightarrow> Some (clock w) | Some t \<Rightarrow> Some t)
                  \<rparr>\<rparr>) (tab w)) w))"

definition mem_kind ::
  "(world \<Rightarrow> ('sp, 'st) table) \<Rightarrow> ((('sp, 'st) table \<Rightarrow> ('sp, 'st) table) \<Rightarrow> world \<Rightarrow> world) \<Rightarrow>
   ('sp, 'st) kind_client" where
  "mem_kind tab upd =
     \<lparr>kget = mem_get tab, klist = mem_list tab, kcreate = mem_create tab upd,
      kupdate = mem_update tab upd, kdelete = mem_delete tab upd\<rparr>"

definition mem_client :: client where
  "mem_client =
     \<lparr>c_capps = mem_kind capps capps_update,
      c_cappconfigs = mem_kind cappconfigs cappconfigs_update,
      c_capprevisions = mem_kind capprevisions capprevisions_update,
      c_ksvcs = mem_kind ksvcs ksvcs_update,
      c_knrevisions = mem_kind knrevisions knrevisions_update,
      c_nfspvcs = mem_kind nfspvcs nfspvcs_update,
      c_outputs = mem_kind outputs outputs_update,
      c_flows = mem_kind flows flows_update,
      c_certificates = mem_kind certificates certificates_update,
      c_domainmappings = mem_kind domainmappings domainmappings_update,
      c_cnamerecords = mem_kind cnamerecords cnamerecords_update,
      c_pingsources = mem_kind pingsources pingsources_update,
      c_kafkasources = mem_kind kafkasources kafkasources_update,
      c_secrets = mem_kind secrets secrets_update,
      c_allCapps = (\<lambda>w. (Ok (capps w), w)),
      c_statusUpdate = (\<lambda>c w.
        case tlookup (capps w) (key_of c) of
          None \<Rightarrow> (Err (api_error NotFound (fmt_q (Name (Meta c)) @ '' not found'')), w)
        | Some c0 \<Rightarrow>
            if ResourceVersion (Meta c) \<noteq> ResourceVersion (Meta c0)
            then (Err (api_error Conflict ''the object has been modified''), w)
            else (Ok (), w\<lparr>capps := tput (c0\<lparr>Status := Status c\<rparr>) (capps w)\<rparr>))\<rparr>"

lemma mem_kind_simps [simp]:
  "kget (mem_kind tab upd) = mem_get tab"
  "klist (mem_kind tab upd) = mem_list tab"
  "kcreate (mem_kind tab upd) = mem_create tab upd"
  "kupdate (mem_kind tab upd) = mem_update tab upd"
  "kdelete (mem_kind tab upd) = mem_delete tab upd"
  by (simp_all add: mem_kind_def)

lemma mem_list_distinct:
  assumes "mem_list tab ns sel None w = (Ok rs, v)"
  shows "distinct (map key_of rs)"
proof -
  have "inj_on key_of {r. tlookup (tab w) (key_of r) = Some r}"
  proof (rule inj_onI, unfold mem_Collect_eq)
    fix x y
    assume x: "tlookup (tab w) (key_of x) = Some x" and y: "tlookup (tab w) (key_of y) = Some y"
      and k: "key_of x = key_of y"
    have "Some x = Some y" unfolding x [symmetric] y [symmetric] k ..
    then show "x = y" by (rule option.inject [THEN iffD1])
  qed
  moreover have "set rs \<subseteq> {r. tlookup (tab w) (key_of r) = Some r}" and "distinct rs"
    using assms by (auto simp: mem_list_def Let_def)
  ultimately show ?thesis by (auto simp: distinct_map intro: inj_on_subset)
qed

lemma tlookup_in_set: "tlookup t k = Some r \<Longrightarrow> r \<in> set t"
  by (auto simp: tlookup_def find_Some_iff)

lemma mem_list_set:
  "mem_list tab ns sel None w = (Ok rs, v) \<Longrightarrow>
     set rs = {r. tlookup (tab w) (key_of r) = Some r
                  \<and> Namespace (Meta r) = ns \<and> selected sel (Meta r)}"
  by (auto simp: mem_list_def Let_def dest: tlookup_in_set)

lemma mem_kind_api:
  assumes "\<And>g w. tab (upd g w) = g (tab w)" and "\<And>h w. tab (events_update h w) = tab w"
    and "\<And>g h w. upd g (upd h w) = upd (\<lambda>t. g (h t)) w" and "\<And>w. upd (\<lambda>_. tab w) w = w"
    and "\<And>k g w. events_update k (upd g w) = upd g (events_update k w)"
  shows "kind_api (mem_kind tab upd) tab upd"
proof (unfold_locales, goal_cases)
  case (1 g w) show ?case by (rule assms(1))
next
  case (2 h w) show ?case by (rule assms(2))
next
  case (3 g h w) show ?case by (rule assms(3))
next
  case (4 w) show ?case by (rule assms(4))
next
  case (5 k g w) show ?case by (rule assms(5))
next
  case (6 w ns n r) then show ?case by (simp add: mem_get_def)
next
  case (7 w ns n) then show ?case by (simp add: mem_get_def api_error_def IsNotFound_def)
next
  case (8 ns sel w)
  obtain rs where rs: "mem_list tab ns sel None w = (Ok rs, w)" by (simp add: mem_list_def Let_def)
  with mem_list_distinct [OF rs] mem_list_set [OF rs] show ?case by auto
next
  case (9 ns sel n w)
  obtain rs where rs: "mem_list tab ns sel None w = (Ok rs, w)" by (simp add: mem_list_def Let_def)
  have d: "distinct rs" using mem_list_distinct [OF rs] by (simp add: distinct_map)
  have "mem_list tab ns sel (Some n) w = (Ok (take n rs), w)"
    using rs by (simp add: mem_list_def Let_def)
  moreover have "distinct (map key_of (take n rs))"
    using mem_list_distinct [OF rs] by (simp add: take_map distinct_take flip: take_map)
  moreover have "take n rs = rs" if "card (set rs) \<le> n"
    using that d by (simp add: distinct_card)
  ultimately show ?case
    unfolding mem_kind_simps mem_list_set [OF rs, symmetric] using set_take_subset [of n rs] by auto
next
  case (10 w r)
  let ?r' = "r\<lparr>Meta := (Meta r)\<lparr>CreationTimestamp := clock w, DeletionTimestamp := None\<rparr>\<rparr>"
  have "kcreate (mem_kind tab upd) r w = (Ok (), upd (\<lambda>_. tput ?r' (tab w)) w)"
    using 10 by (simp add: mem_create_def)
  moreover have "key_of ?r' = key_of r" by (simp add: key_of_def)
  ultimately show ?case using tlookup_put [of ?r' "tab w"]
    by (intro exI [of _ "tput ?r' (tab w)"] exI [of _ ?r'])
      (auto simp: persisted_def terminating_def)
next
  case (11 w r r0)
  let ?r' = "r\<lparr>Status := Status r0, Meta := (Meta r)\<lparr>DeletionTimestamp :=
    DeletionTimestamp (Meta r0), ResourceVersion := ResourceVersion (Meta r) @ ''+''\<rparr>\<rparr>"
  have "kupdate (mem_kind tab upd) r w = (Ok (), upd (\<lambda>_. tput ?r' (tab w)) w)"
    using 11 by (simp add: mem_update_def)
  moreover have "key_of ?r' = key_of r" by (simp add: key_of_def)
  ultimately show ?case using tlookup_put [of ?r' "tab w"] 11
    by (intro exI [of _ "tput ?r' (tab w)"] exI [of _ ?r'])
      (auto simp: persisted_def terminating_def)
next
  case (12 w r r0)
  let ?r' = "r0\<lparr>Meta := (Meta r0)\<lparr>DeletionTimestamp :=
    (case DeletionTimestamp (Meta r0) of None \<Rightarrow> Some (clock w) | Some t \<Rightarrow> Some t)\<rparr>\<rparr>"
  have k: "key_of ?r' = key_of r" using tlookup_Some_key [OF 12] by (simp add: key_of_def)
  show ?case
  proof (cases "Finalizers (Meta r0) = []")
    case True
    with 12 show ?thesis
      by (intro exI [of _ "tremove (key_of r) (tab w)"] exI [of _ None])
        (simp add: mem_delete_def tlookup_remove)
  next
    case False
    with 12 k tlookup_put [of ?r' "tab w"] show ?thesis
      by (intro exI [of _ "tput ?r' (tab w)"] exI [of _ "Some ?r'"])
        (auto simp: mem_delete_def persisted_def terminating_def split: option.split)
  qed
next
  case (13 w r) then show ?case by (simp add: mem_delete_def api_error_def IsNotFound_def)
next
  case (14 w r r0) then show ?case by (simp add: mem_create_def api_error_def IsAlreadyExists_def)
qed

interpretation mem_capps: kind_api "mem_kind capps capps_update" capps capps_update
  by (rule mem_kind_api) simp_all

interpretation mem_cappconfigs: kind_api "mem_kind cappconfigs cappconfigs_update" cappconfigs cappconfigs_update
  by (rule mem_kind_api) simp_all

interpretation mem_capprevisions: kind_api "mem_kind capprevisions capprevisions_update" capprevisions capprevisions_update
  by (rule mem_kind_api) simp_all

interpretation mem_ksvcs: kind_api "mem_kind ksvcs ksvcs_update" ksvcs ksvcs_update
  by (rule mem_kind_api) simp_all

interpretation mem_knrevisions: kind_api "mem_kind knrevisions knrevisions_update" knrevisions knrevisions_update
  by (rule mem_kind_api) simp_all

interpretation mem_nfspvcs: kind_api "mem_kind nfspvcs nfspvcs_update" nfspvcs nfspvcs_update
  by (rule mem_kind_api) simp_all

interpretation mem_outputs: kind_api "mem_kind outputs outputs_update" outputs outputs_update
  by (rule mem_kind_api) simp_all

interpretation mem_flows: kind_api "mem_kind flows flows_update" flows flows_update
  by (rule mem_kind_api) simp_all

interpretation mem_certificates: kind_api "mem_kind certificates certificates_update" certificates certificates_update
  by (rule mem_kind_api) simp_all

interpretation mem_domainmappings: kind_api "mem_kind domainmappings domainmappings_update" domainmappings domainmappings_update
  by (rule mem_kind_api) simp_all

interpretation mem_cnamerecords: kind_api "mem_kind cnamerecords cnamerecords_update" cnamerecords cnamerecords_update
  by (rule mem_kind_api) simp_all

interpretation mem_pingsources: kind_api "mem_kind pingsources pingsources_update" pingsources pingsources_update
  by (rule mem_kind_api) simp_all

interpretation mem_kafkasources: kind_api "mem_kind kafkasources kafkasources_update" kafkasources kafkasources_update
  by (rule mem_kind_api) simp_all

interpretation mem_secrets: kind_api "mem_kind secrets secrets_update" secrets secrets_update
  by (rule mem_kind_api) simp_all

lemma mem_client_simps [simp]:
  "c_capps mem_client = mem_kind capps capps_update"
  "c_cappconfigs mem_client = mem_kind cappconfigs cappconfigs_update"
  "c_capprevisions mem_client = mem_kind capprevisions capprevisions_update"
  "c_ksvcs mem_client = mem_kind ksvcs ksvcs_update"
  "c_knrevisions mem_client = mem_kind knrevisions knrevisions_update"
  "c_nfspvcs mem_client = mem_kind nfspvcs nfspvcs_update"
  "c_outputs mem_client = mem_kind outputs outputs_update"
  "c_flows mem_client = mem_kind flows flows_update"
  "c_certificates mem_client = mem_kind certificates certificates_update"
  "c_domainmappings mem_client = mem_kind domainmappings domainmappings_update"
  "c_cnamerecords mem_client = mem_kind cnamerecords cnamerecords_update"
  "c_pingsources mem_client = mem_kind pingsources pingsources_update"
  "c_kafkasources mem_client = mem_kind kafkasources kafkasources_update"
  "c_secrets mem_client = mem_kind secrets secrets_update"
  by (simp_all add: mem_client_def)

section \<open>Helper libraries for concrete runs\<close>

text \<open>A concrete instance of the library parameters, with the contracts above.\<close>

definition mem_owner_ref :: "capp \<Rightarrow> owner_ref" where
  "mem_owner_ref c =
     \<lparr>or_APIVersion = ''rcs.dana.io/v1alpha1'', or_Kind = ''Capp'', or_Name = Name (Meta c),
      or_UID = UID (Meta c)\<rparr>"

definition mem_same_owner :: "capp \<Rightarrow> owner_ref \<Rightarrow> bool" where
  "mem_same_owner c r \<longleftrightarrow> or_Kind r = ''Capp'' \<and> or_Name r = Name (Meta c)"

definition mem_set_owner :: "capp \<Rightarrow> owner_ref list \<Rightarrow> owner_ref list" where
  "mem_set_owner c rs =
     (if \<exists>r \<in> set rs. mem_same_owner c r
      then map (\<lambda>r. if mem_same_owner c r then mem_owner_ref c else r) rs
      else rs @ [mem_owner_ref c])"

definition mem_update_condition :: "time \<Rightarrow> condition \<Rightarrow> condition \<Rightarrow> condition" where
  "mem_update_condition t c x =
     (if cond_Type x \<noteq> cond_Type c then x
      else x\<lparr>cond_Status := cond_Status c, cond_Reason := cond_Reason c,
             cond_Message := cond_Message c,
             cond_LastTransitionTime :=
               (if cond_Status x = cond_Status c then cond_LastTransitionTime x else Some t)\<rparr>)"

definition mem_set_condition :: "time \<Rightarrow> condition list \<Rightarrow> condition \<Rightarrow> condition list" where
  "mem_set_condition t cs c =
     (if list_ex (\<lambda>x. cond_Type x = cond_Type c) cs then map (mem_update_condition t c) cs
      else cs @ [c\<lparr>cond_LastTransitionTime := Some t\<rparr>])"

text \<open>Insertion sort by \<open>lt\<close>.\<close>

fun insert_by :: "('a \<Rightarrow> 'a \<Rightarrow> bool) \<Rightarrow> 'a \<Rightarrow> 'a list \<Rightarrow> 'a list" where
  "insert_by lt x [] = [x]"
| "insert_by lt x (y # ys) = (if lt y x then y # insert_by lt x ys else x # y # ys)"

definition sort_by :: "('a \<Rightarrow> 'a \<Rightarrow> bool) \<Rightarrow> 'a list \<Rightarrow> 'a list" where
  "sort_by lt xs = foldr (insert_by lt) xs []"

lemma insert_by_mset: "mset (insert_by lt x ys) = add_mset x (mset ys)"
  by (induction ys) auto

lemma insert_by_sorted:
  assumes asym: "\<And>a b. lt a b \<Longrightarrow> \<not> lt b a"
    and trans: "\<And>a b c. \<not> lt b a \<Longrightarrow> \<not> lt c b \<Longrightarrow> \<not> lt c a"
    and "sorted_wrt (\<lambda>x y. \<not> lt y x) ys"
  shows "sorted_wrt (\<lambda>x y. \<not> lt y x) (insert_by lt x ys)"
  using assms(3)
proof (induction ys)
  case (Cons y ys)
  show ?case
  proof (cases "lt y x")
    case True
    have "set (insert_by lt x ys) = insert x (set ys)"
      using insert_by_mset [of lt x ys] by (metis set_mset_add_mset_insert set_mset_mset)
    with Cons True asym show ?thesis by auto
  next
    case False
    with Cons.prems trans [of y x] show ?thesis by auto
  qed
qed simp

lemma sort_by_sorted:
  assumes "\<And>a b. lt a b \<Longrightarrow> \<not> lt b a" and "\<And>a b c. \<not> lt b a \<Longrightarrow> \<not> lt c b \<Longrightarrow> \<not> lt c a"
  shows "slice_sorted lt (sort_by lt)"
proof -
  have "mset (sort_by lt xs) = mset xs \<and> sorted_wrt (\<lambda>x y. \<not> lt y x) (sort_by lt xs)" for xs
    by (induction xs) (simp_all add: sort_by_def insert_by_mset insert_by_sorted [OF assms])
  then show ?thesis by (simp add: slice_sorted_def)
qed

definition mem_lib :: lib where
  "mem_lib =
     \<lparr>l_SetOwnerReference = (\<lambda>c m. Ok (mem_set_owner c (OwnerReferences m))),
      l_HasOwnerReference = (\<lambda>rs c. Ok (list_ex (mem_same_owner c) rs)),
      l_ContainsFinalizer = (\<lambda>fs f. f \<in> set fs),
      l_AddFinalizer = (\<lambda>fs f. if f \<in> set fs then fs else fs @ [f]),
      l_RemoveFinalizer = (\<lambda>fs f. filter (\<lambda>x. x \<noteq> f) fs),
      l_ConfigurationSetDefaults = (\<lambda>c. c), l_RouteSetDefaults = (\<lambda>r. r),
      l_RevisionSetDefaults = (\<lambda>r. r), l_SetStatusCondition = mem_set_condition,
      l_ChildName = (\<lambda>a b. a @ b),
      l_NewRequirement = (\<lambda>k v. if length v \<le> 63 then None else Some (new_error ''invalid label value'')),
      l_AggregateText = (\<lambda>es. Join (map err_text es) '', ''),
      l_SortCappRevisions = sort_by newerRevision,
      l_SortKnativeRevisions = sort_by olderKnativeRevision,
      l_SortEventSources = sort_by (\<lambda>a b. es_Name a < es_Name b),
      l_MapKeys = (\<lambda>m. sorted_list_of_fset (fmdom m)),
      l_IsFQDN = (\<lambda>s. if CHR ''.'' \<in> set s then None else Some ''not fully qualified''),
      l_RegexpCompile = (\<lambda>p. if p = [] then Inl ''empty pattern'' else Inr (\<lambda>s. HasSuffix s p)),
      l_FieldErrorText = (\<lambda>es. Join (map fe_Message es) '', ''), l_ClusterDomain = ''cluster.local'',
      l_LookupHost = (\<lambda>s. Some (''no such host'', True)),
      l_ValidatePingSource = (\<lambda>s d. None)\<rparr>"

lemma mem_same_owner_ref [simp]: "mem_same_owner c (mem_owner_ref c)"
  by (simp add: mem_same_owner_def mem_owner_ref_def)

lemma mem_set_owner_has: "list_ex (mem_same_owner c) (mem_set_owner c rs)"
  by (auto simp: mem_set_owner_def list_ex_iff intro!: bexI [of _ "mem_owner_ref c"])

lemma mem_set_owner_again: "mem_set_owner c (mem_set_owner c rs) = mem_set_owner c rs"
proof -
  have "map (\<lambda>r. if mem_same_owner c r then mem_owner_ref c else r) rs = rs"
    if "\<forall>r \<in> set rs. \<not> mem_same_owner c r" using that by (induction rs) auto
  then show ?thesis
    using mem_set_owner_has [of c rs] by (auto simp: mem_set_owner_def list_ex_iff)
qed

lemma mem_owner_refs_lib: "owner_refs_lib mem_lib"
  by (auto simp: owner_refs_lib_def mem_lib_def mem_set_owner_has mem_set_owner_again)

lemma mem_sort_lib: "sort_lib mem_lib"
  unfolding sort_lib_def mem_lib_def
  by (simp, intro conjI sort_by_sorted)
    (auto simp: newerRevision_def olderKnativeRevision_def split: if_splits)

lemma mem_map_keys_lib: "map_keys_lib mem_lib"
  by (simp add: map_keys_lib_def mem_lib_def)

lemma mem_update_condition_type [simp]:
  "cond_Type (mem_update_condition t c x) = cond_Type x"
  by (simp add: mem_update_condition_def)

lemma mem_update_condition_again:
  "mem_update_condition t' c (mem_update_condition t c x) = mem_update_condition t c x"
  by (cases x) (simp add: mem_update_condition_def)

lemma mem_update_condition_new:
  "mem_update_condition t' c (c\<lparr>cond_LastTransitionTime := Some t\<rparr>)
     = c\<lparr>cond_LastTransitionTime := Some t\<rparr>"
  by (cases c) (simp add: mem_update_condition_def)

lemma mem_update_condition_other:
  "\<not> list_ex (\<lambda>x. cond_Type x = cond_Type c) cs \<Longrightarrow> map (mem_update_condition t c) cs = cs"
  by (induction cs) (auto simp: mem_update_condition_def)

lemma mem_set_condition_again:
  "mem_set_condition t' (mem_set_condition t cs c) c = mem_set_condition t cs c"
proof (cases "list_ex (\<lambda>x. cond_Type x = cond_Type c) cs")
  case True
  then have "list_ex (\<lambda>x. cond_Type x = cond_Type c) (map (mem_update_condition t c) cs)"
    by (simp add: list_ex_iff)
  with True show ?thesis
    by (simp add: mem_set_condition_def mem_update_condition_again)
next
  case False
  then show ?thesis
    by (simp add: mem_set_condition_def mem_update_condition_other mem_update_condition_new)
qed

lemma mem_set_condition_has:
  "\<exists>x \<in> set (mem_set_condition t cs c).
      cond_Type x = cond_Type c \<and> cond_Status x = cond_Status c
      \<and> cond_Reason x = cond_Reason c \<and> cond_Message x = cond_Message c"
proof (cases "list_ex (\<lambda>x. cond_Type x = cond_Type c) cs")
  case True
  then obtain x where "x \<in> set cs" "cond_Type x = cond_Type c" by (auto simp: list_ex_iff)
  with True show ?thesis
    by (intro bexI [of _ "mem_update_condition t c x"])
      (simp_all add: mem_set_condition_def mem_update_condition_def)
qed (simp add: mem_set_condition_def)

lemma mem_set_condition_time:
  "map (\<lambda>x. x\<lparr>cond_LastTransitionTime := None\<rparr>) (mem_set_condition t' cs c)
     = map (\<lambda>x. x\<lparr>cond_LastTransitionTime := None\<rparr>) (mem_set_condition t cs c)"
  by (simp add: mem_set_condition_def mem_update_condition_def)

lemma mem_condition_lib: "condition_lib mem_lib"
  unfolding condition_lib_def mem_lib_def
  using mem_set_condition_has mem_set_condition_time
  by (simp add: mem_set_condition_again)

section \<open>Sorted lists are determined by their elements\<close>

lemma sorted_wrt_unique:
  assumes "sorted_wrt P xs" "sorted_wrt P ys" "mset xs = mset ys"
    and "\<And>a b. a \<in> set xs \<Longrightarrow> b \<in> set xs \<Longrightarrow> P a b \<Longrightarrow> P b a \<Longrightarrow> a = b"
  shows "xs = ys"
  using assms
proof (induction xs arbitrary: ys)
  case Nil
  then show ?case by simp
next
  case (Cons x xs)
  from Cons.prems(3) obtain y ys' where ys: "ys = y # ys'" by (cases ys) auto
  have "x = y"
  proof (rule ccontr)
    assume "x \<noteq> y"
    with Cons.prems(3) ys have "y \<in> set xs" "x \<in> set ys'"
      by (metis insert_iff list.simps(15) mset_eq_setD)+
    with Cons.prems(1,2) ys have "P x y" "P y x" by simp_all
    with Cons.prems(4) \<open>y \<in> set xs\<close> \<open>x \<noteq> y\<close> show False by simp
  qed
  with Cons ys show ?case by simp
qed

lemma slice_sorted_unique:
  assumes "slice_sorted lt srt" and "distinct xs" "distinct ys" "set xs = set ys"
    and "\<And>a b. a \<in> set xs \<Longrightarrow> b \<in> set xs \<Longrightarrow> a \<noteq> b \<Longrightarrow> lt a b \<or> lt b a"
  shows "srt xs = srt ys"
proof (rule sorted_wrt_unique [of "\<lambda>x y. \<not> lt y x"])
  have "mset xs = mset ys" using assms(2-4) by (simp add: set_eq_iff_mset_eq_distinct)
  with assms(1) show "mset (srt xs) = mset (srt ys)" by (simp add: slice_sorted_def)
  show "a = b" if "a \<in> set (srt xs)" "b \<in> set (srt xs)" "\<not> lt b a" "\<not> lt a b" for a b
    using that assms(5) slice_sorted_set [OF assms(1)] by metis
qed (use assms(1) in \<open>simp_all add: slice_sorted_def\<close>)

end
