(* ===== verification/ManagerHelpers.thy ===== *)
theory ManagerHelpers
  imports KubeClient
begin

text \<open>
  The code the resource managers share: labels and map merging
  (\<open>cappmeta/cappmeta.go\<close>), the wrapped write calls (\<open>resourceclient/resourceclient.go\<close>)
  and the helpers of \<open>resourcemanagers/helpers.go\<close>, with the lemmas on host and record
  names, and on creating, updating and deleting a managed object through a \<open>kind_api\<close>.
\<close>

section \<open>cappmeta.go\<close>

definition CappAPIGroup :: string where "CappAPIGroup = ''rcs.dana.io''"
definition CappNamespaceKey :: string where
  "CappNamespaceKey = CappAPIGroup @ ''/parent-capp-ns''"
definition CappResourceKey :: string where "CappResourceKey = CappAPIGroup @ ''/parent-capp''"
definition ManagedByLabelKey :: string where "ManagedByLabelKey = CappAPIGroup @ ''/managed-by''"
definition CappConfigName :: string where "CappConfigName = ''capp-config''"
definition CappNS :: string where "CappNS = ''container-app-operator-system''"
definition CappKey :: string where "CappKey = ''capp''"

lemmas key_defs = CappAPIGroup_def CappNamespaceKey_def CappResourceKey_def ManagedByLabelKey_def
  CappConfigName_def CappNS_def CappKey_def

definition ManagedResourceLabels :: "string \<Rightarrow> strmap" where
  "ManagedResourceLabels cappName =
     fmap_of_list [(CappResourceKey, cappName), (ManagedByLabelKey, CappKey)]"

definition MergeMaps :: "strmap \<Rightarrow> strmap \<Rightarrow> strmap" where
  "MergeMaps m1 m2 = m1 ++\<^sub>f m2"

lemma MergeMaps_lookup [simp]:
  "fmlookup (MergeMaps m1 m2) k =
     (case fmlookup m2 k of Some v \<Rightarrow> Some v | None \<Rightarrow> fmlookup m1 k)"
  by (auto simp: MergeMaps_def fmlookup_dom_iff split: option.split)

lemma ManagedResourceLabels_lookup [simp]:
  "fmlookup (ManagedResourceLabels n) CappResourceKey = Some n"
  by (simp add: ManagedResourceLabels_def fmlookup_of_list)

text \<open>What identifies an object in the logs.\<close>

record group_version_kind =
  gvk_Group :: string
  gvk_Version :: string
  gvk_Kind :: string

definition ObjectIdentityKeyVals :: "group_version_kind \<Rightarrow> object_meta \<Rightarrow> string list" where
  "ObjectIdentityKeyVals gvk m =
     (let kind = gvk_Kind gvk; kind = (if kind = [] then ''Unknown'' else kind)
      in [''kind'', kind, ''group'', gvk_Group gvk, ''version'', gvk_Version gvk,
          ''namespace'', Namespace m, ''name'', Name m, ''resourceVersion'', ResourceVersion m])"

text \<open>Of named kinds, only one state of one object has a given identity.\<close>

lemma ObjectIdentityKeyVals_identifies:
  assumes "ObjectIdentityKeyVals gvk (Meta r) = ObjectIdentityKeyVals gvk' (Meta r')"
    and "gvk_Kind gvk \<notin> {[], ''Unknown''}"
  shows "gvk = gvk' \<and> key_of r = key_of r' \<and> ResourceVersion (Meta r) = ResourceVersion (Meta r')"
  using assms
  by (auto simp: ObjectIdentityKeyVals_def Let_def key_of_def split: if_splits intro!: group_version_kind.equality)

section \<open>resourceclient.go\<close>

text \<open>The kind and API version the managers use to refer to the Knative service.\<close>

definition knativeServiceKind :: string where "knativeServiceKind = ''Service''"
definition servingAPIVersion :: string where "servingAPIVersion = ''serving.knative.dev/v1''"

definition CreateResource :: "('sp, 'st) kind_client \<Rightarrow> ('sp, 'st) resource \<Rightarrow> unit act" where
  "CreateResource kc r =
     wrapErr (''failed to create resource '' @ TypeKind r @ '' '' @ Name (Meta r)) (kcreate kc r)"

definition UpdateResource :: "('sp, 'st) kind_client \<Rightarrow> ('sp, 'st) resource \<Rightarrow> unit act" where
  "UpdateResource kc r =
     wrapErr (''failed to update '' @ TypeKind r @ '' '' @ Name (Meta r)) (kupdate kc r)"

definition DeleteResource :: "('sp, 'st) kind_client \<Rightarrow> ('sp, 'st) resource \<Rightarrow> unit act" where
  "DeleteResource kc r =
     wrapErr (''failed to delete '' @ TypeKind r @ '' '' @ Name (Meta r)) (kdelete kc r)"

section \<open>helpers.go\<close>

definition ensureOwnerReference ::
  "lib \<Rightarrow> capp \<Rightarrow> ('sp, 'st) resource \<Rightarrow> string \<Rightarrow> ('sp, 'st) resource result" where
  "ensureOwnerReference l capp obj kind =
     (case l_SetOwnerReference l capp (Meta obj) of
        Ok refs \<Rightarrow> Ok (obj\<lparr>Meta := (Meta obj)\<lparr>OwnerReferences := refs\<rparr>\<rparr>)
      | Err e \<Rightarrow> Err (wrap (''set '' @ kind @ '' owner reference'') e)
      | Panic p \<Rightarrow> Panic p)"

definition createManagedResource ::
  "lib \<Rightarrow> (('sp, 'st) resource \<Rightarrow> unit act) \<Rightarrow> capp \<Rightarrow> ('sp, 'st) resource \<Rightarrow>
   string \<Rightarrow> string \<Rightarrow> string \<Rightarrow> unit act" where
  "createManagedResource l create capp obj kind eventCreated eventFailed =
     andThen (lift (ensureOwnerReference l capp obj kind)) (\<lambda>obj.
       handle (create obj)
         (\<lambda>err. andThen (Eventf ''Warning'' eventFailed
                   (''Failed to create '' @ kind @ '' '' @ Name (Meta obj))) (\<lambda>_. throw err))
         (\<lambda>_. Eventf ''Normal'' eventCreated (''Created '' @ kind @ '' '' @ Name (Meta obj))))"

definition managedResourceNeedsUpdate ::
  "'sp \<Rightarrow> 'sp \<Rightarrow> owner_ref list \<Rightarrow> owner_ref list \<Rightarrow> bool" where
  "managedResourceNeedsUpdate origSpec newSpec origOwners newOwners \<longleftrightarrow>
     origSpec \<noteq> newSpec \<or> origOwners \<noteq> newOwners"

definition updateManagedResourceIfNeeded ::
  "(('sp, 'st) resource \<Rightarrow> unit act) \<Rightarrow> ('sp, 'st) resource \<Rightarrow> 'sp \<Rightarrow> 'sp \<Rightarrow> owner_ref list \<Rightarrow>
   unit act" where
  "updateManagedResourceIfNeeded update obj origSpec newSpec origOwners =
     (if \<not> managedResourceNeedsUpdate origSpec newSpec origOwners (OwnerReferences (Meta obj))
      then ok () else update obj)"

text \<open>
  \<open>if capp.DeletionTimestamp != nil { ok, err := HasOwnerReference(..) }\<close>: whether the
  object is left to the garbage collector.
\<close>

definition ownedByDeleted :: "lib \<Rightarrow> capp \<Rightarrow> object_meta \<Rightarrow> bool act" where
  "ownedByDeleted l capp m =
     (if DeletionTimestamp (Meta capp) \<noteq> None
      then lift (l_HasOwnerReference l (OwnerReferences m) capp) else ok False)"

definition deleteOwnedResource ::
  "lib \<Rightarrow> ('sp, 'st) kind_client \<Rightarrow> capp \<Rightarrow> ('sp, 'st) resource \<Rightarrow> unit act" where
  "deleteOwnedResource l kc capp resource =
     andThen (ownedByDeleted l capp (Meta resource)) (\<lambda>owned.
       if owned then ok ()
       else wrapErr (''failed to delete '' @ TypeKind resource @ '' '' @ fmt_q (Name (Meta resource)))
              (ignoreNotFound (kdelete kc resource)))"

definition deleteOwnedResources ::
  "lib \<Rightarrow> ('sp, 'st) kind_client \<Rightarrow> capp \<Rightarrow> ('sp, 'st) resource list \<Rightarrow> unit act" where
  "deleteOwnedResources l kc capp resources =
     forEach (deleteOwnedResource l kc capp) resources"

definition GenerateResourceName :: "string \<Rightarrow> string \<Rightarrow> string" where
  "GenerateResourceName hostname suffix =
     (let bare = TrimSuffix suffix ''.'' in
      if \<not> HasSuffix hostname bare then hostname @ ''.'' @ bare else hostname)"

text \<open>The slice expression \<open>s[:n]\<close>, which panics out of range.\<close>

definition slice_to :: "string \<Rightarrow> int \<Rightarrow> string result" where
  "slice_to s n =
     (if 0 \<le> n \<and> n \<le> int (length s) then Ok (take (nat n) s)
      else Panic ''slice bounds out of range'')"

definition GenerateRecordName :: "string \<Rightarrow> string \<Rightarrow> string result" where
  "GenerateRecordName hostname suffix =
     (let bare = TrimSuffix suffix ''.'' in
      if \<not> HasSuffix hostname bare then Ok hostname
      else slice_to hostname (int (length hostname) - int (length suffix)))"

definition generateTLSSecretName :: "string \<Rightarrow> string" where
  "generateTLSSecretName resourceName = resourceName @ ''-tls''"

definition GetCappConfig :: "client \<Rightarrow> capp_config act" where
  "GetCappConfig cl = kget (c_cappconfigs cl) CappNS CappConfigName"

definition listManagedResources ::
  "('sp, 'st) kind_client \<Rightarrow> capp \<Rightarrow> string \<Rightarrow> strmap \<Rightarrow> ('sp, 'st) resource list act" where
  "listManagedResources kc capp kind extraLabels =
     wrapErr (''unable to list '' @ kind @ ''s of Capp '' @ fmt_q (Name (Meta capp)))
       (klist kc (Namespace (Meta capp))
          (fmap_of_list [(CappResourceKey, Name (Meta capp))] ++\<^sub>f extraLabels) None)"

text \<open>
  The shape every \<open>createOrUpdate\<close> has: fetch the object under the desired key; create it
  when it is missing (and then do \<open>up_after\<close>); otherwise put the desired spec (\<open>up_merge\<close> of
  the stored one) in, add the owner reference and update when that changed anything, with
  the update's error returned through \<open>up_wrap\<close>.
\<close>

record ('sp, 'st) upsert_plan =
  up_merge :: "'sp \<Rightarrow> 'sp"
  up_kind :: string
  up_created :: string
  up_failed :: string
  up_getMsg :: string
  up_after :: "unit act"
  up_wrap :: "('sp, 'st) resource \<Rightarrow> unit act \<Rightarrow> unit act"

definition upsert ::
  "lib \<Rightarrow> ('sp, 'st) kind_client \<Rightarrow> capp \<Rightarrow> ('sp, 'st) resource \<Rightarrow> ('sp, 'st) upsert_plan \<Rightarrow>
   unit act" where
  "upsert l kc capp desired p =
     handle (kget kc (Namespace (Meta desired)) (Name (Meta desired)))
       (\<lambda>err. if IsNotFound err
              then andThen (createManagedResource l (CreateResource kc) capp desired (up_kind p)
                              (up_created p) (up_failed p)) (\<lambda>_. up_after p)
              else throw (wrap (up_getMsg p) err))
       (\<lambda>orig.
          andThen (lift (ensureOwnerReference l capp (orig\<lparr>Spec := up_merge p (Spec orig)\<rparr>)
                           (up_kind p)))
            (\<lambda>existing. up_wrap p existing
                (updateManagedResourceIfNeeded (UpdateResource kc) existing
                   (Spec orig) (Spec existing) (OwnerReferences (Meta orig)))))"

definition plan_ok :: "('sp, 'st) upsert_plan \<Rightarrow> ('sp, 'st) resource \<Rightarrow> bool" where
  "plan_ok p d \<longleftrightarrow>
     (\<forall>s. up_merge p (up_merge p s) = up_merge p s) \<and> up_merge p (Spec d) = Spec d
     \<and> (\<forall>w. \<exists>ev. up_after p w = (Ok (), w\<lparr>events := ev\<rparr>))
     \<and> (\<forall>r m w v. m w = (Ok (), v) \<longrightarrow> up_wrap p r m w = (Ok (), v))"

lemma plan_ok_simpleI:
  assumes "up_merge p = (\<lambda>_. Spec d)" "up_after p = ok ()"
    and "\<And>r m w v. m w = (Ok (), v) \<Longrightarrow> up_wrap p r m w = (Ok (), v)"
  shows "plan_ok p d"
  unfolding plan_ok_def
proof (intro conjI allI impI)
  show "\<exists>ev. up_after p w = (Ok (), w\<lparr>events := ev\<rparr>)" for w
    using assms(2) by (intro exI [of _ "events w"]) simp
qed (simp_all add: assms)

text \<open>The objects that \<open>listManagedResources\<close> finds.\<close>

definition managed_by :: "capp \<Rightarrow> strmap \<Rightarrow> ('sp, 'st) table \<Rightarrow> ('sp, 'st) resource \<Rightarrow> bool" where
  "managed_by capp extra t r \<longleftrightarrow>
     tlookup t (key_of r) = Some r \<and> Namespace (Meta r) = Namespace (Meta capp)
     \<and> selected (fmap_of_list [(CappResourceKey, Name (Meta capp))] ++\<^sub>f extra) (Meta r)"

definition cleanUpListed ::
  "lib \<Rightarrow> ('sp, 'st) kind_client \<Rightarrow> capp \<Rightarrow> string \<Rightarrow> strmap \<Rightarrow> unit act" where
  "cleanUpListed l kc capp kind extra =
     andThen (listManagedResources kc capp kind extra) (deleteOwnedResources l kc capp)"

text \<open>
  A manager of one object: put it in place when it is required, else delete what is there.
\<close>

definition manageSingle ::
  "bool \<Rightarrow> lib \<Rightarrow> ('sp, 'st) kind_client \<Rightarrow> capp \<Rightarrow> ('sp, 'st) resource \<Rightarrow>
   ('sp, 'st) upsert_plan \<Rightarrow> strmap \<Rightarrow> unit act" where
  "manageSingle required l kc capp d p extra =
     (if required then upsert l kc capp d p else cleanUpListed l kc capp (up_kind p) extra)"

definition owned_by :: "lib \<Rightarrow> capp \<Rightarrow> object_meta \<Rightarrow> bool" where
  "owned_by l capp m \<longleftrightarrow>
     l_SetOwnerReference l capp m = Ok (OwnerReferences m)
     \<and> l_HasOwnerReference l (OwnerReferences m) capp = Ok True"

definition in_place ::
  "lib \<Rightarrow> capp \<Rightarrow> ('sp, 'st) resource \<Rightarrow> ('sp \<Rightarrow> 'sp) \<Rightarrow> ('sp, 'st) table \<Rightarrow> bool" where
  "in_place l capp desired merge t \<longleftrightarrow>
     (case tlookup t (key_of desired) of
        None \<Rightarrow> False
      | Some r \<Rightarrow> merge (Spec r) = Spec r \<and> \<not> terminating r \<and> owned_by l capp (Meta r))"

text \<open>
  The shape of a \<open>CleanUp\<close> that deletes one object by name.
\<close>

definition cleanUpNamed :: "lib \<Rightarrow> ('sp, 'st) kind_client \<Rightarrow> capp \<Rightarrow> unit act" where
  "cleanUpNamed l kc capp =
     handle (kget kc (Namespace (Meta capp)) (Name (Meta capp)))
       (\<lambda>err. if IsNotFound err then ok () else throw err)
       (\<lambda>r. andThen (ownedByDeleted l capp (Meta r))
              (\<lambda>owned. if owned then ok () else ignoreNotFound (DeleteResource kc r)))"

definition manageNamed ::
  "bool \<Rightarrow> lib \<Rightarrow> ('sp, 'st) kind_client \<Rightarrow> capp \<Rightarrow> ('sp, 'st) resource \<Rightarrow>
   ('sp, 'st) upsert_plan \<Rightarrow> unit act" where
  "manageNamed required l kc capp d p =
     (if required then upsert l kc capp d p else cleanUpNamed l kc capp)"

definition named_settled ::
  "bool \<Rightarrow> lib \<Rightarrow> capp \<Rightarrow> ('sp, 'st) resource \<Rightarrow> ('sp \<Rightarrow> 'sp) \<Rightarrow> ('sp, 'st) table \<Rightarrow> bool" where
  "named_settled required l capp d merge t \<longleftrightarrow>
     (if required then in_place l capp d merge t else tlookup t (key_of capp) = None)"

definition named_calm ::
  "bool \<Rightarrow> capp \<Rightarrow> ('sp, 'st) resource \<Rightarrow> ('sp, 'st) table \<Rightarrow> bool" where
  "named_calm required capp d t \<longleftrightarrow>
     (if required then (\<forall>r. tlookup t (key_of d) = Some r \<longrightarrow> \<not> terminating r)
      else (\<forall>r. tlookup t (key_of capp) = Some r \<longrightarrow> Finalizers (Meta r) = []))"

text \<open>
  The shape of the orphan removal of the event source managers: delete the managed objects
  whose name is not among the desired ones.
\<close>

definition deleteOrphan ::
  "('sp, 'st) kind_client \<Rightarrow> string \<Rightarrow> string list \<Rightarrow> ('sp, 'st) resource \<Rightarrow> unit act" where
  "deleteOrphan kc kind desired r =
     (if Name (Meta r) \<in> set desired then ok ()
      else wrapErr (''failed to delete orphaned '' @ kind @ '' '' @ fmt_q (Name (Meta r)))
             (ignoreNotFound (DeleteResource kc r)))"

definition cleanUpOrphansOf ::
  "('sp, 'st) kind_client \<Rightarrow> capp \<Rightarrow> string \<Rightarrow> string list \<Rightarrow> unit act" where
  "cleanUpOrphansOf kc capp kind desired =
     andThen (listManagedResources kc capp kind fmempty)
       (forEach (deleteOrphan kc kind desired))"

definition single_settled ::
  "bool \<Rightarrow> lib \<Rightarrow> capp \<Rightarrow> ('sp, 'st) resource \<Rightarrow> ('sp \<Rightarrow> 'sp) \<Rightarrow> strmap \<Rightarrow> ('sp, 'st) table \<Rightarrow>
   bool" where
  "single_settled required l capp d merge extra t \<longleftrightarrow>
     (if required then in_place l capp d merge t else (\<forall>r. \<not> managed_by capp extra t r))"

definition single_calm ::
  "bool \<Rightarrow> capp \<Rightarrow> ('sp, 'st) resource \<Rightarrow> strmap \<Rightarrow> ('sp, 'st) table \<Rightarrow> bool" where
  "single_calm required capp d extra t \<longleftrightarrow>
     (if required then (\<forall>r. tlookup t (key_of d) = Some r \<longrightarrow> \<not> terminating r)
      else (\<forall>r. managed_by capp extra t r \<longrightarrow> Finalizers (Meta r) = []))"

text \<open>What a successful delete of the stored object \<open>r\<close> leaves under its key.\<close>

definition removed :: "('sp, 'st) table \<Rightarrow> ('sp, 'st) resource \<Rightarrow> bool" where
  "removed t r \<longleftrightarrow>
     (case tlookup t (key_of r) of
        None \<Rightarrow> True
      | Some r' \<Rightarrow> terminating r' \<and> persisted r r' \<and> Finalizers (Meta r) \<noteq> [])"

definition kept_for_gc :: "lib \<Rightarrow> capp \<Rightarrow> object_meta \<Rightarrow> bool" where
  "kept_for_gc l capp m \<longleftrightarrow>
     DeletionTimestamp (Meta capp) \<noteq> None
     \<and> l_HasOwnerReference l (OwnerReferences m) capp = Ok True"

section \<open>Host names and record names\<close>

lemma GenerateResourceName_suffix:
  "HasSuffix (GenerateResourceName h z) (TrimSuffix z ''.'')"
  by (auto simp: GenerateResourceName_def Let_def HasSuffix_iff)

lemma slice_to_append: "slice_to (s @ t) (int (length s)) = Ok s"
  by (simp add: slice_to_def)

lemma GenerateRecordName_cases:
  "GenerateRecordName h (bare @ ''.'') =
     (if h = bare then Panic ''slice bounds out of range''
      else if HasSuffix h bare then Ok (take (length h - length bare - 1) h)
      else Ok h)"
proof (cases "HasSuffix h bare")
  case False
  then show ?thesis by (auto simp: GenerateRecordName_def)
next
  case True
  then obtain p where h: "h = p @ bare" by (auto simp: HasSuffix_iff)
  show ?thesis
  proof (cases p rule: rev_cases)
    case Nil
    with h show ?thesis by (simp add: GenerateRecordName_def slice_to_def)
  next
    case (snoc q c)
    with h show ?thesis
      by (simp add: GenerateRecordName_def Let_def slice_to_def HasSuffix_iff)
  qed
qed

section \<open>Creating, updating and deleting through a working API\<close>

definition owners_readable :: "lib \<Rightarrow> capp \<Rightarrow> bool" where
  "owners_readable l capp \<longleftrightarrow>
     DeletionTimestamp (Meta capp) = None \<or> (\<forall>rs. \<exists>b. l_HasOwnerReference l rs capp = Ok b)"

lemma ownedByDeleted_run:
  assumes "owners_readable l capp"
  shows "ownedByDeleted l capp m w = (Ok (kept_for_gc l capp m), w)"
proof (cases "DeletionTimestamp (Meta capp)")
  case None
  then show ?thesis by (simp add: ownedByDeleted_def kept_for_gc_def)
next
  case (Some t)
  with assms obtain b where "l_HasOwnerReference l (OwnerReferences m) capp = Ok b"
    by (auto simp: owners_readable_def)
  with Some show ?thesis by (simp add: ownedByDeleted_def kept_for_gc_def)
qed

lemma owner_refs_libD:
  assumes "owner_refs_lib l" and "Namespace m = Namespace (Meta c)"
  obtains rs where "l_SetOwnerReference l c m = Ok rs" "l_HasOwnerReference l rs c = Ok True"
    "\<And>m'. Namespace m' = Namespace m \<Longrightarrow> OwnerReferences m' = rs \<Longrightarrow>
       l_SetOwnerReference l c m' = Ok rs"
  using assms unfolding owner_refs_lib_def by blast

context kind_api begin

lemma get_Ok_stored:
  assumes "kget kc ns n w = (Ok r, w')"
  shows "tlookup (tab w) (NamespacedName ns n) = Some r"
proof (cases rule: get_cases [of w ns n])
  case (found r')
  with assms show ?thesis by simp
next
  case (missing e)
  with assms show ?thesis by simp
qed

lemma upsert_missing:
  assumes lib: "owner_refs_lib l" and ns: "Namespace (Meta d) = Namespace (Meta capp)"
    and plan: "plan_ok p d" and none: "tlookup (tab w) (key_of d) = None"
  shows "\<exists>t ev r'. upsert l kc capp d p w
           = (Ok (), upd (\<lambda>_. t) (w\<lparr>events := ev\<rparr>))
         \<and> tlookup t = (tlookup (tab w))(key_of d \<mapsto> r') \<and> Spec r' = Spec d
         \<and> \<not> terminating r' \<and> owned_by l capp (Meta r')"
proof -
  obtain rs where rs: "l_SetOwnerReference l capp (Meta d) = Ok rs"
      "l_HasOwnerReference l rs capp = Ok True"
      "\<And>m'. Namespace m' = Namespace (Meta d) \<Longrightarrow> OwnerReferences m' = rs \<Longrightarrow>
         l_SetOwnerReference l capp m' = Ok rs"
    using owner_refs_libD [OF lib ns] by metis
  let ?d = "d\<lparr>Meta := (Meta d)\<lparr>OwnerReferences := rs\<rparr>\<rparr>"
  have k: "key_of ?d = key_of d" by (simp add: key_of_def)
  obtain e where e: "IsNotFound e" "kget kc (Namespace (Meta d)) (Name (Meta d)) w = (Err e, w)"
    using get_missing none unfolding key_of_def by blast
  obtain t r' where c: "kcreate kc ?d w = (Ok (), upd (\<lambda>_. t) w)" "persisted ?d r'"
      "\<not> terminating r'" "tlookup t = (tlookup (tab w))(key_of d \<mapsto> r')"
    using create_new [of w ?d] none unfolding k by blast
  from c(1) have "CreateResource kc ?d w = (Ok (), upd (\<lambda>_. t) w)"
    by (simp add: CreateResource_def)
  then have "\<exists>ev. createManagedResource l (CreateResource kc) capp d (up_kind p)
      (up_created p) (up_failed p) w = (Ok (), upd (\<lambda>_. t) (w\<lparr>events := ev\<rparr>))"
    using rs(1) upd_events [of _ "\<lambda>_. t" w]
    by (auto simp: run createManagedResource_def ensureOwnerReference_def Eventf_def handle_def)
  then obtain ev where ev: "createManagedResource l (CreateResource kc) capp d (up_kind p)
      (up_created p) (up_failed p) w = (Ok (), upd (\<lambda>_. t) (w\<lparr>events := ev\<rparr>))" by blast
  obtain ev' where "up_after p (upd (\<lambda>_. t) (w\<lparr>events := ev\<rparr>))
      = (Ok (), (upd (\<lambda>_. t) (w\<lparr>events := ev\<rparr>))\<lparr>events := ev'\<rparr>)"
    using plan unfolding plan_ok_def by blast
  then have "\<exists>ev. upsert l kc capp d p w = (Ok (), upd (\<lambda>_. t) (w\<lparr>events := ev\<rparr>))"
    using e ev upd_events [of "\<lambda>_. ev'" "\<lambda>_. t" "w\<lparr>events := ev\<rparr>"]
    by (auto simp: upsert_def handle_Err andThen_Ok)
  moreover have "owned_by l capp (Meta r')"
    using c(2) rs(2) rs(3) [of "Meta r'"] by (simp add: persisted_def owned_by_def)
  ultimately show ?thesis using c(2,3,4) by (auto simp: persisted_def)
qed

lemma upsert_present:
  assumes lib: "owner_refs_lib l" and ns: "Namespace (Meta d) = Namespace (Meta capp)"
    and plan: "plan_ok p d" and some: "tlookup (tab w) (key_of d) = Some r" and live: "\<not> terminating r"
  shows "\<exists>t r'. upsert l kc capp d p w = (Ok (), upd (\<lambda>_. t) w)
         \<and> tlookup t = (tlookup (tab w))(key_of d \<mapsto> r') \<and> Spec r' = up_merge p (Spec r)
         \<and> \<not> terminating r' \<and> owned_by l capp (Meta r')"
proof -
  from some have kr: "key_of r = key_of d" by (rule tlookup_Some_key)
  with ns have nsr: "Namespace (Meta r) = Namespace (Meta capp)" by (simp add: key_of_def)
  obtain rs where rs: "l_SetOwnerReference l capp (Meta r) = Ok rs"
      "l_HasOwnerReference l rs capp = Ok True"
      "\<And>m'. Namespace m' = Namespace (Meta r) \<Longrightarrow> OwnerReferences m' = rs \<Longrightarrow>
         l_SetOwnerReference l capp m' = Ok rs"
    using owner_refs_libD [OF lib nsr] by metis
  let ?r = "r\<lparr>Spec := up_merge p (Spec r), Meta := (Meta r)\<lparr>OwnerReferences := rs\<rparr>\<rparr>"
  have k: "key_of ?r = key_of d" using kr by (simp add: key_of_def)
  have get: "kget kc (Namespace (Meta d)) (Name (Meta d)) w = (Ok r, w)"
    using some by (intro get_found) (simp add: key_of_def)
  show ?thesis
  proof (cases "managedResourceNeedsUpdate (Spec r) (up_merge p (Spec r)) (OwnerReferences (Meta r)) rs")
    case True
    obtain t r' where u: "kupdate kc ?r w = (Ok (), upd (\<lambda>_. t) w)" "persisted ?r r'"
        "\<not> terminating r'" "tlookup t = (tlookup (tab w))(key_of d \<mapsto> r')"
      using update_current [of w ?r r] some live unfolding k by auto
    have "upsert l kc capp d p w = (Ok (), upd (\<lambda>_. t) w)"
      using get rs(1) True u(1) plan
      by (simp add: upsert_def run ensureOwnerReference_def updateManagedResourceIfNeeded_def
          UpdateResource_def plan_ok_def)
    moreover have "owned_by l capp (Meta r')"
      using u(2) rs(2) rs(3) [of "Meta r'"] by (simp add: persisted_def owned_by_def)
    ultimately show ?thesis using u by (auto simp: persisted_def)
  next
    case False
    then have same: "up_merge p (Spec r) = Spec r" "rs = OwnerReferences (Meta r)"
      by (auto simp: managedResourceNeedsUpdate_def)
    have "upsert l kc capp d p w = (Ok (), upd (\<lambda>_. tab w) w)"
      using get rs(1) False upd_same plan
      by (simp add: upsert_def run ensureOwnerReference_def updateManagedResourceIfNeeded_def
          plan_ok_def)
    then show ?thesis using some live same rs(1,2)
      by (intro exI [of _ "tab w"] exI [of _ r]) (auto simp: fun_upd_idem owned_by_def)
  qed
qed

text \<open>
  One call puts the desired object in place and changes nothing but its entry in the table
  of its kind (and the events); a further call changes nothing at all.
\<close>

lemma upsert_settles:
  assumes "owner_refs_lib l" and "Namespace (Meta d) = Namespace (Meta capp)"
    and plan: "plan_ok p d"
    and live: "\<And>r. tlookup (tab w) (key_of d) = Some r \<Longrightarrow> \<not> terminating r"
  shows "\<exists>t ev. upsert l kc capp d p w = (Ok (), upd (\<lambda>_. t) (w\<lparr>events := ev\<rparr>))
         \<and> in_place l capp d (up_merge p) t \<and> (\<forall>k. k \<noteq> key_of d \<longrightarrow> tlookup t k = tlookup (tab w) k)"
proof (cases "tlookup (tab w) (key_of d)")
  case None
  from upsert_missing [OF assms(1,2) plan None]
  obtain t ev r' where t:
      "upsert l kc capp d p w = (Ok (), upd (\<lambda>_. t) (w\<lparr>events := ev\<rparr>))"
      "tlookup t = (tlookup (tab w))(key_of d \<mapsto> r')" "Spec r' = Spec d"
      "\<not> terminating r'" "owned_by l capp (Meta r')"
    by blast
  with plan show ?thesis
    by (intro exI [of _ t] exI [of _ ev]) (simp add: in_place_def plan_ok_def)
next
  case (Some r)
  with upsert_present [OF assms(1,2) plan Some live [OF Some]]
  obtain t r' where t: "upsert l kc capp d p w = (Ok (), upd (\<lambda>_. t) w)"
      "tlookup t = (tlookup (tab w))(key_of d \<mapsto> r')" "Spec r' = up_merge p (Spec r)"
      "\<not> terminating r'" "owned_by l capp (Meta r')"
    by blast
  with plan show ?thesis
    by (intro exI [of _ t] exI [of _ "events w"]) (simp add: in_place_def plan_ok_def)
qed

lemma upsert_stable:
  assumes plan: "plan_ok p d" and place: "in_place l capp d (up_merge p) (tab w)"
  shows "upsert l kc capp d p w = (Ok (), w)"
proof -
  from place obtain r where r: "tlookup (tab w) (key_of d) = Some r" "up_merge p (Spec r) = Spec r"
      "l_SetOwnerReference l capp (Meta r) = Ok (OwnerReferences (Meta r))"
    by (auto simp: in_place_def owned_by_def split: option.splits)
  have "kget kc (Namespace (Meta d)) (Name (Meta d)) w = (Ok r, w)"
    using r(1) by (intro get_found) (simp add: key_of_def)
  with r(2,3) plan show ?thesis
    by (simp add: upsert_def run ensureOwnerReference_def updateManagedResourceIfNeeded_def
        managedResourceNeedsUpdate_def plan_ok_def)
qed

lemma delete_key:
  assumes "tlookup (tab w) (key_of r) = Some r0"
  shows "\<exists>t. kdelete kc r w = (Ok (), upd (\<lambda>_. t) w) \<and> removed t r0
           \<and> (\<forall>k. k \<noteq> key_of r \<longrightarrow> tlookup t k = tlookup (tab w) k)"
proof -
  obtain t x where t: "kdelete kc r w = (Ok (), upd (\<lambda>_. t) w)"
      "tlookup t = (tlookup (tab w))(key_of r := x)" "Finalizers (Meta r0) = [] \<longrightarrow> x = None"
      "\<forall>r'. x = Some r' \<longrightarrow> terminating r' \<and> persisted r0 r'"
    using delete_present [OF assms] by blast
  have "key_of r0 = key_of r" using assms by (rule tlookup_Some_key)
  then have "removed t r0" unfolding removed_def t(2) using t(3,4) by (cases x) auto
  with t(1,2) show ?thesis by (intro exI [of _ t]) simp
qed

lemmas delete_removed = delete_key [where r = r and r0 = r for r]

lemma deleteOwnedResource_effect:
  assumes r: "tlookup (tab w) (key_of r) = Some r"
    and own: "owners_readable l capp"
  shows "\<exists>t. deleteOwnedResource l kc capp r w = (Ok (), upd (\<lambda>_. t) w)
           \<and> (if kept_for_gc l capp (Meta r) then t = tab w else removed t r)
           \<and> (\<forall>k. k \<noteq> key_of r \<longrightarrow> tlookup t k = tlookup (tab w) k)"
proof (cases "kept_for_gc l capp (Meta r)")
  case True
  then have "deleteOwnedResource l kc capp r w = (Ok (), upd (\<lambda>_. tab w) w)"
    using upd_same ownedByDeleted_run [OF own] by (simp add: deleteOwnedResource_def run)
  with True show ?thesis by auto
next
  case False
  have eq: "deleteOwnedResource l kc capp r w =
      wrapErr (''failed to delete '' @ TypeKind r @ '' '' @ fmt_q (Name (Meta r)))
        (ignoreNotFound (kdelete kc r)) w"
    using ownedByDeleted_run [OF own, of "Meta r" w] False
    by (simp add: deleteOwnedResource_def andThen_Ok)
  from delete_removed [OF r] obtain t where t: "kdelete kc r w = (Ok (), upd (\<lambda>_. t) w)"
      "removed t r" "\<forall>k. k \<noteq> key_of r \<longrightarrow> tlookup t k = tlookup (tab w) k"
    by blast
  from t(1) have "deleteOwnedResource l kc capp r w = (Ok (), upd (\<lambda>_. t) w)"
    unfolding eq by (simp add: ignoreNotFound_Ok)
  with t(2,3) False show ?thesis by auto
qed

text \<open>
  Deleting a list of stored objects: each ends deleted or terminating, unless the Capp is
  itself being deleted and owns it, in which case it is left to the garbage collector;
  every other object of the kind is untouched.
\<close>

lemma deleteOwnedResources_effect:
  assumes "distinct (map key_of rs)"
    and "\<And>r. r \<in> set rs \<Longrightarrow> tlookup (tab w) (key_of r) = Some r"
    and own: "owners_readable l capp"
  shows "\<exists>t. deleteOwnedResources l kc capp rs w = (Ok (), upd (\<lambda>_. t) w)
     \<and> (\<forall>r \<in> set rs. if kept_for_gc l capp (Meta r) then tlookup t (key_of r) = Some r
                      else removed t r)
     \<and> (\<forall>k. k \<notin> key_of ` set rs \<longrightarrow> tlookup t k = tlookup (tab w) k)"
  using assms(1,2)
proof (induction rs arbitrary: w)
  case Nil
  have "deleteOwnedResources l kc capp [] w = (Ok (), upd (\<lambda>_. tab w) w)"
    using upd_same by (simp add: deleteOwnedResources_def)
  then show ?case by auto
next
  case (Cons r rs)
  from Cons.prems(2) [of r] have r: "tlookup (tab w) (key_of r) = Some r" by simp
  from deleteOwnedResource_effect [OF r own]
  obtain t1 where t1: "deleteOwnedResource l kc capp r w = (Ok (), upd (\<lambda>_. t1) w)"
      "if kept_for_gc l capp (Meta r) then t1 = tab w else removed t1 r"
      "\<forall>k. k \<noteq> key_of r \<longrightarrow> tlookup t1 k = tlookup (tab w) k"
    by auto
  let ?w = "upd (\<lambda>_. t1) w"
  have ne: "key_of x \<noteq> key_of r" if "x \<in> set rs" for x
    using Cons.prems(1) imageI [OF that, of key_of] by auto
  have "tlookup (tab ?w) (key_of x) = Some x" if "x \<in> set rs" for x
    using t1(3) ne [OF that] Cons.prems(2) [of x] that by (simp add: tab_upd)
  with Cons.IH [of ?w] Cons.prems(1)
  obtain t where t: "deleteOwnedResources l kc capp rs ?w = (Ok (), upd (\<lambda>_. t) ?w)"
      "\<forall>r \<in> set rs. if kept_for_gc l capp (Meta r) then tlookup t (key_of r) = Some r
                    else removed t r"
      "\<forall>k. k \<notin> key_of ` set rs \<longrightarrow> tlookup t k = tlookup (tab ?w) k"
    by auto
  have run: "deleteOwnedResources l kc capp (r # rs) w = (Ok (), upd (\<lambda>_. t) w)"
    using t1(1) t(1) by (simp add: deleteOwnedResources_def andThen_Ok upd_upd)
  have "key_of r \<notin> key_of ` set rs" using Cons.prems(1) by simp
  then have "tlookup t (key_of r) = tlookup t1 (key_of r)" using t(3) by (simp add: tab_upd)
  then have "if kept_for_gc l capp (Meta r) then tlookup t (key_of r) = Some r
      else removed t r"
    using t1(2) r by (auto simp: removed_def split: if_splits)
  with run t(2,3) t1(3) show ?case by (intro exI [of _ t]) (auto simp: tab_upd)
qed

lemma listManagedResources_effect:
  "\<exists>rs. listManagedResources kc capp kind extra w = (Ok rs, w) \<and> distinct (map key_of rs)
     \<and> set rs = {r. managed_by capp extra (tab w) r}"
proof -
  let ?sel = "fmap_of_list [(CappResourceKey, Name (Meta capp))] ++\<^sub>f extra"
  from list_all_selected [of "Namespace (Meta capp)" ?sel w]
  obtain rs where "klist kc (Namespace (Meta capp)) ?sel None w = (Ok rs, w)"
      "distinct (map key_of rs)"
      "set rs = {r. tlookup (tab w) (key_of r) = Some r
         \<and> Namespace (Meta r) = Namespace (Meta capp) \<and> selected ?sel (Meta r)}"
    by blast
  then show ?thesis
    by (intro exI [of _ rs]) (simp add: listManagedResources_def managed_by_def)
qed

lemma cleanUpNamed_effect:
  assumes own: "owners_readable l capp"
  shows "\<exists>t. cleanUpNamed l kc capp w = (Ok (), upd (\<lambda>_. t) w)
     \<and> (\<forall>r. tlookup (tab w) (key_of capp) = Some r \<longrightarrow>
            (if kept_for_gc l capp (Meta r) then tlookup t (key_of r) = Some r else removed t r))
     \<and> (tlookup (tab w) (key_of capp) = None \<longrightarrow> tlookup t (key_of capp) = None)
     \<and> (\<forall>k. k \<noteq> key_of capp \<longrightarrow> tlookup t k = tlookup (tab w) k)"
proof (cases rule: get_cases [of w "Namespace (Meta capp)" "Name (Meta capp)"])
  case (missing e)
  then have "cleanUpNamed l kc capp w = (Ok (), upd (\<lambda>_. tab w) w)"
    using upd_same by (simp add: cleanUpNamed_def run)
  with missing(1) show ?thesis by (intro exI [of _ "tab w"]) (simp add: key_of_def)
next
  case (found r)
  have k: "key_of r = key_of capp" using found(3) by (simp add: key_of_def)
  have lk: "tlookup (tab w) (key_of r) = Some r" using found(1,3) by simp
  show ?thesis
  proof (cases "kept_for_gc l capp (Meta r)")
    case True
    then have "cleanUpNamed l kc capp w = (Ok (), upd (\<lambda>_. tab w) w)"
      using found(2) upd_same ownedByDeleted_run [OF own] by (simp add: cleanUpNamed_def run)
    with True lk k show ?thesis by (intro exI [of _ "tab w"]) simp
  next
    case False
    from delete_removed [OF lk] obtain t where t: "kdelete kc r w = (Ok (), upd (\<lambda>_. t) w)"
        "removed t r" "\<forall>k. k \<noteq> key_of r \<longrightarrow> tlookup t k = tlookup (tab w) k"
      by blast
    have "cleanUpNamed l kc capp w = ignoreNotFound (DeleteResource kc r) w"
      using found(2) ownedByDeleted_run [OF own, of "Meta r" w] False
      by (simp add: cleanUpNamed_def handle_Ok andThen_Ok)
    also have "\<dots> = (Ok (), upd (\<lambda>_. t) w)"
      using t(1) by (simp add: ignoreNotFound_Ok DeleteResource_def)
    finally show ?thesis using t(2,3) lk k False by (intro exI [of _ t]) simp
  qed
qed

lemma cleanUpListed_effect:
  assumes own: "owners_readable l capp"
  shows "\<exists>t. cleanUpListed l kc capp kind extra w = (Ok (), upd (\<lambda>_. t) w)
     \<and> (\<forall>r. managed_by capp extra (tab w) r \<longrightarrow>
            (if kept_for_gc l capp (Meta r) then tlookup t (key_of r) = Some r else removed t r))
     \<and> (\<forall>k. (\<forall>r. managed_by capp extra (tab w) r \<longrightarrow> key_of r \<noteq> k) \<longrightarrow>
            tlookup t k = tlookup (tab w) k)"
proof -
  obtain rs where rs: "listManagedResources kc capp kind extra w = (Ok rs, w)"
      "distinct (map key_of rs)" "set rs = {r. managed_by capp extra (tab w) r}"
    using listManagedResources_effect by blast
  have "tlookup (tab w) (key_of r) = Some r" if "r \<in> set rs" for r
    using that rs(3) by (simp add: managed_by_def)
  from deleteOwnedResources_effect [OF rs(2) this own]
  obtain t where t: "deleteOwnedResources l kc capp rs w = (Ok (), upd (\<lambda>_. t) w)"
      "\<forall>r \<in> set rs. if kept_for_gc l capp (Meta r) then tlookup t (key_of r) = Some r
                    else removed t r"
      "\<forall>k. k \<notin> key_of ` set rs \<longrightarrow> tlookup t k = tlookup (tab w) k"
    by blast
  have "cleanUpListed l kc capp kind extra w = (Ok (), upd (\<lambda>_. t) w)"
    using rs(1) t(1) by (simp add: cleanUpListed_def andThen_Ok)
  moreover have "k \<notin> key_of ` set rs" if "\<forall>r. managed_by capp extra (tab w) r \<longrightarrow> key_of r \<noteq> k"
    for k using that rs(3) by auto
  ultimately show ?thesis using t(2,3) rs(3) by (intro exI [of _ t]) simp
qed

text \<open>On a live Capp whose objects have no finalizers nothing it manages is left.\<close>

lemma cleanUpListed_settles:
  assumes live: "DeletionTimestamp (Meta capp) = None"
    and calm: "\<And>r. managed_by capp extra (tab w) r \<Longrightarrow> Finalizers (Meta r) = []"
  shows "\<exists>t. cleanUpListed l kc capp kind extra w = (Ok (), upd (\<lambda>_. t) w)
     \<and> (\<forall>r. \<not> managed_by capp extra t r)
     \<and> (\<forall>k. (\<forall>r. managed_by capp extra (tab w) r \<longrightarrow> key_of r \<noteq> k) \<longrightarrow>
            tlookup t k = tlookup (tab w) k)"
proof -
  from live have "owners_readable l capp" by (simp add: owners_readable_def)
  from cleanUpListed_effect [OF this, of kind extra w]
  obtain t where t: "cleanUpListed l kc capp kind extra w = (Ok (), upd (\<lambda>_. t) w)"
      "\<And>r. managed_by capp extra (tab w) r \<Longrightarrow>
         (if kept_for_gc l capp (Meta r) then tlookup t (key_of r) = Some r else removed t r)"
      "\<And>k. (\<And>r. managed_by capp extra (tab w) r \<Longrightarrow> key_of r \<noteq> k) \<Longrightarrow>
         tlookup t k = tlookup (tab w) k"
    by blast
  have none: "tlookup t (key_of r) = None" if "managed_by capp extra (tab w) r" for r
    using t(2) [OF that] calm [OF that] live
    by (simp add: kept_for_gc_def removed_def split: option.splits)
  have "\<not> managed_by capp extra t r" for r
  proof
    assume m: "managed_by capp extra t r"
    then have some: "tlookup t (key_of r) = Some r" by (simp add: managed_by_def)
    then have "tlookup t (key_of r) = tlookup (tab w) (key_of r)"
      using t(3) [of "key_of r"] none by (metis option.distinct(1))
    with some m have "managed_by capp extra (tab w) r" by (simp add: managed_by_def)
    with none [OF this] some show False by simp
  qed
  with t(1,3) show ?thesis by (intro exI [of _ t]) blast
qed

lemma cleanUpListed_stable:
  assumes "\<And>r. \<not> managed_by capp extra (tab w) r"
  shows "cleanUpListed l kc capp kind extra w = (Ok (), w)"
proof -
  obtain rs where rs: "listManagedResources kc capp kind extra w = (Ok rs, w)"
      "set rs = {r. managed_by capp extra (tab w) r}"
    using listManagedResources_effect by blast
  with assms have "rs = []" by simp
  with rs(1) show ?thesis by (simp add: cleanUpListed_def andThen_Ok deleteOwnedResources_def)
qed

lemma manageSingle_settles:
  assumes "owner_refs_lib l" "DeletionTimestamp (Meta capp) = None" "plan_ok p d"
    and "Namespace (Meta d) = Namespace (Meta capp)" and calm: "single_calm req capp d extra (tab w)"
  shows "\<exists>t ev. manageSingle req l kc capp d p extra w = (Ok (), upd (\<lambda>_. t) (w\<lparr>events := ev\<rparr>))
           \<and> single_settled req l capp d (up_merge p) extra t"
proof (cases req)
  case True
  with calm have "\<And>r. tlookup (tab w) (key_of d) = Some r \<Longrightarrow> \<not> terminating r"
    by (simp add: single_calm_def)
  from upsert_settles [OF assms(1,4,3) this] True show ?thesis
    by (simp add: manageSingle_def single_settled_def) blast
next
  case False
  with calm have "\<And>r. managed_by capp extra (tab w) r \<Longrightarrow> Finalizers (Meta r) = []"
    by (simp add: single_calm_def)
  from cleanUpListed_settles [OF assms(2) this] obtain t where
    t: "cleanUpListed l kc capp (up_kind p) extra w = (Ok (), upd (\<lambda>_. t) w)"
      "\<forall>r. \<not> managed_by capp extra t r" by blast
  with False show ?thesis
    by (intro exI [of _ t] exI [of _ "events w"]) (simp add: manageSingle_def single_settled_def)
qed

lemma manageSingle_stable:
  assumes "plan_ok p d" and "single_settled req l capp d (up_merge p) extra (tab w)"
  shows "manageSingle req l kc capp d p extra w = (Ok (), w)"
  using assms
  by (auto simp: manageSingle_def single_settled_def upsert_stable cleanUpListed_stable)

text \<open>Putting a list of objects with different keys in place, one after the other.\<close>

lemma upsert_all_settles:
  assumes "owner_refs_lib l" and "distinct (map key_of ds)"
    and "\<And>d. d \<in> set ds \<Longrightarrow> plan_ok (p d) d \<and> Namespace (Meta d) = Namespace (Meta capp)"
    and "\<And>d r. d \<in> set ds \<Longrightarrow> tlookup (tab w) (key_of d) = Some r \<Longrightarrow> \<not> terminating r"
  shows "\<exists>t ev. forEach (\<lambda>d. upsert l kc capp d (p d)) ds w = (Ok (), upd (\<lambda>_. t) (w\<lparr>events := ev\<rparr>))
     \<and> (\<forall>d \<in> set ds. in_place l capp d (up_merge (p d)) t)
     \<and> (\<forall>k. k \<notin> key_of ` set ds \<longrightarrow> tlookup t k = tlookup (tab w) k)"
  using assms(2,3,4)
proof (induction ds arbitrary: w)
  case Nil
  have "forEach (\<lambda>d. upsert l kc capp d (p d)) [] w = (Ok (), upd (\<lambda>_. tab w) (w\<lparr>events := events w\<rparr>))"
    using upd_same by simp
  then show ?case by (intro exI [of _ "tab w"] exI [of _ "events w"]) simp
next
  case (Cons d ds)
  have pd: "plan_ok (p d) d" "Namespace (Meta d) = Namespace (Meta capp)"
    using Cons.prems(2) [of d] by simp_all
  have "\<And>r. tlookup (tab w) (key_of d) = Some r \<Longrightarrow> \<not> terminating r"
    using Cons.prems(3) [of d] by simp
  from upsert_settles [OF assms(1) pd(2,1) this] obtain t1 ev1 where
    t1: "upsert l kc capp d (p d) w = (Ok (), upd (\<lambda>_. t1) (w\<lparr>events := ev1\<rparr>))"
      "in_place l capp d (up_merge (p d)) t1"
      "\<forall>k. k \<noteq> key_of d \<longrightarrow> tlookup t1 k = tlookup (tab w) k" by blast
  let ?w = "upd (\<lambda>_. t1) (w\<lparr>events := ev1\<rparr>)"
  have tw: "tab ?w = t1" by (simp add: tab_upd)
  have nd: "key_of d \<notin> key_of ` set ds" and dd: "distinct (map key_of ds)"
    using Cons.prems(1) by simp_all
  have calm: "\<not> terminating r" if "x \<in> set ds" "tlookup (tab ?w) (key_of x) = Some r" for x r
  proof -
    have "key_of x \<noteq> key_of d" using nd that(1) by (metis imageI)
    with t1(3) that Cons.prems(3) [of x r] show ?thesis by (simp add: tw)
  qed
  have plans: "\<And>x. x \<in> set ds \<Longrightarrow> plan_ok (p x) x \<and> Namespace (Meta x) = Namespace (Meta capp)"
    using Cons.prems(2) by simp
  have "\<exists>t ev. forEach (\<lambda>d. upsert l kc capp d (p d)) ds ?w
        = (Ok (), upd (\<lambda>_. t) (?w\<lparr>events := ev\<rparr>))
      \<and> (\<forall>d \<in> set ds. in_place l capp d (up_merge (p d)) t)
      \<and> (\<forall>k. k \<notin> key_of ` set ds \<longrightarrow> tlookup t k = tlookup (tab ?w) k)"
    by (rule Cons.IH) (fact dd, erule plans, erule (1) calm)
  then obtain t ev where
    t: "forEach (\<lambda>d. upsert l kc capp d (p d)) ds ?w = (Ok (), upd (\<lambda>_. t) (?w\<lparr>events := ev\<rparr>))"
      "\<forall>d \<in> set ds. in_place l capp d (up_merge (p d)) t"
      "\<forall>k. k \<notin> key_of ` set ds \<longrightarrow> tlookup t k = tlookup (tab ?w) k" by blast
  have "?w\<lparr>events := ev\<rparr> = upd (\<lambda>_. t1) (w\<lparr>events := ev\<rparr>)"
    using upd_events [of "\<lambda>_. ev" "\<lambda>_. t1" "w\<lparr>events := ev1\<rparr>"] by simp
  with t1(1) t(1) have run: "forEach (\<lambda>d. upsert l kc capp d (p d)) (d # ds) w
      = (Ok (), upd (\<lambda>_. t) (w\<lparr>events := ev\<rparr>))"
    by (simp add: andThen_Ok upd_upd)
  have "tlookup t (key_of d) = tlookup t1 (key_of d)" using t(3) nd by (simp add: tw)
  with t1(2) have "in_place l capp d (up_merge (p d)) t" by (simp add: in_place_def)
  with run t(2,3) t1(3) show ?case by (intro exI [of _ t] exI [of _ ev]) (simp add: tw)
qed

lemma upsert_all_stable:
  assumes "\<And>d. d \<in> set ds \<Longrightarrow> plan_ok (p d) d \<and> in_place l capp d (up_merge (p d)) (tab w)"
  shows "forEach (\<lambda>d. upsert l kc capp d (p d)) ds w = (Ok (), w)"
  using assms by (induction ds) (simp_all add: andThen_Ok upsert_stable)

lemma deleteOrphan_effect:
  assumes r: "tlookup (tab w) (key_of r) = Some r"
    and calm: "Name (Meta r) \<notin> set desired \<Longrightarrow> Finalizers (Meta r) = []"
  shows "\<exists>t. deleteOrphan kc kind desired r w = (Ok (), upd (\<lambda>_. t) w)
     \<and> tlookup t (key_of r) = (if Name (Meta r) \<in> set desired then Some r else None)
     \<and> (\<forall>k. k \<noteq> key_of r \<longrightarrow> tlookup t k = tlookup (tab w) k)"
proof (cases "Name (Meta r) \<in> set desired")
  case True
  then show ?thesis using upd_same r by (intro exI [of _ "tab w"]) (simp add: deleteOrphan_def)
next
  case False
  obtain t where t: "kdelete kc r w = (Ok (), upd (\<lambda>_. t) w)" "removed t r"
      "\<forall>k. k \<noteq> key_of r \<longrightarrow> tlookup t k = tlookup (tab w) k"
    using delete_removed [OF r] by blast
  have "tlookup t (key_of r) = None"
    using t(2) calm False by (simp add: removed_def split: option.splits)
  with False t(1,3) show ?thesis
    by (intro exI [of _ t]) (simp add: deleteOrphan_def ignoreNotFound_Ok DeleteResource_def)
qed

lemma deleteOrphans_effect:
  assumes "distinct (map key_of rs)"
    and "\<And>r. r \<in> set rs \<Longrightarrow> tlookup (tab w) (key_of r) = Some r"
    and "\<And>r. r \<in> set rs \<Longrightarrow> Name (Meta r) \<notin> set desired \<Longrightarrow> Finalizers (Meta r) = []"
  shows "\<exists>t. forEach (deleteOrphan kc kind desired) rs w = (Ok (), upd (\<lambda>_. t) w)
     \<and> (\<forall>r \<in> set rs. tlookup t (key_of r) = (if Name (Meta r) \<in> set desired then Some r else None))
     \<and> (\<forall>k. k \<notin> key_of ` set rs \<longrightarrow> tlookup t k = tlookup (tab w) k)"
  using assms
proof (induction rs arbitrary: w)
  case Nil
  show ?case using upd_same by (intro exI [of _ "tab w"]) simp
next
  case (Cons r rs)
  have r: "tlookup (tab w) (key_of r) = Some r" using Cons.prems(2) by simp
  have nr: "key_of r \<notin> key_of ` set rs" and dr: "distinct (map key_of rs)"
    using Cons.prems(1) by simp_all
  obtain t1 where t1: "deleteOrphan kc kind desired r w = (Ok (), upd (\<lambda>_. t1) w)"
      "tlookup t1 (key_of r) = (if Name (Meta r) \<in> set desired then Some r else None)"
      "\<forall>k. k \<noteq> key_of r \<longrightarrow> tlookup t1 k = tlookup (tab w) k"
    using deleteOrphan_effect [OF r, of desired kind] Cons.prems(3) [of r] by auto
  let ?w = "upd (\<lambda>_. t1) w"
  have tw: "tab ?w = t1" by (simp add: tab_upd)
  have lk: "tlookup (tab ?w) (key_of x) = Some x" if "x \<in> set rs" for x
  proof -
    have "key_of x \<noteq> key_of r" using nr that by (metis imageI)
    with t1(3) Cons.prems(2) [of x] that show ?thesis by (simp add: tw)
  qed
  obtain t where t: "forEach (deleteOrphan kc kind desired) rs ?w = (Ok (), upd (\<lambda>_. t) ?w)"
      "\<forall>r \<in> set rs. tlookup t (key_of r) = (if Name (Meta r) \<in> set desired then Some r else None)"
      "\<forall>k. k \<notin> key_of ` set rs \<longrightarrow> tlookup t k = tlookup (tab ?w) k"
    using Cons.IH [OF dr lk] Cons.prems(3) by auto
  have "forEach (deleteOrphan kc kind desired) (r # rs) w = (Ok (), upd (\<lambda>_. t) w)"
    using t1(1) t(1) by (simp add: andThen_Ok upd_upd)
  moreover have "tlookup t (key_of r) = tlookup t1 (key_of r)" using t(3) nr by (simp add: tw)
  ultimately show ?case using t(2,3) t1(2,3) by (intro exI [of _ t]) (simp add: tw)
qed

text \<open>After the orphan removal the managed objects are those with a desired name.\<close>

lemma cleanUpOrphansOf_settles:
  assumes calm: "\<And>r. managed_by capp fmempty (tab w) r \<Longrightarrow> Name (Meta r) \<notin> set desired \<Longrightarrow>
      Finalizers (Meta r) = []"
  shows "\<exists>t. cleanUpOrphansOf kc capp kind desired w = (Ok (), upd (\<lambda>_. t) w)
     \<and> (\<forall>r. managed_by capp fmempty t r \<longrightarrow> Name (Meta r) \<in> set desired)
     \<and> (\<forall>k. nn_Name k \<in> set desired \<longrightarrow> tlookup t k = tlookup (tab w) k)"
proof -
  obtain rs where rs: "listManagedResources kc capp kind fmempty w = (Ok rs, w)"
      "distinct (map key_of rs)" "set rs = {r. managed_by capp fmempty (tab w) r}"
    using listManagedResources_effect by blast
  have lk: "tlookup (tab w) (key_of r) = Some r" if "r \<in> set rs" for r
    using that rs(3) by (simp add: managed_by_def)
  obtain t where t: "forEach (deleteOrphan kc kind desired) rs w = (Ok (), upd (\<lambda>_. t) w)"
      "\<forall>r \<in> set rs. tlookup t (key_of r) = (if Name (Meta r) \<in> set desired then Some r else None)"
      "\<forall>k. k \<notin> key_of ` set rs \<longrightarrow> tlookup t k = tlookup (tab w) k"
    using deleteOrphans_effect [OF rs(2) lk, of desired kind] calm rs(3) by auto
  have "Name (Meta r) \<in> set desired" if m: "managed_by capp fmempty t r" for r
  proof (cases "key_of r \<in> key_of ` set rs")
    case True
    then obtain x where "x \<in> set rs" "key_of r = key_of x" by blast
    with t(2) m show ?thesis
      by (auto simp: managed_by_def split: if_splits)
  next
    case False
    with t(3) m have "managed_by capp fmempty (tab w) r" by (simp add: managed_by_def)
    with rs(3) False show ?thesis by blast
  qed
  moreover have "tlookup t k = tlookup (tab w) k" if d: "nn_Name k \<in> set desired" for k
  proof (cases "k \<in> key_of ` set rs")
    case True
    then obtain x where "x \<in> set rs" "k = key_of x" by blast
    with t(2) lk d show ?thesis by (simp add: key_of_def)
  next
    case False
    with t(3) show ?thesis by simp
  qed
  moreover have "cleanUpOrphansOf kc capp kind desired w = (Ok (), upd (\<lambda>_. t) w)"
    unfolding cleanUpOrphansOf_def by (rule andThen_eqI) (rule rs(1), rule t(1))
  ultimately show ?thesis by (intro exI [of _ t]) blast
qed

lemma cleanUpOrphansOf_stable:
  assumes "\<And>r. managed_by capp fmempty (tab w) r \<Longrightarrow> Name (Meta r) \<in> set desired"
  shows "cleanUpOrphansOf kc capp kind desired w = (Ok (), w)"
proof -
  obtain rs where rs: "listManagedResources kc capp kind fmempty w = (Ok rs, w)"
      "set rs = {r. managed_by capp fmempty (tab w) r}"
    using listManagedResources_effect by blast
  with assms have "\<forall>r \<in> set rs. Name (Meta r) \<in> set desired" by simp
  then have stay: "forEach (deleteOrphan kc kind desired) rs w = (Ok (), w)"
    by (induction rs) (simp_all add: andThen_Ok deleteOrphan_def)
  show ?thesis unfolding cleanUpOrphansOf_def by (rule andThen_eqI) (rule rs(1), rule stay)
qed

lemma cleanUpNamed_settles:
  assumes live: "DeletionTimestamp (Meta capp) = None"
    and calm: "\<And>r. tlookup (tab w) (key_of capp) = Some r \<Longrightarrow> Finalizers (Meta r) = []"
  shows "\<exists>t. cleanUpNamed l kc capp w = (Ok (), upd (\<lambda>_. t) w) \<and> tlookup t (key_of capp) = None
     \<and> (\<forall>k. k \<noteq> key_of capp \<longrightarrow> tlookup t k = tlookup (tab w) k)"
proof -
  from live have own: "owners_readable l capp" by (simp add: owners_readable_def)
  obtain t where t: "cleanUpNamed l kc capp w = (Ok (), upd (\<lambda>_. t) w)"
      "\<forall>r. tlookup (tab w) (key_of capp) = Some r \<longrightarrow>
         (if kept_for_gc l capp (Meta r) then tlookup t (key_of r) = Some r else removed t r)"
      "tlookup (tab w) (key_of capp) = None \<longrightarrow> tlookup t (key_of capp) = None"
      "\<forall>k. k \<noteq> key_of capp \<longrightarrow> tlookup t k = tlookup (tab w) k"
    using cleanUpNamed_effect [OF own, of w] by (elim exE conjE) (rule that)
  have "tlookup t (key_of capp) = None"
  proof (cases "tlookup (tab w) (key_of capp)")
    case None
    with t(3) show ?thesis by simp
  next
    case (Some r)
    with live t(2) calm [OF Some] tlookup_Some_key [OF Some] show ?thesis
      by (simp add: kept_for_gc_def removed_def split: option.splits)
  qed
  with t(1,4) show ?thesis by (intro exI [of _ t]) simp
qed

lemma cleanUpNamed_stable:
  assumes "tlookup (tab w) (key_of capp) = None"
  shows "cleanUpNamed l kc capp w = (Ok (), w)"
proof (cases rule: get_cases [of w "Namespace (Meta capp)" "Name (Meta capp)"])
  case (found r)
  with assms show ?thesis by (simp add: key_of_def)
next
  case (missing e)
  then show ?thesis by (simp add: cleanUpNamed_def handle_Err)
qed

lemma manageNamed_settles:
  assumes "owner_refs_lib l" "DeletionTimestamp (Meta capp) = None" "plan_ok p d"
    and "Namespace (Meta d) = Namespace (Meta capp)" and calm: "named_calm req capp d (tab w)"
  shows "\<exists>t ev. manageNamed req l kc capp d p w = (Ok (), upd (\<lambda>_. t) (w\<lparr>events := ev\<rparr>))
           \<and> named_settled req l capp d (up_merge p) t"
proof (cases req)
  case True
  with calm have "\<And>r. tlookup (tab w) (key_of d) = Some r \<Longrightarrow> \<not> terminating r"
    by (simp add: named_calm_def)
  from upsert_settles [OF assms(1,4,3) this] True show ?thesis
    by (simp add: manageNamed_def named_settled_def) blast
next
  case False
  with calm have "\<And>r. tlookup (tab w) (key_of capp) = Some r \<Longrightarrow> Finalizers (Meta r) = []"
    by (simp add: named_calm_def)
  from cleanUpNamed_settles [OF assms(2) this] obtain t where
    t: "cleanUpNamed l kc capp w = (Ok (), upd (\<lambda>_. t) w)" "tlookup t (key_of capp) = None"
    by blast
  with False show ?thesis
    by (intro exI [of _ t] exI [of _ "events w"]) (simp add: manageNamed_def named_settled_def)
qed

lemma manageNamed_stable:
  assumes "plan_ok p d" and "named_settled req l capp d (up_merge p) (tab w)"
  shows "manageNamed req l kc capp d p w = (Ok (), w)"
  using assms
  by (auto simp: manageNamed_def named_settled_def upsert_stable cleanUpNamed_stable)

end

end
