(* ===== verification/ResourceManager.thy ===== *)
theory ResourceManager
  imports ManagerHelpers
begin

text \<open>
  The interface of \<open>resourcemanagers/resourcemanagers.go\<close>: a manager is its three methods;
  the locale \<open>settling_manager\<close> is the contract the reconciler relies on: on a live Capp,
  one \<open>Manage\<close> through a working API brings the manager's objects into the state the Capp
  asks for and touches nothing else, and in that state a further \<open>Manage\<close> writes nothing.
\<close>

text \<open>The names of the managers, each a constant of its file.\<close>

abbreviation KnativeService :: string where "KnativeService \<equiv> ''KnativeService''"
abbreviation NfsPvc :: string where "NfsPvc \<equiv> ''NfsPvc''"
abbreviation SyslogNGOutput :: string where "SyslogNGOutput \<equiv> ''SyslogNGOutput''"
abbreviation SyslogNGFlow :: string where "SyslogNGFlow \<equiv> ''SyslogNGFlow''"
abbreviation Certificate :: string where "Certificate \<equiv> ''Certificate''"
abbreviation DomainMapping :: string where "DomainMapping \<equiv> ''DomainMapping''"
abbreviation DNSRecord :: string where "DNSRecord \<equiv> ''DNSRecord''"
abbreviation PingSource :: string where "PingSource \<equiv> ''PingSource''"
abbreviation KafkaSource :: string where "KafkaSource \<equiv> ''KafkaSource''"

record resource_manager =
  rm_Manage :: "capp \<Rightarrow> unit act"
  rm_CleanUp :: "capp \<Rightarrow> unit act"
  rm_IsRequired :: "capp \<Rightarrow> bool"

record resource_manager_entry =
  rme_Name :: string
  rme_Manager :: resource_manager

fun ManagerMapFrom ::
  "(string \<rightharpoonup> resource_manager) \<Rightarrow> resource_manager_entry list \<Rightarrow>
   (string \<rightharpoonup> resource_manager)" where
  "ManagerMapFrom m [] = m"
| "ManagerMapFrom m (e # es) = ManagerMapFrom (m(rme_Name e \<mapsto> rme_Manager e)) es"

definition ManagerMap :: "resource_manager_entry list \<Rightarrow> (string \<rightharpoonup> resource_manager)" where
  "ManagerMap entries = ManagerMapFrom Map.empty entries"

text \<open>
  \<open>view\<close> is the part of the world the manager owns and \<open>put\<close> replaces it. \<open>calm\<close> says that
  nothing stands in the way of settling at once: no object the manager must write is being
  deleted, and none it must delete has finalizers. \<open>settled\<close> is the state the Capp asks for.
\<close>

locale settling_manager =
  fixes Manage :: "lib \<Rightarrow> client \<Rightarrow> capp_config \<Rightarrow> capp \<Rightarrow> unit act"
    and api :: "client \<Rightarrow> bool"
    and put :: "'v \<Rightarrow> world \<Rightarrow> world"
    and view :: "world \<Rightarrow> 'v"
    and calm :: "capp_config \<Rightarrow> capp \<Rightarrow> world \<Rightarrow> bool"
    and settled :: "lib \<Rightarrow> capp_config \<Rightarrow> capp \<Rightarrow> world \<Rightarrow> bool"
  assumes view_put: "view (put v w) = v"
    and put_events: "put v (events_update h w) = events_update h (put v w)"
    and view_events: "view (events_update h w) = view w"
    and put_put: "put v (put u w) = put v w"
    and put_view: "put (view w) w = w"
    and settles: "\<lbrakk>api cl; owner_refs_lib l; DeletionTimestamp (Meta c) = None; calm g c w\<rbrakk> \<Longrightarrow>
      \<exists>v ev. Manage l cl g c w = (Ok (), put v (w\<lparr>events := ev\<rparr>))
           \<and> settled l g c (put v (w\<lparr>events := ev\<rparr>))"
    and stable: "\<lbrakk>api cl; DeletionTimestamp (Meta c) = None; settled l g c w\<rbrakk> \<Longrightarrow>
      \<exists>ev. Manage l cl g c w = (Ok (), w\<lparr>events := ev\<rparr>)"
    and settled_events: "settled l g c (w\<lparr>events := ev\<rparr>) = settled l g c w"
begin

lemma settled_after:
  assumes "api cl" "owner_refs_lib l" "DeletionTimestamp (Meta c) = None" "calm g c w"
  shows "fst (Manage l cl g c w) = Ok () \<and> settled l g c (snd (Manage l cl g c w))"
  using settles [OF assms] by auto

text \<open>Managing twice leaves every stored object as managing once does.\<close>

lemma manage_twice:
  assumes "api cl" "owner_refs_lib l" "DeletionTimestamp (Meta c) = None" "calm g c w"
  shows "\<exists>v ev ev'. Manage l cl g c w = (Ok (), put v (w\<lparr>events := ev\<rparr>))
           \<and> Manage l cl g c (put v (w\<lparr>events := ev\<rparr>)) = (Ok (), put v (w\<lparr>events := ev'\<rparr>))"
proof -
  from settles [OF assms] obtain v ev where
    m: "Manage l cl g c w = (Ok (), put v (w\<lparr>events := ev\<rparr>))"
      "settled l g c (put v (w\<lparr>events := ev\<rparr>))" by blast
  from stable [OF assms(1,3) m(2)] obtain ev' where
    "Manage l cl g c (put v (w\<lparr>events := ev\<rparr>)) = (Ok (), (put v (w\<lparr>events := ev\<rparr>))\<lparr>events := ev'\<rparr>)"
    by blast
  moreover have "(put v (w\<lparr>events := ev\<rparr>))\<lparr>events := ev'\<rparr> = put v (w\<lparr>events := ev'\<rparr>)"
    using put_events [of v "\<lambda>_. ev'" "w\<lparr>events := ev\<rparr>"] by simp
  ultimately show ?thesis using m(1) by (intro exI [of _ v] exI [of _ ev] exI [of _ ev']) simp
qed

end

text \<open>
  The part of the contract the finalizer relies on: \<open>CleanUp\<close> through a working API succeeds
  and leaves none of the manager's objects that is neither being deleted nor left to the
  garbage collector, whether or not the Capp is being deleted.
\<close>

locale cleaning_manager =
  settling_manager Manage api put view calm settled
  for Manage :: "lib \<Rightarrow> client \<Rightarrow> capp_config \<Rightarrow> capp \<Rightarrow> unit act"
    and api :: "client \<Rightarrow> bool"
    and put :: "'v \<Rightarrow> world \<Rightarrow> world"
    and view :: "world \<Rightarrow> 'v"
    and calm :: "capp_config \<Rightarrow> capp \<Rightarrow> world \<Rightarrow> bool"
    and settled :: "lib \<Rightarrow> capp_config \<Rightarrow> capp \<Rightarrow> world \<Rightarrow> bool" +
  fixes CleanUp :: "lib \<Rightarrow> client \<Rightarrow> capp \<Rightarrow> unit act"
    and cleaned :: "lib \<Rightarrow> capp \<Rightarrow> world \<Rightarrow> bool"
  assumes cleans: "\<lbrakk>api cl; owner_refs_lib l\<rbrakk> \<Longrightarrow>
      \<exists>v. CleanUp l cl c w = (Ok (), put v w) \<and> cleaned l c (put v w)"
begin

lemma cleaned_after:
  assumes "api cl" "owner_refs_lib l"
  shows "fst (CleanUp l cl c w) = Ok () \<and> cleaned l c (snd (CleanUp l cl c w))"
  using cleans [OF assms, of c w] by auto

end

text \<open>The two shapes of \<open>cleaned\<close>, and that the common \<open>CleanUp\<close> shapes reach them.\<close>

definition left_over :: "lib \<Rightarrow> capp \<Rightarrow> ('sp, 'st) resource \<Rightarrow> bool" where
  "left_over l capp r \<longleftrightarrow> \<not> kept_for_gc l capp (Meta r) \<and> \<not> terminating r"

definition listed_cleaned :: "lib \<Rightarrow> capp \<Rightarrow> strmap \<Rightarrow> ('sp, 'st) table \<Rightarrow> bool" where
  "listed_cleaned l capp extra t \<longleftrightarrow> (\<forall>r. managed_by capp extra t r \<longrightarrow> \<not> left_over l capp r)"

definition named_cleaned :: "lib \<Rightarrow> capp \<Rightarrow> ('sp, 'st) table \<Rightarrow> bool" where
  "named_cleaned l capp t \<longleftrightarrow> (\<forall>r. tlookup t (key_of capp) = Some r \<longrightarrow> \<not> left_over l capp r)"

lemma owner_refs_lib_readable: "owner_refs_lib l \<Longrightarrow> owners_readable l capp"
  by (simp add: owner_refs_lib_def owners_readable_def)

lemma removed_not_left_over:
  assumes "removed t r" and "tlookup t (key_of r) = Some r'"
  shows "\<not> left_over l capp r'"
  using assms by (simp add: removed_def left_over_def)

context kind_api begin

lemma cleanUpListed_cleans:
  assumes "owner_refs_lib l"
  shows "\<exists>t. cleanUpListed l kc capp kind extra w = (Ok (), upd (\<lambda>_. t) w)
     \<and> listed_cleaned l capp extra t"
proof -
  obtain t where t: "cleanUpListed l kc capp kind extra w = (Ok (), upd (\<lambda>_. t) w)"
      "\<forall>r. managed_by capp extra (tab w) r \<longrightarrow>
         (if kept_for_gc l capp (Meta r) then tlookup t (key_of r) = Some r else removed t r)"
      "\<forall>k. (\<nexists>r. managed_by capp extra (tab w) r \<and> key_of r = k) \<longrightarrow> tlookup t k = tlookup (tab w) k"
    using cleanUpListed_effect [OF owner_refs_lib_readable [OF assms]] by blast
  have "\<not> left_over l capp r" if m: "managed_by capp extra t r" for r
  proof (cases "\<exists>x. managed_by capp extra (tab w) x \<and> key_of x = key_of r")
    case True
    then obtain x where x: "managed_by capp extra (tab w) x" "key_of x = key_of r" by blast
    from m have r: "tlookup t (key_of x) = Some r" by (simp add: managed_by_def x(2))
    show ?thesis
    proof (cases "kept_for_gc l capp (Meta x)")
      case True
      with t(2) x(1) r show ?thesis by (auto simp: left_over_def)
    next
      case False
      with t(2) x(1) removed_not_left_over r show ?thesis by metis
    qed
  next
    case False
    with t(3) m have "managed_by capp extra (tab w) r" by (simp add: managed_by_def)
    with False show ?thesis by blast
  qed
  with t(1) show ?thesis by (intro exI [of _ t]) (simp add: listed_cleaned_def)
qed

lemma cleanUpNamed_cleans:
  assumes "owner_refs_lib l"
  shows "\<exists>t. cleanUpNamed l kc capp w = (Ok (), upd (\<lambda>_. t) w) \<and> named_cleaned l capp t"
proof -
  obtain t where t: "cleanUpNamed l kc capp w = (Ok (), upd (\<lambda>_. t) w)"
      "\<forall>r. tlookup (tab w) (key_of capp) = Some r \<longrightarrow>
         (if kept_for_gc l capp (Meta r) then tlookup t (key_of r) = Some r else removed t r)"
      "tlookup (tab w) (key_of capp) = None \<longrightarrow> tlookup t (key_of capp) = None"
    using cleanUpNamed_effect [where w = w and capp = capp, OF owner_refs_lib_readable [OF assms]]
    by (elim exE conjE) (rule that)
  have "\<not> left_over l capp r'" if r': "tlookup t (key_of capp) = Some r'" for r'
  proof (cases "tlookup (tab w) (key_of capp)")
    case None
    with t(3) r' show ?thesis by simp
  next
    case (Some r)
    then have "key_of r = key_of capp" by (rule tlookup_Some_key)
    with t(2) Some r' removed_not_left_over [of t r r'] show ?thesis
      by (auto simp: left_over_def split: if_splits)
  qed
  with t(1) show ?thesis by (intro exI [of _ t]) (simp add: named_cleaned_def)
qed

end

end
