(* ===== verification/SyslogNGManagers.thy ===== *)
theory SyslogNGManagers
  imports ResourceManager
begin

text \<open>
  \<open>resourcemanagers/syslogngoutput.go\<close> and \<open>syslogngflow.go\<close>: the output a Capp's logs go to
  and the flow that selects them. Both are required together.
\<close>

text \<open>The reasons of the events.\<close>

abbreviation eventCappSyslogNGOutputCreationFailed :: string where "eventCappSyslogNGOutputCreationFailed \<equiv> ''SyslogNGOutputCreationFailed''"
abbreviation eventCappSyslogNGOutputCreated :: string where "eventCappSyslogNGOutputCreated \<equiv> ''SyslogNGOutputCreated''"
abbreviation eventCappSyslogNGFlowCreationFailed :: string where "eventCappSyslogNGFlowCreationFailed \<equiv> ''SyslogNGFlowCreationFailed''"
abbreviation eventCappSyslogNGFlowCreated :: string where "eventCappSyslogNGFlowCreated \<equiv> ''SyslogNGFlowCreated''"

section \<open>SyslogNGOutput\<close>

definition elasticSSLVersion :: string where "elasticSSLVersion = ''tlsv1_2''"
definition elasticTemplate :: string where
  "elasticTemplate = ''$(format-json --subkeys json# --key-delimiter #)''"
definition elasticDataStreamTemplate :: string where
  "elasticDataStreamTemplate =
     ''--subkeys json# --key-delimiter # --exclude DATE --key ISODATE @timestamp=${ISODATE}''"
definition elasticSecretKey :: string where "elasticSecretKey = ''elastic''"

definition newElasticHTTPOutput :: "log_spec \<Rightarrow> http_output" where
  "newElasticHTTPOutput logSpec =
     \<lparr>ho_URL = log_Host logSpec, ho_User = log_User logSpec,
      ho_PasswordSecretName = log_PasswordSecret logSpec,
      ho_PasswordSecretKey = elasticSecretKey, ho_PeerVerify = False,
      ho_SslVersion = elasticSSLVersion\<rparr>"

definition createElasticsearchOutput :: "log_spec \<Rightarrow> output_spec" where
  "createElasticsearchOutput logSpec =
     \<lparr>out_Elasticsearch = Some \<lparr>eo_Index = log_Index logSpec, eo_Template = elasticTemplate,
                                eo_HTTPOutput = newElasticHTTPOutput logSpec\<rparr>,
      out_ElasticsearchDatastream = None, out_rest = []\<rparr>"

definition createElasticDataStreamOutput :: "log_spec \<Rightarrow> output_spec" where
  "createElasticDataStreamOutput logSpec =
     \<lparr>out_Elasticsearch = None,
      out_ElasticsearchDatastream = Some \<lparr>ed_Record = elasticDataStreamTemplate,
                                          ed_HTTPOutput = newElasticHTTPOutput logSpec\<rparr>,
      out_rest = []\<rparr>"

definition syslogNGOutputCreators :: "string \<rightharpoonup> (log_spec \<Rightarrow> output_spec)" where
  "syslogNGOutputCreators =
     [LogTypeElastic \<mapsto> createElasticsearchOutput,
      LogTypeElasticDataStream \<mapsto> createElasticDataStreamOutput]"

definition isSupportedLogType :: "string \<Rightarrow> bool" where
  "isSupportedLogType logType \<longleftrightarrow> syslogNGOutputCreators logType \<noteq> None"

definition isLogSpecRequired :: "capp \<Rightarrow> bool" where
  "isLogSpecRequired capp \<longleftrightarrow>
     (if cs_LogSpec (Spec capp) = zeroLogSpec then False
      else isSupportedLogType (log_Type (cs_LogSpec (Spec capp))))"

definition zeroOutput :: syslogng_output where
  "zeroOutput =
     \<lparr>TypeKind = [], Meta = newMeta [] [] fmempty,
      Spec = \<lparr>out_Elasticsearch = None, out_ElasticsearchDatastream = None, out_rest = []\<rparr>,
      Status = zeroLoggingObjectStatus\<rparr>"

definition output_prepareResource :: "capp \<Rightarrow> syslogng_output" where
  "output_prepareResource capp =
     (case syslogNGOutputCreators (log_Type (cs_LogSpec (Spec capp))) of
        Some createFunc \<Rightarrow>
          \<lparr>TypeKind = [],
           Meta = newMeta (Name (Meta capp)) (Namespace (Meta capp))
                    (ManagedResourceLabels (Name (Meta capp))),
           Spec = createFunc (cs_LogSpec (Spec capp)),
           Status = zeroLoggingObjectStatus\<rparr>
      | None \<Rightarrow> zeroOutput)"

definition output_CleanUp :: "lib \<Rightarrow> client \<Rightarrow> capp \<Rightarrow> unit act" where
  "output_CleanUp l cl capp =
     handle (kget (c_outputs cl) (Namespace (Meta capp)) (Name (Meta capp)))
       (\<lambda>err. if IsNotFound err then ok () else throw err)
       (\<lambda>syslogNGOutput.
          andThen (ownedByDeleted l capp (Meta syslogNGOutput)) (\<lambda>owned.
            if owned then ok ()
            else ignoreNotFound (DeleteResource (c_outputs cl) syslogNGOutput)))"

definition output_IsRequired :: "capp \<Rightarrow> bool" where
  "output_IsRequired capp = isLogSpecRequired capp"

definition output_createOrUpdate :: "lib \<Rightarrow> client \<Rightarrow> capp \<Rightarrow> unit act" where
  "output_createOrUpdate l cl capp =
     (let fromCapp = output_prepareResource capp in
      if \<not> isSupportedLogType (log_Type (cs_LogSpec (Spec capp)))
      then throw (new_error (''unsupported log type '' @ fmt_q (log_Type (cs_LogSpec (Spec capp)))))
      else
        handle (kget (c_outputs cl) (Namespace (Meta capp)) (Name (Meta fromCapp)))
          (\<lambda>err. if IsNotFound err
                 then createManagedResource l (CreateResource (c_outputs cl)) capp fromCapp
                        SyslogNGOutput eventCappSyslogNGOutputCreated eventCappSyslogNGOutputCreationFailed
                 else throw (wrap (''failed to get SyslogNGOutput ''
                                   @ fmt_q (Name (Meta fromCapp))) err))
          (\<lambda>orig.
             andThen (lift (ensureOwnerReference l capp (orig\<lparr>Spec := Spec fromCapp\<rparr>)
                              SyslogNGOutput))
               (\<lambda>syslogNGOutput.
                  updateManagedResourceIfNeeded (UpdateResource (c_outputs cl)) syslogNGOutput
                    (Spec orig) (Spec syslogNGOutput) (OwnerReferences (Meta orig)))))"

definition output_Manage :: "lib \<Rightarrow> client \<Rightarrow> capp \<Rightarrow> unit act" where
  "output_Manage l cl capp =
     (if output_IsRequired capp then output_createOrUpdate l cl capp else output_CleanUp l cl capp)"

section \<open>SyslogNGFlow\<close>

definition knativeConfiguration :: string where
  "knativeConfiguration = ''serving.knative.dev/configuration''"

definition flow_prepareResource :: "capp \<Rightarrow> syslogng_flow" where
  "flow_prepareResource capp =
     \<lparr>TypeKind = [],
      Meta = newMeta (Name (Meta capp)) (Namespace (Meta capp))
               (ManagedResourceLabels (Name (Meta capp))),
      Spec = \<lparr>fl_Match = Some \<lparr>rm_Pattern = Name (Meta capp), rm_Type = ''string'',
                               rm_Value = ''json#kubernetes#labels#'' @ knativeConfiguration\<rparr>,
              fl_LocalOutputRefs = [Name (Meta capp)], fl_rest = []\<rparr>,
      Status = zeroLoggingObjectStatus\<rparr>"

definition flow_CleanUp :: "lib \<Rightarrow> client \<Rightarrow> capp \<Rightarrow> unit act" where
  "flow_CleanUp l cl capp =
     handle (kget (c_flows cl) (Namespace (Meta capp)) (Name (Meta capp)))
       (\<lambda>err. if IsNotFound err then ok () else throw err)
       (\<lambda>syslogNGFlow.
          andThen (ownedByDeleted l capp (Meta syslogNGFlow)) (\<lambda>owned.
            if owned then ok ()
            else ignoreNotFound (DeleteResource (c_flows cl) syslogNGFlow)))"

definition flow_IsRequired :: "capp \<Rightarrow> bool" where
  "flow_IsRequired capp = isLogSpecRequired capp"

text \<open>The error of a failed fetch names the empty object that was fetched into.\<close>

definition flow_createOrUpdate :: "lib \<Rightarrow> client \<Rightarrow> capp \<Rightarrow> unit act" where
  "flow_createOrUpdate l cl capp =
     (let fromCapp = flow_prepareResource capp in
      handle (kget (c_flows cl) (Namespace (Meta capp)) (Name (Meta fromCapp)))
        (\<lambda>err. if IsNotFound err
               then createManagedResource l (CreateResource (c_flows cl)) capp fromCapp
                      SyslogNGFlow eventCappSyslogNGFlowCreated eventCappSyslogNGFlowCreationFailed
               else throw (wrap (''failed to get SyslogNGFlow '' @ fmt_q []) err))
        (\<lambda>orig.
           andThen (lift (ensureOwnerReference l capp (orig\<lparr>Spec := Spec fromCapp\<rparr>)
                            SyslogNGFlow))
             (\<lambda>syslogNGFlow.
                updateManagedResourceIfNeeded (UpdateResource (c_flows cl)) syslogNGFlow
                  (Spec orig) (Spec syslogNGFlow) (OwnerReferences (Meta orig)))))"

definition flow_Manage :: "lib \<Rightarrow> client \<Rightarrow> capp \<Rightarrow> unit act" where
  "flow_Manage l cl capp =
     (if flow_IsRequired capp then flow_createOrUpdate l cl capp else flow_CleanUp l cl capp)"

section \<open>Settling\<close>

definition output_plan :: "capp \<Rightarrow> (output_spec, logging_object_status) upsert_plan" where
  "output_plan capp =
     \<lparr>up_merge = (\<lambda>_. Spec (output_prepareResource capp)), up_kind = SyslogNGOutput,
      up_created = eventCappSyslogNGOutputCreated, up_failed = eventCappSyslogNGOutputCreationFailed,
      up_getMsg = ''failed to get SyslogNGOutput '' @ fmt_q (Name (Meta (output_prepareResource capp))),
      up_after = ok (), up_wrap = (\<lambda>r m. m)\<rparr>"

definition flow_plan :: "capp \<Rightarrow> (flow_spec, logging_object_status) upsert_plan" where
  "flow_plan capp =
     \<lparr>up_merge = (\<lambda>_. Spec (flow_prepareResource capp)), up_kind = SyslogNGFlow,
      up_created = eventCappSyslogNGFlowCreated, up_failed = eventCappSyslogNGFlowCreationFailed,
      up_getMsg = ''failed to get SyslogNGFlow '' @ fmt_q [],
      up_after = ok (), up_wrap = (\<lambda>r m. m)\<rparr>"

definition output_settled :: "lib \<Rightarrow> capp_config \<Rightarrow> capp \<Rightarrow> world \<Rightarrow> bool" where
  "output_settled l cfg capp w \<longleftrightarrow>
     named_settled (output_IsRequired capp) l capp (output_prepareResource capp)
       (up_merge (output_plan capp)) (outputs w)"

definition flow_settled :: "lib \<Rightarrow> capp_config \<Rightarrow> capp \<Rightarrow> world \<Rightarrow> bool" where
  "flow_settled l cfg capp w \<longleftrightarrow>
     named_settled (flow_IsRequired capp) l capp (flow_prepareResource capp)
       (up_merge (flow_plan capp)) (flows w)"

definition output_calm :: "capp_config \<Rightarrow> capp \<Rightarrow> world \<Rightarrow> bool" where
  "output_calm cfg capp w \<longleftrightarrow>
     named_calm (output_IsRequired capp) capp (output_prepareResource capp) (outputs w)"

definition flow_calm :: "capp_config \<Rightarrow> capp \<Rightarrow> world \<Rightarrow> bool" where
  "flow_calm cfg capp w \<longleftrightarrow>
     named_calm (flow_IsRequired capp) capp (flow_prepareResource capp) (flows w)"

definition output_api :: "client \<Rightarrow> bool" where
  "output_api cl \<longleftrightarrow> kind_api (c_outputs cl) outputs outputs_update"

definition flow_api :: "client \<Rightarrow> bool" where
  "flow_api cl \<longleftrightarrow> kind_api (c_flows cl) flows flows_update"

lemma output_plan_ok: "plan_ok (output_plan capp) (output_prepareResource capp)"
  by (rule plan_ok_simpleI) (simp_all add: output_plan_def)

lemma flow_plan_ok: "plan_ok (flow_plan capp) (flow_prepareResource capp)"
  by (rule plan_ok_simpleI) (simp_all add: flow_plan_def)

lemma isLogSpecRequired_supported:
  "isLogSpecRequired capp \<Longrightarrow> isSupportedLogType (log_Type (cs_LogSpec (Spec capp)))"
  by (simp add: isLogSpecRequired_def split: if_splits)

lemma output_prepare_meta:
  "isLogSpecRequired capp \<Longrightarrow> Meta (output_prepareResource capp) =
     newMeta (Name (Meta capp)) (Namespace (Meta capp)) (ManagedResourceLabels (Name (Meta capp)))"
  by (drule isLogSpecRequired_supported)
    (auto simp: output_prepareResource_def isSupportedLogType_def)

lemma output_Manage_named:
  "output_Manage l cl capp =
     manageNamed (output_IsRequired capp) l (c_outputs cl) capp (output_prepareResource capp)
       (output_plan capp)"
proof (cases "isLogSpecRequired capp")
  case True
  then have "Namespace (Meta (output_prepareResource capp)) = Namespace (Meta capp)"
    by (simp add: output_prepare_meta newMeta_def)
  with True isLogSpecRequired_supported [OF True] show ?thesis
    by (intro ext) (auto simp: output_Manage_def manageNamed_def output_IsRequired_def
        output_createOrUpdate_def upsert_def output_plan_def Let_def andThen_def handle_def
        split: prod.splits result.splits)
next
  case False
  then show ?thesis
    by (simp add: output_Manage_def manageNamed_def output_IsRequired_def output_CleanUp_def
        cleanUpNamed_def)
qed

lemma flow_Manage_named:
  "flow_Manage l cl capp =
     manageNamed (flow_IsRequired capp) l (c_flows cl) capp (flow_prepareResource capp)
       (flow_plan capp)"
proof (cases "isLogSpecRequired capp")
  case True
  have "Namespace (Meta (flow_prepareResource capp)) = Namespace (Meta capp)"
    by (simp add: flow_prepareResource_def newMeta_def)
  with True show ?thesis
    by (intro ext) (auto simp: flow_Manage_def manageNamed_def flow_IsRequired_def
        flow_createOrUpdate_def upsert_def flow_plan_def Let_def andThen_def handle_def
        split: prod.splits result.splits)
next
  case False
  then show ?thesis
    by (simp add: flow_Manage_def manageNamed_def flow_IsRequired_def flow_CleanUp_def
        cleanUpNamed_def)
qed

interpretation output_mgr: settling_manager "\<lambda>l cl g c. output_Manage l cl c" output_api
  "\<lambda>t. outputs_update (\<lambda>_. t)" outputs output_calm output_settled
proof (unfold_locales, goal_cases)
  case (6 cl l c g w)
  have ns: "output_IsRequired c \<Longrightarrow> Namespace (Meta (output_prepareResource c)) = Namespace (Meta c)"
    by (simp add: output_IsRequired_def output_prepare_meta newMeta_def)
  show ?case
  proof (cases "output_IsRequired c")
    case True
    with 6 ns show ?thesis
      using kind_api.manageNamed_settles [of "c_outputs cl" outputs outputs_update
        l c "output_plan c" "output_prepareResource c" "output_IsRequired c" w] output_plan_ok
      by (simp add: output_Manage_named output_api_def output_calm_def output_settled_def)
  next
    case False
    with 6 obtain t where "cleanUpNamed l (c_outputs cl) c w = (Ok (), outputs_update (\<lambda>_. t) w)"
        "tlookup t (key_of c) = None"
      using kind_api.cleanUpNamed_settles [of "c_outputs cl" outputs outputs_update c w l]
      by (auto simp: output_api_def output_calm_def named_calm_def)
    with False show ?thesis
      by (intro exI [of _ t] exI [of _ "events w"])
        (simp add: output_Manage_named manageNamed_def output_settled_def named_settled_def)
  qed
next
  case (7 cl c l g w)
  then show ?case
    using kind_api.manageNamed_stable [of "c_outputs cl" outputs outputs_update
        "output_plan c" "output_prepareResource c" "output_IsRequired c" l c w] output_plan_ok
    by (intro exI [of _ "events w"])
      (simp add: output_Manage_named output_api_def output_settled_def)
qed (simp_all add: output_settled_def)

interpretation flow_mgr: settling_manager "\<lambda>l cl g c. flow_Manage l cl c" flow_api
  "\<lambda>t. flows_update (\<lambda>_. t)" flows flow_calm flow_settled
proof (unfold_locales, goal_cases)
  case (6 cl l c g w)
  have "Namespace (Meta (flow_prepareResource c)) = Namespace (Meta c)"
    by (simp add: flow_prepareResource_def newMeta_def)
  with 6 show ?case
    using kind_api.manageNamed_settles [of "c_flows cl" flows flows_update
        l c "flow_plan c" "flow_prepareResource c" "flow_IsRequired c" w] flow_plan_ok
    by (simp add: flow_Manage_named flow_api_def flow_calm_def flow_settled_def)
next
  case (7 cl c l g w)
  then show ?case
    using kind_api.manageNamed_stable [of "c_flows cl" flows flows_update
        "flow_plan c" "flow_prepareResource c" "flow_IsRequired c" l c w] flow_plan_ok
    by (intro exI [of _ "events w"]) (simp add: flow_Manage_named flow_api_def flow_settled_def)
qed (simp_all add: flow_settled_def)

definition output_cleaned :: "lib \<Rightarrow> capp \<Rightarrow> world \<Rightarrow> bool" where
  "output_cleaned l capp w \<longleftrightarrow> named_cleaned l capp (outputs w)"

interpretation output_mgr: cleaning_manager "\<lambda>l cl g c. output_Manage l cl c" output_api "\<lambda>t. outputs_update (\<lambda>_. t)"
  outputs output_calm output_settled output_CleanUp output_cleaned
proof
  show "\<exists>v. output_CleanUp l cl c w = (Ok (), outputs_update (\<lambda>_. v) w)
          \<and> output_cleaned l c (outputs_update (\<lambda>_. v) w)"
    if "output_api cl" "owner_refs_lib l" for cl l c w
    using kind_api.cleanUpNamed_cleans [OF that(1) [unfolded output_api_def] that(2)]
    by (simp add: output_CleanUp_def cleanUpNamed_def output_cleaned_def)
qed

definition flow_cleaned :: "lib \<Rightarrow> capp \<Rightarrow> world \<Rightarrow> bool" where
  "flow_cleaned l capp w \<longleftrightarrow> named_cleaned l capp (flows w)"

interpretation flow_mgr: cleaning_manager "\<lambda>l cl g c. flow_Manage l cl c" flow_api "\<lambda>t. flows_update (\<lambda>_. t)"
  flows flow_calm flow_settled flow_CleanUp flow_cleaned
proof
  show "\<exists>v. flow_CleanUp l cl c w = (Ok (), flows_update (\<lambda>_. v) w)
          \<and> flow_cleaned l c (flows_update (\<lambda>_. v) w)"
    if "flow_api cl" "owner_refs_lib l" for cl l c w
    using kind_api.cleanUpNamed_cleans [OF that(1) [unfolded flow_api_def] that(2)]
    by (simp add: flow_CleanUp_def cleanUpNamed_def flow_cleaned_def)
qed

end
