(* ===== verification/EventSourceManagers.thy ===== *)
theory EventSourceManagers
  imports ResourceManager
begin

text \<open>
  \<open>resourcemanagers/pingsource.go\<close> and \<open>resourcemanagers/kafkasource.go\<close>: one source object
  for every event source of a Capp of the respective type; the managed objects that belong
  to no source of the Capp any more are deleted.
\<close>

text \<open>The reasons of the events.\<close>

abbreviation eventPingSourceCreationFailed :: string where "eventPingSourceCreationFailed \<equiv> ''PingSourceCreationFailed''"
abbreviation eventPingSourceCreated :: string where "eventPingSourceCreated \<equiv> ''PingSourceCreated''"
abbreviation eventKafkaSourceCreationFailed :: string where "eventKafkaSourceCreationFailed \<equiv> ''KafkaSourceCreationFailed''"
abbreviation eventKafkaSourceCreated :: string where "eventKafkaSourceCreated \<equiv> ''KafkaSourceCreated''"

section \<open>Putting a list of objects in place and deleting the orphans\<close>

lemma forEach_map: "forEach f (map g xs) = forEach (\<lambda>x. f (g x)) xs"
  by (induction xs) simp_all

lemma forEach_wrapErr_Ok:
  "forEach (\<lambda>x. wrapErr (s x) (f x)) xs w = (Ok u, v) \<longleftrightarrow> forEach f xs w = (Ok u, v)"
  by (induction xs arbitrary: w) (simp_all add: forEach_Cons_eq_Ok del: forEach.simps(2))

lemma forEach_skip:
  "forEach (\<lambda>x. case F x of None \<Rightarrow> ok () | Some c \<Rightarrow> G x c) xs =
     forEach (\<lambda>y. G (fst y) (snd y)) (List.map_filter (\<lambda>x. map_option (Pair x) (F x)) xs)"
proof -
  have "andThen (ok ()) (\<lambda>_. m) = m" for m :: "('a, unit) action"
    by (rule ext) (simp add: andThen_def handle_def)
  then show ?thesis
    by (induction xs) (simp_all add: map_filter_simps split: option.split)
qed

definition manageSources ::
  "bool \<Rightarrow> lib \<Rightarrow> ('sp, 'st) kind_client \<Rightarrow> capp \<Rightarrow> string \<Rightarrow> ('x \<Rightarrow> string) \<Rightarrow>
   ('x \<Rightarrow> ('sp, 'st) resource) \<Rightarrow> (('sp, 'st) resource \<Rightarrow> ('sp, 'st) upsert_plan) \<Rightarrow> 'x list \<Rightarrow>
   unit act" where
  "manageSources required l kc capp kind msg D p xs =
     (if required
      then andThen (forEach (\<lambda>x. wrapErr (msg x) (upsert l kc capp (D x) (p (D x)))) xs)
             (\<lambda>_. cleanUpOrphansOf kc capp kind (map (\<lambda>x. Name (Meta (D x))) xs))
      else cleanUpListed l kc capp kind fmempty)"

definition sources_settled ::
  "bool \<Rightarrow> lib \<Rightarrow> capp \<Rightarrow> ('sp, 'st) resource list \<Rightarrow> (('sp, 'st) resource \<Rightarrow> 'sp \<Rightarrow> 'sp) \<Rightarrow>
   ('sp, 'st) table \<Rightarrow> bool" where
  "sources_settled required l capp ds merge t \<longleftrightarrow>
     (if required
      then (\<forall>d \<in> set ds. in_place l capp d (merge d) t)
        \<and> (\<forall>r. managed_by capp fmempty t r \<longrightarrow> Name (Meta r) \<in> set (map (\<lambda>d. Name (Meta d)) ds))
      else (\<forall>r. \<not> managed_by capp fmempty t r))"

definition sources_calm ::
  "bool \<Rightarrow> capp \<Rightarrow> ('sp, 'st) resource list \<Rightarrow> ('sp, 'st) table \<Rightarrow> bool" where
  "sources_calm required capp ds t \<longleftrightarrow>
     (if required
      then distinct (map key_of ds)
        \<and> (\<forall>d \<in> set ds. \<forall>r. tlookup t (key_of d) = Some r \<longrightarrow> \<not> terminating r)
        \<and> (\<forall>r. managed_by capp fmempty t r \<longrightarrow>
              Name (Meta r) \<notin> set (map (\<lambda>d. Name (Meta d)) ds) \<longrightarrow> Finalizers (Meta r) = [])
      else (\<forall>r. managed_by capp fmempty t r \<longrightarrow> Finalizers (Meta r) = []))"

context kind_api begin

lemma manageSources_required_settles:
  assumes "owner_refs_lib l"
    and plans: "\<And>x. x \<in> set xs \<Longrightarrow>
      plan_ok (p (D x)) (D x) \<and> Namespace (Meta (D x)) = Namespace (Meta capp)"
    and calm: "sources_calm True capp (map D xs) (tab w)"
  shows "\<exists>t ev. manageSources True l kc capp kind msg D p xs w = (Ok (), upd (\<lambda>_. t) (w\<lparr>events := ev\<rparr>))
           \<and> sources_settled True l capp (map D xs) (\<lambda>d. up_merge (p d)) t"
proof -
  let ?names = "map (\<lambda>x. Name (Meta (D x))) xs"
  have names: "set (map (\<lambda>d. Name (Meta d)) (map D xs)) = set ?names" by simp
  have "\<exists>t ev. forEach (\<lambda>d. upsert l kc capp d (p d)) (map D xs) w
        = (Ok (), upd (\<lambda>_. t) (w\<lparr>events := ev\<rparr>))
      \<and> (\<forall>d \<in> set (map D xs). in_place l capp d (up_merge (p d)) t)
      \<and> (\<forall>k. k \<notin> key_of ` set (map D xs) \<longrightarrow> tlookup t k = tlookup (tab w) k)"
    by (rule upsert_all_settles [OF assms(1)]) (use plans calm in \<open>auto simp: sources_calm_def\<close>)
  then obtain t1 ev where t1:
      "forEach (\<lambda>d. upsert l kc capp d (p d)) (map D xs) w = (Ok (), upd (\<lambda>_. t1) (w\<lparr>events := ev\<rparr>))"
      "\<forall>d \<in> set (map D xs). in_place l capp d (up_merge (p d)) t1"
      "\<forall>k. k \<notin> key_of ` set (map D xs) \<longrightarrow> tlookup t1 k = tlookup (tab w) k"
    by (elim exE conjE) (rule that)
  let ?w = "upd (\<lambda>_. t1) (w\<lparr>events := ev\<rparr>)"
  have tw: "tab ?w = t1" by (simp add: tab_upd)
  have "Finalizers (Meta r) = []"
    if m: "managed_by capp fmempty (tab ?w) r" "Name (Meta r) \<notin> set ?names" for r
  proof -
    have "key_of r \<notin> key_of ` set (map D xs)" using m(2) by (auto simp: key_of_def)
    with t1(3) m(1) have "managed_by capp fmempty (tab w) r" by (simp add: managed_by_def tw)
    with calm m(2) show ?thesis by (auto simp: sources_calm_def)
  qed
  then have "\<exists>t. cleanUpOrphansOf kc capp kind ?names ?w = (Ok (), upd (\<lambda>_. t) ?w)
     \<and> (\<forall>r. managed_by capp fmempty t r \<longrightarrow> Name (Meta r) \<in> set ?names)
     \<and> (\<forall>k. nn_Name k \<in> set ?names \<longrightarrow> tlookup t k = tlookup (tab ?w) k)"
    by (rule cleanUpOrphansOf_settles)
  then obtain t where
    t: "cleanUpOrphansOf kc capp kind ?names ?w = (Ok (), upd (\<lambda>_. t) ?w)"
      "\<forall>r. managed_by capp fmempty t r \<longrightarrow> Name (Meta r) \<in> set ?names"
      "\<forall>k. nn_Name k \<in> set ?names \<longrightarrow> tlookup t k = tlookup t1 k"
    unfolding tw by (elim exE conjE) (rule that)
  have "forEach (\<lambda>x. wrapErr (msg x) (upsert l kc capp (D x) (p (D x)))) xs w = (Ok (), ?w)"
    using t1(1) unfolding forEach_wrapErr_Ok forEach_map .
  then have "manageSources True l kc capp kind msg D p xs w = (Ok (), upd (\<lambda>_. t) (w\<lparr>events := ev\<rparr>))"
    using t(1) by (simp add: manageSources_def andThen_Ok upd_upd)
  moreover have "in_place l capp (D x) (up_merge (p (D x))) t" if "x \<in> set xs" for x
  proof -
    have "tlookup t (key_of (D x)) = tlookup t1 (key_of (D x))"
      using t(3) that by (simp add: key_of_def)
    with t1(2) that show ?thesis by (simp add: in_place_def)
  qed
  ultimately show ?thesis using t(2)
    by (intro exI [of _ t] exI [of _ ev]) (simp add: sources_settled_def)
qed

lemma manageSources_settles:
  assumes "owner_refs_lib l" and "DeletionTimestamp (Meta capp) = None"
    and "\<And>x. x \<in> set xs \<Longrightarrow>
      plan_ok (p (D x)) (D x) \<and> Namespace (Meta (D x)) = Namespace (Meta capp)"
    and calm: "sources_calm req capp (map D xs) (tab w)"
  shows "\<exists>t ev. manageSources req l kc capp kind msg D p xs w = (Ok (), upd (\<lambda>_. t) (w\<lparr>events := ev\<rparr>))
           \<and> sources_settled req l capp (map D xs) (\<lambda>d. up_merge (p d)) t"
proof (cases req)
  case True
  then have "req = True" by simp
  show ?thesis unfolding \<open>req = True\<close>
    by (rule manageSources_required_settles [OF assms(1)]) (use assms(3) calm True in auto)
next
  case False
  with calm have "\<And>r. managed_by capp fmempty (tab w) r \<Longrightarrow> Finalizers (Meta r) = []"
    by (simp add: sources_calm_def)
  from cleanUpListed_settles [OF assms(2) this] obtain t where
    t: "cleanUpListed l kc capp kind fmempty w = (Ok (), upd (\<lambda>_. t) w)"
      "\<forall>r. \<not> managed_by capp fmempty t r" by blast
  with False show ?thesis
    by (intro exI [of _ t] exI [of _ "events w"]) (simp add: manageSources_def sources_settled_def)
qed

lemma manageSources_stable:
  assumes plans: "\<And>x. x \<in> set xs \<Longrightarrow> plan_ok (p (D x)) (D x)"
    and "sources_settled req l capp (map D xs) (\<lambda>d. up_merge (p d)) (tab w)"
  shows "manageSources req l kc capp kind msg D p xs w = (Ok (), w)"
proof (cases req)
  case True
  with assms(2) have set: "\<forall>x \<in> set xs. in_place l capp (D x) (up_merge (p (D x))) (tab w)"
      "\<forall>r. managed_by capp fmempty (tab w) r \<longrightarrow> Name (Meta r) \<in> set (map (\<lambda>x. Name (Meta (D x))) xs)"
    by (simp_all add: sources_settled_def)
  have "forEach (\<lambda>d. upsert l kc capp d (p d)) (map D xs) w = (Ok (), w)"
    by (rule upsert_all_stable) (use plans set(1) in auto)
  then have "forEach (\<lambda>x. wrapErr (msg x) (upsert l kc capp (D x) (p (D x)))) xs w = (Ok (), w)"
    unfolding forEach_wrapErr_Ok forEach_map .
  with True cleanUpOrphansOf_stable set(2) show ?thesis
    by (simp add: manageSources_def andThen_Ok)
next
  case False
  with assms(2) show ?thesis
    by (simp add: manageSources_def sources_settled_def cleanUpListed_stable)
qed

end


section \<open>PingSource\<close>

text \<open>
  \<open>cfg\<close> is the configuration of the source, which the callers have found not to be nil.
\<close>

definition ping_prepareResource ::
  "capp \<Rightarrow> source_configuration \<Rightarrow> ping_source_configuration \<Rightarrow> ping_source" where
  "ping_prepareResource capp source cfg =
     \<lparr>TypeKind = [],
      Meta = newMeta (Name (Meta capp) @ ''-'' @ src_Name source) (Namespace (Meta capp))
               (ManagedResourceLabels (Name (Meta capp))),
      Spec = \<lparr>ps_Schedule = pc_Schedule cfg, ps_Data = pc_Data cfg,
              ps_ContentType = ''application/json'',
              ps_Sink = \<lparr>dst_Ref = \<lparr>kr_APIVersion = servingAPIVersion,
                                    kr_Kind = knativeServiceKind, kr_Name = Name (Meta capp),
                                    kr_Namespace = Namespace (Meta capp)\<rparr>,
                         dst_URI = src_URI source\<rparr>,
              ps_rest = []\<rparr>,
      Status = zeroConditioned\<rparr>"

definition ping_IsRequired :: "capp \<Rightarrow> bool" where
  "ping_IsRequired capp \<longleftrightarrow> (\<exists>source \<in> set (cs_Sources (Spec capp)). src_Ping source \<noteq> None)"

definition getPingSources :: "client \<Rightarrow> capp \<Rightarrow> ping_source list act" where
  "getPingSources cl capp = listManagedResources (c_pingsources cl) capp PingSource fmempty"

definition ping_CleanUp :: "lib \<Rightarrow> client \<Rightarrow> capp \<Rightarrow> unit act" where
  "ping_CleanUp l cl capp =
     andThen (getPingSources cl capp) (\<lambda>items. deleteOwnedResources l (c_pingsources cl) capp items)"

definition ping_createOrUpdate ::
  "lib \<Rightarrow> client \<Rightarrow> capp \<Rightarrow> source_configuration \<Rightarrow> ping_source_configuration \<Rightarrow> unit act" where
  "ping_createOrUpdate l cl capp source cfg =
     (let desired = ping_prepareResource capp source cfg in
      handle (kget (c_pingsources cl) (Namespace (Meta desired)) (Name (Meta desired)))
        (\<lambda>err. if \<not> IsNotFound err
               then throw (wrap (''failed to get PingSource '' @ fmt_q (Name (Meta desired))) err)
               else createManagedResource l (CreateResource (c_pingsources cl)) capp desired
                      PingSource eventPingSourceCreated eventPingSourceCreationFailed)
        (\<lambda>orig.
           andThen (lift (ensureOwnerReference l capp
                            (orig\<lparr>Spec := Spec desired\<rparr>) PingSource))
             (\<lambda>existing.
                updateManagedResourceIfNeeded (UpdateResource (c_pingsources cl)) existing
                  (Spec orig) (Spec existing) (OwnerReferences (Meta orig)))))"

definition ping_desiredNames :: "capp \<Rightarrow> string list" where
  "ping_desiredNames capp =
     map (\<lambda>source. Name (Meta capp) @ ''-'' @ src_Name source)
       (filter (\<lambda>source. src_Ping source \<noteq> None) (cs_Sources (Spec capp)))"

definition ping_cleanUpOrphans :: "client \<Rightarrow> capp \<Rightarrow> unit act" where
  "ping_cleanUpOrphans cl capp =
     andThen (getPingSources cl capp) (\<lambda>owned.
       forEach (\<lambda>s. if Name (Meta s) \<in> set (ping_desiredNames capp) then ok ()
                    else wrapErr (''failed to delete orphaned PingSource '' @ fmt_q (Name (Meta s)))
                           (ignoreNotFound (DeleteResource (c_pingsources cl) s)))
         owned)"

definition ping_Manage :: "lib \<Rightarrow> client \<Rightarrow> capp_config \<Rightarrow> capp \<Rightarrow> unit act" where
  "ping_Manage l cl cfg capp =
     (if ping_IsRequired capp
      then andThen
             (forEach (\<lambda>source.
                case src_Ping source of
                  None \<Rightarrow> ok ()
                | Some c \<Rightarrow>
                    wrapErr (''failed to create or update PingSource '' @ fmt_q (src_Name source))
                      (ping_createOrUpdate l cl capp source c))
                (cs_Sources (Spec capp)))
             (\<lambda>_. ping_cleanUpOrphans cl capp)
      else ping_CleanUp l cl capp)"

subsection \<open>Settling\<close>

definition ping_plan :: "ping_source \<Rightarrow> (ping_source_spec, conditioned_status) upsert_plan" where
  "ping_plan d =
     \<lparr>up_merge = (\<lambda>s. Spec d), up_kind = PingSource,
      up_created = eventPingSourceCreated, up_failed = eventPingSourceCreationFailed,
      up_getMsg = ''failed to get PingSource '' @ fmt_q (Name (Meta d)),
      up_after = ok (), up_wrap = (\<lambda>r m. m)\<rparr>"

definition ping_wanted :: "capp \<Rightarrow> (source_configuration \<times> ping_source_configuration) list" where
  "ping_wanted capp =
     List.map_filter (\<lambda>s. map_option (Pair s) (src_Ping s)) (cs_Sources (Spec capp))"

definition ping_desired :: "capp \<Rightarrow> ping_source list" where
  "ping_desired capp = map (\<lambda>y. ping_prepareResource capp (fst y) (snd y)) (ping_wanted capp)"

definition ping_settled :: "lib \<Rightarrow> capp_config \<Rightarrow> capp \<Rightarrow> world \<Rightarrow> bool" where
  "ping_settled l cfg capp w \<longleftrightarrow>
     sources_settled (ping_IsRequired capp) l capp (ping_desired capp)
       (\<lambda>d. up_merge (ping_plan d)) (pingsources w)"

definition ping_calm :: "capp_config \<Rightarrow> capp \<Rightarrow> world \<Rightarrow> bool" where
  "ping_calm cfg capp w \<longleftrightarrow>
     sources_calm (ping_IsRequired capp) capp (ping_desired capp) (pingsources w)"

definition ping_api :: "client \<Rightarrow> bool" where
  "ping_api cl \<longleftrightarrow> kind_api (c_pingsources cl) pingsources pingsources_update"

lemma ping_plan_ok: "plan_ok (ping_plan d) d"
  unfolding plan_ok_def
proof (intro conjI allI impI)
  show "\<exists>ev. up_after (ping_plan d) w = (Ok (), w\<lparr>events := ev\<rparr>)" for w
    by (intro exI [of _ "events w"]) (simp add: ping_plan_def)
qed (simp_all add: ping_plan_def)

lemma ping_prepare_meta [simp]:
  "Namespace (Meta (ping_prepareResource capp s c)) = Namespace (Meta capp)"
  "Name (Meta (ping_prepareResource capp s c)) = Name (Meta capp) @ ''-'' @ src_Name s"
  by (simp_all add: ping_prepareResource_def Let_def newMeta_def)

lemma ping_desiredNames_wanted:
  "ping_desiredNames capp =
     map (\<lambda>y. Name (Meta (ping_prepareResource capp (fst y) (snd y)))) (ping_wanted capp)"
proof -
  have "map (\<lambda>source. Name (Meta capp) @ ''-'' @ src_Name source)
       (filter (\<lambda>source. src_Ping source \<noteq> None) ss) =
     map (\<lambda>y. Name (Meta capp) @ ''-'' @ src_Name (fst y))
       (List.map_filter (\<lambda>s. map_option (Pair s) (src_Ping s)) ss)" for ss
    by (induction ss) (auto simp: map_filter_simps)
  then show ?thesis by (simp add: ping_desiredNames_def ping_wanted_def)
qed

lemma ping_createOrUpdate_upsert:
  "ping_createOrUpdate l cl capp s c =
     upsert l (c_pingsources cl) capp (ping_prepareResource capp s c)
       (ping_plan (ping_prepareResource capp s c))"
  by (rule ext)
    (auto simp: ping_createOrUpdate_def upsert_def ping_plan_def Let_def andThen_def handle_def
      split: prod.splits result.splits)

lemma ping_CleanUp_listed:
  "ping_CleanUp l cl capp = cleanUpListed l (c_pingsources cl) capp ''PingSource'' fmempty"
  by (simp add: ping_CleanUp_def getPingSources_def cleanUpListed_def)

lemma ping_Manage_sources:
  "ping_Manage l cl cfg capp =
     manageSources (ping_IsRequired capp) l (c_pingsources cl) capp ''PingSource''
       (\<lambda>y. ''failed to create or update PingSource '' @ fmt_q (src_Name (fst y)))
       (\<lambda>y. ping_prepareResource capp (fst y) (snd y)) ping_plan (ping_wanted capp)"
proof -
  have orphan: "deleteOrphan kc ''PingSource'' names = (\<lambda>s. if Name (Meta s) \<in> set names then ok ()
      else wrapErr (''failed to delete orphaned PingSource '' @ fmt_q (Name (Meta s)))
             (ignoreNotFound (DeleteResource kc s)))"
    for kc :: "(ping_source_spec, conditioned_status) kind_client" and names
    by (rule ext) (auto simp: deleteOrphan_def)
  have "ping_cleanUpOrphans cl capp = cleanUpOrphansOf (c_pingsources cl) capp ''PingSource''
      (map (\<lambda>y. Name (Meta (ping_prepareResource capp (fst y) (snd y)))) (ping_wanted capp))"
    unfolding ping_cleanUpOrphans_def getPingSources_def cleanUpOrphansOf_def orphan
      ping_desiredNames_wanted ..
  then show ?thesis
    unfolding ping_CleanUp_listed ping_Manage_def manageSources_def forEach_skip ping_wanted_def [symmetric]
      ping_createOrUpdate_upsert by simp
qed

interpretation ping_mgr: settling_manager ping_Manage ping_api "\<lambda>t. pingsources_update (\<lambda>_. t)"
  pingsources ping_calm ping_settled
proof (unfold_locales, goal_cases)
  case (6 cl l c g w)
  show ?case
    using kind_api.manageSources_settles [OF 6(1) [unfolded ping_api_def] 6(2,3), of "ping_wanted c"
        "ping_plan" "\<lambda>y. ping_prepareResource c (fst y) (snd y)" "ping_IsRequired c" w] 6(4)
    by (simp add: ping_calm_def ping_settled_def ping_desired_def ping_Manage_sources ping_plan_ok)
next
  case (7 cl c l g w)
  show ?case
    using kind_api.manageSources_stable [OF 7(1) [unfolded ping_api_def], of "ping_wanted c"
        "ping_plan" "\<lambda>y. ping_prepareResource c (fst y) (snd y)" "ping_IsRequired c" l c w] 7(3)
    by (intro exI [of _ "events w"])
      (simp add: ping_settled_def ping_desired_def ping_Manage_sources ping_plan_ok)
qed (simp_all add: ping_settled_def)

definition ping_cleaned :: "lib \<Rightarrow> capp \<Rightarrow> world \<Rightarrow> bool" where
  "ping_cleaned l capp w \<longleftrightarrow> listed_cleaned l capp fmempty (pingsources w)"

interpretation ping_mgr: cleaning_manager ping_Manage ping_api "\<lambda>t. pingsources_update (\<lambda>_. t)"
  pingsources ping_calm ping_settled ping_CleanUp ping_cleaned
proof
  show "\<exists>v. ping_CleanUp l cl c w = (Ok (), pingsources_update (\<lambda>_. v) w)
          \<and> ping_cleaned l c (pingsources_update (\<lambda>_. v) w)"
    if "ping_api cl" "owner_refs_lib l" for cl l c w
    using kind_api.cleanUpListed_cleans [OF that(1) [unfolded ping_api_def] that(2)]
    by (simp add: ping_CleanUp_listed ping_cleaned_def)
qed

section \<open>KafkaSource\<close>

definition SaslUserKey :: string where "SaslUserKey = ''user''"
definition SaslPasswordKey :: string where "SaslPasswordKey = ''password''"
definition SaslMechanismKey :: string where "SaslMechanismKey = ''sasl.mechanism''"

definition newSecretValueFromSource :: "string \<Rightarrow> string \<Rightarrow> secret_key_ref" where
  "newSecretValueFromSource secretName k = \<lparr>sk_Name = secretName, sk_Key = k\<rparr>"

definition kafka_prepareResource ::
  "capp \<Rightarrow> source_configuration \<Rightarrow> kafka_source_configuration \<Rightarrow> kafka_source" where
  "kafka_prepareResource capp source cfg =
     (let name = Name (Meta capp) @ ''-'' @ src_Name source;
          consumers = 1;
          consumers = (case kc_Consumers cfg of None \<Rightarrow> consumers | Some n \<Rightarrow> n);
          consumers = (if cs_State (Spec capp) = CappStateDisabled then 0 else consumers)
      in \<lparr>TypeKind = [],
          Meta = newMeta name (Namespace (Meta capp)) (ManagedResourceLabels (Name (Meta capp))),
          Spec = \<lparr>kfs_Consumers = Some consumers, kfs_BootstrapServers = kc_BootstrapServers cfg,
                  kfs_SASL =
                    \<lparr>sasl_Enable = True,
                     sasl_User = newSecretValueFromSource (kc_SecretRefName cfg) SaslUserKey,
                     sasl_Password = newSecretValueFromSource (kc_SecretRefName cfg) SaslPasswordKey,
                     sasl_Type = newSecretValueFromSource (kc_SecretRefName cfg) SaslMechanismKey\<rparr>,
                  kfs_TLSEnable = False, kfs_Topics = kc_Topics cfg,
                  kfs_ConsumerGroup =
                    (if kc_ConsumerGroup cfg \<noteq> [] then kc_ConsumerGroup cfg else name),
                  kfs_Sink = \<lparr>dst_Ref = \<lparr>kr_APIVersion = servingAPIVersion,
                                        kr_Kind = knativeServiceKind, kr_Name = Name (Meta capp),
                                        kr_Namespace = Namespace (Meta capp)\<rparr>,
                             dst_URI = src_URI source\<rparr>,
                  kfs_rest = []\<rparr>,
          Status = zeroConditioned\<rparr>)"

definition kafka_IsRequired :: "capp \<Rightarrow> bool" where
  "kafka_IsRequired capp \<longleftrightarrow> (\<exists>source \<in> set (cs_Sources (Spec capp)). src_Kafka source \<noteq> None)"

definition getKafkaSources :: "client \<Rightarrow> capp \<Rightarrow> kafka_source list act" where
  "getKafkaSources cl capp = listManagedResources (c_kafkasources cl) capp KafkaSource fmempty"

definition kafka_CleanUp :: "lib \<Rightarrow> client \<Rightarrow> capp \<Rightarrow> unit act" where
  "kafka_CleanUp l cl capp =
     andThen (getKafkaSources cl capp) (\<lambda>items. deleteOwnedResources l (c_kafkasources cl) capp items)"

definition kafka_createOrUpdate ::
  "lib \<Rightarrow> client \<Rightarrow> capp \<Rightarrow> source_configuration \<Rightarrow> kafka_source_configuration \<Rightarrow> unit act" where
  "kafka_createOrUpdate l cl capp source cfg =
     (let desired = kafka_prepareResource capp source cfg in
      handle (kget (c_kafkasources cl) (Namespace (Meta desired)) (Name (Meta desired)))
        (\<lambda>err. if \<not> IsNotFound err
               then throw (wrap (''failed to get KafkaSource '' @ fmt_q (Name (Meta desired))) err)
               else createManagedResource l (CreateResource (c_kafkasources cl)) capp desired
                      KafkaSource eventKafkaSourceCreated eventKafkaSourceCreationFailed)
        (\<lambda>orig.
           andThen (lift (ensureOwnerReference l capp
                            (orig\<lparr>Spec := (Spec desired)\<lparr>kfs_ConsumerGroup := kfs_ConsumerGroup (Spec orig)\<rparr>\<rparr>) KafkaSource))
             (\<lambda>existing.
                updateManagedResourceIfNeeded (UpdateResource (c_kafkasources cl)) existing
                  (Spec orig) (Spec existing) (OwnerReferences (Meta orig)))))"

definition kafka_desiredNames :: "capp \<Rightarrow> string list" where
  "kafka_desiredNames capp =
     map (\<lambda>source. Name (Meta capp) @ ''-'' @ src_Name source)
       (filter (\<lambda>source. src_Kafka source \<noteq> None) (cs_Sources (Spec capp)))"

definition kafka_cleanUpOrphans :: "client \<Rightarrow> capp \<Rightarrow> unit act" where
  "kafka_cleanUpOrphans cl capp =
     andThen (getKafkaSources cl capp) (\<lambda>owned.
       forEach (\<lambda>s. if Name (Meta s) \<in> set (kafka_desiredNames capp) then ok ()
                    else wrapErr (''failed to delete orphaned KafkaSource '' @ fmt_q (Name (Meta s)))
                           (ignoreNotFound (DeleteResource (c_kafkasources cl) s)))
         owned)"

definition kafka_Manage :: "lib \<Rightarrow> client \<Rightarrow> capp_config \<Rightarrow> capp \<Rightarrow> unit act" where
  "kafka_Manage l cl cfg capp =
     (if kafka_IsRequired capp
      then andThen
             (forEach (\<lambda>source.
                case src_Kafka source of
                  None \<Rightarrow> ok ()
                | Some c \<Rightarrow>
                    wrapErr (''failed to create or update KafkaSource '' @ fmt_q (src_Name source))
                      (kafka_createOrUpdate l cl capp source c))
                (cs_Sources (Spec capp)))
             (\<lambda>_. kafka_cleanUpOrphans cl capp)
      else kafka_CleanUp l cl capp)"

subsection \<open>Settling\<close>

definition kafka_plan :: "kafka_source \<Rightarrow> (kafka_source_spec, conditioned_status) upsert_plan" where
  "kafka_plan d =
     \<lparr>up_merge = (\<lambda>s. (Spec d)\<lparr>kfs_ConsumerGroup := kfs_ConsumerGroup (s)\<rparr>), up_kind = KafkaSource,
      up_created = eventKafkaSourceCreated, up_failed = eventKafkaSourceCreationFailed,
      up_getMsg = ''failed to get KafkaSource '' @ fmt_q (Name (Meta d)),
      up_after = ok (), up_wrap = (\<lambda>r m. m)\<rparr>"

definition kafka_wanted :: "capp \<Rightarrow> (source_configuration \<times> kafka_source_configuration) list" where
  "kafka_wanted capp =
     List.map_filter (\<lambda>s. map_option (Pair s) (src_Kafka s)) (cs_Sources (Spec capp))"

definition kafka_desired :: "capp \<Rightarrow> kafka_source list" where
  "kafka_desired capp = map (\<lambda>y. kafka_prepareResource capp (fst y) (snd y)) (kafka_wanted capp)"

definition kafka_settled :: "lib \<Rightarrow> capp_config \<Rightarrow> capp \<Rightarrow> world \<Rightarrow> bool" where
  "kafka_settled l cfg capp w \<longleftrightarrow>
     sources_settled (kafka_IsRequired capp) l capp (kafka_desired capp)
       (\<lambda>d. up_merge (kafka_plan d)) (kafkasources w)"

definition kafka_calm :: "capp_config \<Rightarrow> capp \<Rightarrow> world \<Rightarrow> bool" where
  "kafka_calm cfg capp w \<longleftrightarrow>
     sources_calm (kafka_IsRequired capp) capp (kafka_desired capp) (kafkasources w)"

definition kafka_api :: "client \<Rightarrow> bool" where
  "kafka_api cl \<longleftrightarrow> kind_api (c_kafkasources cl) kafkasources kafkasources_update"

lemma kafka_plan_ok: "plan_ok (kafka_plan d) d"
  unfolding plan_ok_def
proof (intro conjI allI impI)
  show "\<exists>ev. up_after (kafka_plan d) w = (Ok (), w\<lparr>events := ev\<rparr>)" for w
    by (intro exI [of _ "events w"]) (simp add: kafka_plan_def)
qed (simp_all add: kafka_plan_def)

lemma kafka_prepare_meta [simp]:
  "Namespace (Meta (kafka_prepareResource capp s c)) = Namespace (Meta capp)"
  "Name (Meta (kafka_prepareResource capp s c)) = Name (Meta capp) @ ''-'' @ src_Name s"
  by (simp_all add: kafka_prepareResource_def Let_def newMeta_def)

lemma kafka_desiredNames_wanted:
  "kafka_desiredNames capp =
     map (\<lambda>y. Name (Meta (kafka_prepareResource capp (fst y) (snd y)))) (kafka_wanted capp)"
proof -
  have "map (\<lambda>source. Name (Meta capp) @ ''-'' @ src_Name source)
       (filter (\<lambda>source. src_Kafka source \<noteq> None) ss) =
     map (\<lambda>y. Name (Meta capp) @ ''-'' @ src_Name (fst y))
       (List.map_filter (\<lambda>s. map_option (Pair s) (src_Kafka s)) ss)" for ss
    by (induction ss) (auto simp: map_filter_simps)
  then show ?thesis by (simp add: kafka_desiredNames_def kafka_wanted_def)
qed

lemma kafka_createOrUpdate_upsert:
  "kafka_createOrUpdate l cl capp s c =
     upsert l (c_kafkasources cl) capp (kafka_prepareResource capp s c)
       (kafka_plan (kafka_prepareResource capp s c))"
  by (rule ext)
    (auto simp: kafka_createOrUpdate_def upsert_def kafka_plan_def Let_def andThen_def handle_def
      split: prod.splits result.splits)

lemma kafka_CleanUp_listed:
  "kafka_CleanUp l cl capp = cleanUpListed l (c_kafkasources cl) capp ''KafkaSource'' fmempty"
  by (simp add: kafka_CleanUp_def getKafkaSources_def cleanUpListed_def)

lemma kafka_Manage_sources:
  "kafka_Manage l cl cfg capp =
     manageSources (kafka_IsRequired capp) l (c_kafkasources cl) capp ''KafkaSource''
       (\<lambda>y. ''failed to create or update KafkaSource '' @ fmt_q (src_Name (fst y)))
       (\<lambda>y. kafka_prepareResource capp (fst y) (snd y)) kafka_plan (kafka_wanted capp)"
proof -
  have orphan: "deleteOrphan kc ''KafkaSource'' names = (\<lambda>s. if Name (Meta s) \<in> set names then ok ()
      else wrapErr (''failed to delete orphaned KafkaSource '' @ fmt_q (Name (Meta s)))
             (ignoreNotFound (DeleteResource kc s)))"
    for kc :: "(kafka_source_spec, conditioned_status) kind_client" and names
    by (rule ext) (auto simp: deleteOrphan_def)
  have "kafka_cleanUpOrphans cl capp = cleanUpOrphansOf (c_kafkasources cl) capp ''KafkaSource''
      (map (\<lambda>y. Name (Meta (kafka_prepareResource capp (fst y) (snd y)))) (kafka_wanted capp))"
    unfolding kafka_cleanUpOrphans_def getKafkaSources_def cleanUpOrphansOf_def orphan
      kafka_desiredNames_wanted ..
  then show ?thesis
    unfolding kafka_CleanUp_listed kafka_Manage_def manageSources_def forEach_skip kafka_wanted_def [symmetric]
      kafka_createOrUpdate_upsert by simp
qed

interpretation kafka_mgr: settling_manager kafka_Manage kafka_api "\<lambda>t. kafkasources_update (\<lambda>_. t)"
  kafkasources kafka_calm kafka_settled
proof (unfold_locales, goal_cases)
  case (6 cl l c g w)
  show ?case
    using kind_api.manageSources_settles [OF 6(1) [unfolded kafka_api_def] 6(2,3), of "kafka_wanted c"
        "kafka_plan" "\<lambda>y. kafka_prepareResource c (fst y) (snd y)" "kafka_IsRequired c" w] 6(4)
    by (simp add: kafka_calm_def kafka_settled_def kafka_desired_def kafka_Manage_sources kafka_plan_ok)
next
  case (7 cl c l g w)
  show ?case
    using kind_api.manageSources_stable [OF 7(1) [unfolded kafka_api_def], of "kafka_wanted c"
        "kafka_plan" "\<lambda>y. kafka_prepareResource c (fst y) (snd y)" "kafka_IsRequired c" l c w] 7(3)
    by (intro exI [of _ "events w"])
      (simp add: kafka_settled_def kafka_desired_def kafka_Manage_sources kafka_plan_ok)
qed (simp_all add: kafka_settled_def)

definition kafka_cleaned :: "lib \<Rightarrow> capp \<Rightarrow> world \<Rightarrow> bool" where
  "kafka_cleaned l capp w \<longleftrightarrow> listed_cleaned l capp fmempty (kafkasources w)"

interpretation kafka_mgr: cleaning_manager kafka_Manage kafka_api "\<lambda>t. kafkasources_update (\<lambda>_. t)"
  kafkasources kafka_calm kafka_settled kafka_CleanUp kafka_cleaned
proof
  show "\<exists>v. kafka_CleanUp l cl c w = (Ok (), kafkasources_update (\<lambda>_. v) w)
          \<and> kafka_cleaned l c (kafkasources_update (\<lambda>_. v) w)"
    if "kafka_api cl" "owner_refs_lib l" for cl l c w
    using kind_api.cleanUpListed_cleans [OF that(1) [unfolded kafka_api_def] that(2)]
    by (simp add: kafka_CleanUp_listed kafka_cleaned_def)
qed

end
