(* ===== verification/KnativeServiceManager.thy ===== *)
theory KnativeServiceManager
  imports ResourceManager
begin

text \<open>
  \<open>resourcemanagers/ksvc.go\<close>: the Knative service that runs a Capp, with the autoscaler
  annotations of its revision template. Disabling a Capp deletes the service.
\<close>

text \<open>The reasons of the events.\<close>

abbreviation eventCappKnativeServiceCreationFailed :: string where "eventCappKnativeServiceCreationFailed \<equiv> ''KnativeServiceCreationFailed''"
abbreviation eventCappKnativeServiceCreated :: string where "eventCappKnativeServiceCreated \<equiv> ''KnativeServiceCreated''"
abbreviation eventCappDisabled :: string where "eventCappDisabled \<equiv> ''CappDisabled''"
abbreviation eventCappEnabled :: string where "eventCappEnabled \<equiv> ''CappEnabled''"

section \<open>Autoscaler annotations\<close>

definition kubectlKubernetesIOAnnotationPrefix :: string where
  "kubectlKubernetesIOAnnotationPrefix = ''kubectl.kubernetes.io/''"
definition rpsScaleKey :: string where "rpsScaleKey = ''rps''"
definition cpuScaleKey :: string where "cpuScaleKey = ''cpu''"
definition memoryScaleKey :: string where "memoryScaleKey = ''memory''"
definition concurrencyScaleKey :: string where "concurrencyScaleKey = ''concurrency''"
definition kpaMetrics :: "string list" where "kpaMetrics = [''rps'', ''concurrency'']"

text \<open>Knative's annotation keys.\<close>

definition ClassAnnotationKey :: string where
  "ClassAnnotationKey = ''autoscaling.knative.dev/class''"
definition MetricAnnotationKey :: string where
  "MetricAnnotationKey = ''autoscaling.knative.dev/metric''"
definition TargetAnnotationKey :: string where
  "TargetAnnotationKey = ''autoscaling.knative.dev/target''"
definition ScaleDownDelayAnnotationKey :: string where
  "ScaleDownDelayAnnotationKey = ''autoscaling.knative.dev/scale-down-delay''"
definition MinScaleAnnotationKey :: string where
  "MinScaleAnnotationKey = ''autoscaling.knative.dev/min-scale''"
definition MaxScaleAnnotationKey :: string where
  "MaxScaleAnnotationKey = ''autoscaling.knative.dev/max-scale''"
definition ActivationScaleKey :: string where
  "ActivationScaleKey = ''autoscaling.knative.dev/activation-scale''"

lemmas autoscaling_key_defs = ClassAnnotationKey_def MetricAnnotationKey_def TargetAnnotationKey_def
  ScaleDownDelayAnnotationKey_def MinScaleAnnotationKey_def MaxScaleAnnotationKey_def
  ActivationScaleKey_def

text \<open>\<open>time.Duration.String\<close>: nanoseconds as hours, minutes and seconds.\<close>

definition fmtFrac :: "nat \<Rightarrow> nat \<Rightarrow> string" where
  "fmtFrac v prec =
     (let digits = rev (dropWhile (\<lambda>c. c = CHR ''0'') (rev (zero_pad prec (dec_nat (v mod 10 ^ prec)))))
      in if digits = [] then [] else CHR ''.'' # digits)"

definition Duration_String :: "i64 \<Rightarrow> string" where
  "Duration_String d =
     (let neg = sint d < 0;
          u = nat (\<bar>sint d\<bar>);
          s = (if u = 0 then ''0s''
               else if u < 1000 then dec_nat u @ ''ns''
               else if u < 1000000 then
                 dec_nat (u div 1000) @ fmtFrac u 3 @ [char_of (194::nat), char_of (181::nat)] @ ''s''
               else if u < 1000000000 then dec_nat (u div 1000000) @ fmtFrac u 6 @ ''ms''
               else
                 (let secs = u div 1000000000; mins = secs div 60; hours = mins div 60
                  in (if hours > 0 then dec_nat hours @ ''h'' else [])
                     @ (if mins > 0 then dec_nat (mins mod 60) @ ''m'' else [])
                     @ dec_nat (secs mod 60) @ fmtFrac u 9 @ ''s''))
      in if neg \<and> u \<noteq> 0 then CHR ''-'' # s else s)"

definition Second :: i64 where "Second = 1000000000"

definition getTargetValue :: "string \<Rightarrow> autoscale_config \<Rightarrow> string" where
  "getTargetValue scaleMetric autoscale =
     (if scaleMetric = rpsScaleKey then fmt_d (as_RPS autoscale)
      else if scaleMetric = cpuScaleKey then fmt_d (as_CPU autoscale)
      else if scaleMetric = memoryScaleKey then fmt_d (as_Memory autoscale)
      else if scaleMetric = concurrencyScaleKey then fmt_d (as_Concurrency autoscale)
      else [])"

definition getAutoScaleClassByMetric :: "string \<Rightarrow> string" where
  "getAutoScaleClassByMetric metric =
     (if metric \<in> set kpaMetrics then ''kpa.autoscaling.knative.dev''
      else ''hpa.autoscaling.knative.dev'')"

definition setAutoScaler :: "capp \<Rightarrow> autoscale_config \<Rightarrow> strmap" where
  "setAutoScaler capp defaults =
     (let scaleSpec = cs_ScaleSpec (Spec capp);
          scaleMetric = sc_Metric scaleSpec
      in if scaleMetric = [] then fmempty
         else
           (let m = fmempty;
                m = fmupd ClassAnnotationKey (getAutoScaleClassByMetric scaleMetric) m;
                m = fmupd MetricAnnotationKey scaleMetric m;
                m = fmupd TargetAnnotationKey (getTargetValue scaleMetric defaults) m;
                m = (case sc_ScaleDelaySeconds scaleSpec of
                       Some n \<Rightarrow> fmupd ScaleDownDelayAnnotationKey
                                   (Duration_String (int_of_i32 n * Second)) m
                     | None \<Rightarrow> m);
                m = (case sc_MinReplicas scaleSpec of
                       Some n \<Rightarrow> fmupd MinScaleAnnotationKey (fmt_d n) m
                     | None \<Rightarrow> fmupd ActivationScaleKey (fmt_d (as_ActivationScale defaults)) m);
                m = (case sc_MaxReplicas scaleSpec of
                       Some n \<Rightarrow> fmupd MaxScaleAnnotationKey (fmt_d n) m
                     | None \<Rightarrow> m)
            in m))"

section \<open>The manager\<close>

text \<open>\<open>volumes\<close>: the loop that appends a volume for every NFS volume.\<close>

fun appendNFSVolumes :: "volume list \<Rightarrow> nfs_volume list \<Rightarrow> volume list" where
  "appendNFSVolumes vs [] = vs"
| "appendNFSVolumes vs (n # ns) =
     appendNFSVolumes
       (vs @ [\<lparr>vol_Name = nfs_Name n, vol_Source = PersistentVolumeClaim (nfs_Name n)\<rparr>]) ns"

definition ksvcAnnotations :: "capp \<Rightarrow> strmap" where
  "ksvcAnnotations capp =
     fmfilter (\<lambda>k. \<not> HasPrefix k CappAPIGroup \<and> \<not> HasPrefix k kubectlKubernetesIOAnnotationPrefix)
       (Annotations (Meta capp))"

definition ksvc_prepareResource :: "lib \<Rightarrow> capp_config \<Rightarrow> capp \<Rightarrow> knative_service" where
  "ksvc_prepareResource l cfg capp =
     (let knativeServiceAnnotations = ksvcAnnotations capp;
          knativeServiceLabels = fmupd CappResourceKey (Name (Meta capp)) (Labels (Meta capp));
          conf = cs_ConfigurationSpec (Spec capp);
          conf = conf\<lparr>Template := (Template conf)\<lparr>tmpl_Spec :=
                   (tmpl_Spec (Template conf))\<lparr>rev_EnableServiceLinks := Some False\<rparr>\<rparr>\<rparr>;
          conf = l_ConfigurationSetDefaults l conf;
          route = l_RouteSetDefaults l [];
          rev = l_RevisionSetDefaults l (tmpl_Spec (Template conf));
          rev = rev\<lparr>rev_TimeoutSeconds := rt_RouteTimeoutSeconds (cs_RouteSpec (Spec capp))\<rparr>;
          rev = rev\<lparr>rev_Volumes := appendNFSVolumes (rev_Volumes rev) (cs_NFSVolumes (Spec capp))\<rparr>
      in \<lparr>TypeKind = [],
          Meta = (newMeta (Name (Meta capp)) (Namespace (Meta capp))
                    (ManagedResourceLabels (Name (Meta capp))))
                   \<lparr>Annotations := knativeServiceAnnotations\<rparr>,
          Spec = \<lparr>svc_Configuration = conf\<lparr>Template := (Template conf)
                    \<lparr>tmpl_Spec := rev,
                     tmpl_Annotations := MergeMaps knativeServiceAnnotations
                       (setAutoScaler capp (cfg_AutoscaleConfig (Spec cfg))),
                     tmpl_Labels := knativeServiceLabels\<rparr>\<rparr>,
                  svc_Route = route\<rparr>,
          Status = zeroServiceStatus\<rparr>)"

definition ksvc_CleanUp :: "lib \<Rightarrow> client \<Rightarrow> capp \<Rightarrow> unit act" where
  "ksvc_CleanUp l cl capp =
     handle (kget (c_ksvcs cl) (Namespace (Meta capp)) (Name (Meta capp)))
       (\<lambda>err. if IsNotFound err then ok () else throw err)
       (\<lambda>ksvc. andThen (ownedByDeleted l capp (Meta ksvc)) (\<lambda>owned.
          if owned then ok () else ignoreNotFound (DeleteResource (c_ksvcs cl) ksvc)))"

definition ksvc_IsRequired :: "capp \<Rightarrow> bool" where
  "ksvc_IsRequired capp \<longleftrightarrow> cs_State (Spec capp) = CappStateEnabled"

text \<open>
  The message of the failed \<open>Get\<close> names the object \<open>Get\<close> was to fill, which is still the
  zero value.
\<close>

definition ksvc_createOrUpdate :: "lib \<Rightarrow> client \<Rightarrow> capp_config \<Rightarrow> capp \<Rightarrow> unit act" where
  "ksvc_createOrUpdate l cl cfg capp =
     (let knativeServiceFromCapp = ksvc_prepareResource l cfg capp in
      handle (kget (c_ksvcs cl) (Namespace (Meta capp)) (Name (Meta capp)))
        (\<lambda>err. if IsNotFound err
               then andThen (createManagedResource l (CreateResource (c_ksvcs cl)) capp
                       knativeServiceFromCapp KnativeService eventCappKnativeServiceCreated
                       eventCappKnativeServiceCreationFailed) (\<lambda>_.
                 if ss_State (cst_StateStatus (Status capp)) = CappStateDisabled
                    \<and> ksvc_IsRequired capp
                    \<and> ss_LastChange (cst_StateStatus (Status capp)) \<noteq> None
                 then Eventf ''Normal'' eventCappEnabled
                        (''Capp '' @ fmt_q (Name (Meta capp)) @ '' state changed to enabled'')
                 else ok ())
               else throw (wrap (''failed to get KnativeService '' @ fmt_q []) err))
        (\<lambda>orig.
           andThen (lift (ensureOwnerReference l capp
                            (orig\<lparr>Spec := Spec knativeServiceFromCapp\<rparr>) KnativeService))
             (\<lambda>knativeService.
                updateManagedResourceIfNeeded (UpdateResource (c_ksvcs cl)) knativeService
                  (Spec orig) (Spec knativeService) (OwnerReferences (Meta orig)))))"

definition ksvc_Manage :: "lib \<Rightarrow> client \<Rightarrow> capp_config \<Rightarrow> capp \<Rightarrow> unit act" where
  "ksvc_Manage l cl cfg capp =
     (if ksvc_IsRequired capp then ksvc_createOrUpdate l cl cfg capp
      else andThen (ksvc_CleanUp l cl capp) (\<lambda>_.
        Eventf ''Normal'' eventCappDisabled
          (''Capp '' @ Name (Meta capp) @ '' state changed to disabled'')))"

section \<open>Settling\<close>

definition ksvc_plan ::
  "lib \<Rightarrow> capp_config \<Rightarrow> capp \<Rightarrow> (service_spec, service_status) upsert_plan" where
  "ksvc_plan l cfg capp =
     \<lparr>up_merge = (\<lambda>_. Spec (ksvc_prepareResource l cfg capp)), up_kind = KnativeService,
      up_created = eventCappKnativeServiceCreated, up_failed = eventCappKnativeServiceCreationFailed,
      up_getMsg = ''failed to get KnativeService '' @ fmt_q [],
      up_after =
        (if ss_State (cst_StateStatus (Status capp)) = CappStateDisabled
            \<and> ksvc_IsRequired capp \<and> ss_LastChange (cst_StateStatus (Status capp)) \<noteq> None
         then Eventf ''Normal'' eventCappEnabled
                (''Capp '' @ fmt_q (Name (Meta capp)) @ '' state changed to enabled'')
         else ok ()),
      up_wrap = (\<lambda>r m. m)\<rparr>"

definition ksvc_settled :: "lib \<Rightarrow> capp_config \<Rightarrow> capp \<Rightarrow> world \<Rightarrow> bool" where
  "ksvc_settled l cfg capp w \<longleftrightarrow>
     named_settled (ksvc_IsRequired capp) l capp (ksvc_prepareResource l cfg capp)
       (up_merge (ksvc_plan l cfg capp)) (ksvcs w)"

definition ksvc_calm :: "capp_config \<Rightarrow> capp \<Rightarrow> world \<Rightarrow> bool" where
  "ksvc_calm cfg capp w \<longleftrightarrow>
     (\<forall>r. tlookup (ksvcs w) (key_of capp) = Some r \<longrightarrow>
        (if ksvc_IsRequired capp then \<not> terminating r else Finalizers (Meta r) = []))"

definition ksvc_api :: "client \<Rightarrow> bool" where
  "ksvc_api cl \<longleftrightarrow> kind_api (c_ksvcs cl) ksvcs ksvcs_update"

lemma ksvc_plan_ok: "plan_ok (ksvc_plan l cfg capp) (ksvc_prepareResource l cfg capp)"
  unfolding plan_ok_def
proof (intro conjI allI impI)
  show "\<exists>ev. up_after (ksvc_plan l cfg capp) w = (Ok (), w\<lparr>events := ev\<rparr>)" for w
    by (cases "up_after (ksvc_plan l cfg capp) = ok ()")
      (auto simp: ksvc_plan_def Eventf_def intro: exI [of _ "events w"])
qed (simp_all add: ksvc_plan_def)

lemma ksvc_prepare_meta [simp]:
  "Namespace (Meta (ksvc_prepareResource l cfg capp)) = Namespace (Meta capp)"
  "Name (Meta (ksvc_prepareResource l cfg capp)) = Name (Meta capp)"
  by (simp_all add: ksvc_prepareResource_def Let_def newMeta_def)

lemma ksvc_prepare_key: "key_of (ksvc_prepareResource l cfg capp) = key_of capp"
  by (simp add: key_of_def)

lemma ksvc_createOrUpdate_upsert:
  "ksvc_createOrUpdate l cl cfg capp =
     upsert l (c_ksvcs cl) capp (ksvc_prepareResource l cfg capp) (ksvc_plan l cfg capp)"
  by (rule ext)
    (auto simp: ksvc_createOrUpdate_def upsert_def ksvc_plan_def Let_def andThen_def handle_def
      split: prod.splits result.splits)

lemma ksvc_CleanUp_named: "ksvc_CleanUp l cl capp = cleanUpNamed l (c_ksvcs cl) capp"
  by (simp add: ksvc_CleanUp_def cleanUpNamed_def)

interpretation ksvc_mgr: settling_manager ksvc_Manage ksvc_api "\<lambda>t. ksvcs_update (\<lambda>_. t)"
  ksvcs ksvc_calm ksvc_settled
proof (unfold_locales, goal_cases)
  case (6 cl l c g w)
  note api = 6(1) [unfolded ksvc_api_def]
  have "named_calm (ksvc_IsRequired c) c (ksvc_prepareResource l g c) (ksvcs w)"
    using 6(4) by (simp add: named_calm_def ksvc_calm_def ksvc_prepare_key)
  from kind_api.manageNamed_settles [OF api 6(2,3) ksvc_plan_ok ksvc_prepare_meta(1) this]
  obtain t ev where t: "manageNamed (ksvc_IsRequired c) l (c_ksvcs cl) c (ksvc_prepareResource l g c)
        (ksvc_plan l g c) w = (Ok (), ksvcs_update (\<lambda>_. t) (w\<lparr>events := ev\<rparr>))"
      "named_settled (ksvc_IsRequired c) l c (ksvc_prepareResource l g c)
         (up_merge (ksvc_plan l g c)) t" by blast
  have "\<exists>ev. ksvc_Manage l cl g c w = (Ok (), ksvcs_update (\<lambda>_. t) (w\<lparr>events := ev\<rparr>))"
  proof (cases "ksvc_IsRequired c")
    case True
    with t(1) show ?thesis
      by (intro exI [of _ ev]) (simp add: ksvc_Manage_def manageNamed_def ksvc_createOrUpdate_upsert)
  next
    case False
    with t(1) have "ksvc_CleanUp l cl c w = (Ok (), ksvcs_update (\<lambda>_. t) (w\<lparr>events := ev\<rparr>))"
      by (simp add: manageNamed_def ksvc_CleanUp_named)
    with False show ?thesis
      by (intro exI [of _ "ev @ [\<lparr>ev_Type = ''Normal'', ev_Reason = ''CappDisabled'',
          ev_Note = ''Capp '' @ Name (Meta c) @ '' state changed to disabled''\<rparr>]"])
        (simp add: ksvc_Manage_def andThen_Ok Eventf_def)
  qed
  then obtain ev' where
    "ksvc_Manage l cl g c w = (Ok (), ksvcs_update (\<lambda>_. t) (w\<lparr>events := ev'\<rparr>))" by blast
  with t(2) show ?case
    by (intro exI [of _ t] exI [of _ ev']) (simp add: ksvc_settled_def)
next
  case (7 cl c l g w)
  note api = 7(1) [unfolded ksvc_api_def]
  from kind_api.manageNamed_stable [OF api ksvc_plan_ok 7(3) [unfolded ksvc_settled_def]]
  have run: "manageNamed (ksvc_IsRequired c) l (c_ksvcs cl) c (ksvc_prepareResource l g c)
      (ksvc_plan l g c) w = (Ok (), w)" .
  show ?case
  proof (cases "ksvc_IsRequired c")
    case True
    with run show ?thesis
      by (intro exI [of _ "events w"])
        (simp add: ksvc_Manage_def manageNamed_def ksvc_createOrUpdate_upsert)
  next
    case False
    with run have "ksvc_CleanUp l cl c w = (Ok (), w)"
      by (simp add: manageNamed_def ksvc_CleanUp_named)
    with False show ?thesis
      by (simp add: ksvc_Manage_def andThen_Ok Eventf_def) blast
  qed
qed (simp_all add: ksvc_settled_def)

definition ksvc_cleaned :: "lib \<Rightarrow> capp \<Rightarrow> world \<Rightarrow> bool" where
  "ksvc_cleaned l capp w \<longleftrightarrow> named_cleaned l capp (ksvcs w)"

interpretation ksvc_mgr: cleaning_manager ksvc_Manage ksvc_api "\<lambda>t. ksvcs_update (\<lambda>_. t)"
  ksvcs ksvc_calm ksvc_settled ksvc_CleanUp ksvc_cleaned
proof
  show "\<exists>v. ksvc_CleanUp l cl c w = (Ok (), ksvcs_update (\<lambda>_. v) w)
          \<and> ksvc_cleaned l c (ksvcs_update (\<lambda>_. v) w)"
    if "ksvc_api cl" "owner_refs_lib l" for cl l c w
    using kind_api.cleanUpNamed_cleans [OF that(1) [unfolded ksvc_api_def] that(2)]
    by (simp add: ksvc_CleanUp_named ksvc_cleaned_def)
qed

end
