(* ===== verification/CappWebhooks.thy ===== *)
theory CappWebhooks
  imports SyslogNGManagers EventSourceManagers KnativeServiceManager
begin

text \<open>
  The admission webhooks (\<open>internal/webhook/rcs/v1alpha1\<close>): the mutator, which notes who last
  updated a Capp and fills in default resources, and the validator. Decoding and encoding
  JSON are parameters.
\<close>

section \<open>Requests and responses\<close>

datatype operation = Create | Update | OtherOperation string

record admission_request =
  req_Operation :: operation
  req_SubResource :: string
  req_Username :: string
  req_Object :: opaque
  req_OldObject :: opaque

datatype response =
  Allowed string
| Denied string
| Errored nat go_error
| PatchResponseFromRaw opaque opaque

fun is_allowed :: "response \<Rightarrow> bool" where
  "is_allowed (Allowed _) = True"
| "is_allowed (Denied _) = False"
| "is_allowed (Errored _ _) = False"
| "is_allowed (PatchResponseFromRaw _ _) = True"

section \<open>mutator.go\<close>

definition lastUpdatedByAnnotationKey :: string where
  "lastUpdatedByAnnotationKey = CappAPIGroup @ ''/last-updated-by''"

text \<open>
  The maps of Go: a nil map reads like an empty one, but an assignment to one of its entries panics. A
  decoder leaves a map field nil unless the input gives the map; here every field without
  entries is taken to be nil, which is the case that matters.
\<close>

type_synonym ('k, 'v) go_map = "('k, 'v) fmap option"

definition map_field :: "('k, 'v) fmap \<Rightarrow> ('k, 'v) go_map" where
  "map_field m = (if m = fmempty then None else Some m)"

definition entries :: "('k, 'v) go_map \<Rightarrow> ('k, 'v) fmap" where
  "entries m = (case m of None \<Rightarrow> fmempty | Some e \<Rightarrow> e)"

definition assign_entry :: "('k, 'v) go_map \<Rightarrow> 'k \<Rightarrow> 'v \<Rightarrow> ('k, 'v) go_map result" where
  "assign_entry m k v =
     (case m of None \<Rightarrow> Panic ''assignment to entry in nil map'' | Some e \<Rightarrow> Ok (Some (fmupd k v e)))"

definition mutateAnnotations :: "string \<Rightarrow> capp \<Rightarrow> capp result" where
  "mutateAnnotations username capp =
     (let annotations = map_field (Annotations (Meta capp));
          annotations = (if annotations = None then Some fmempty else annotations)
      in rbind (assign_entry annotations lastUpdatedByAnnotationKey username) (\<lambda>annotations.
           Ok (capp\<lparr>Meta := (Meta capp)\<lparr>Annotations := entries annotations\<rparr>\<rparr>)))"

fun setResourceQuantity ::
  "(string, quantity) go_map \<Rightarrow> resource_list \<Rightarrow> string list \<Rightarrow> (string, quantity) go_map result" where
  "setResourceQuantity resourceList defaultResources [] = Ok resourceList"
| "setResourceQuantity resourceList defaultResources (resourceName # names) =
     (case fmlookup defaultResources resourceName of
        None \<Rightarrow> setResourceQuantity resourceList defaultResources names
      | Some defaultQuantity \<Rightarrow>
          (let resourceList = (if resourceList = None then Some fmempty else resourceList) in
           rbind (if fmlookup (entries resourceList) resourceName = None
                  then assign_entry resourceList resourceName defaultQuantity else Ok resourceList)
             (\<lambda>resourceList. setResourceQuantity resourceList defaultResources names)))"

definition defaultedResources :: "string list" where
  "defaultedResources = [''cpu'', ''memory'']"

definition mutateContainer ::
  "resource_list \<Rightarrow> resource_list \<Rightarrow> container \<Rightarrow> container result" where
  "mutateContainer defaultRequests defaultLimits container =
     rbind (setResourceQuantity (map_field (ctr_Requests container)) defaultRequests defaultedResources)
       (\<lambda>requests.
     rbind (setResourceQuantity (map_field (ctr_Limits container)) defaultLimits defaultedResources)
       (\<lambda>limits.
       Ok (container\<lparr>ctr_Requests := entries requests, ctr_Limits := entries limits\<rparr>)))"

definition containers_of :: "capp \<Rightarrow> container list" where
  "containers_of c = rev_Containers (tmpl_Spec (Template (cs_ConfigurationSpec (Spec c))))"

definition withContainers :: "container list \<Rightarrow> capp \<Rightarrow> capp" where
  "withContainers cs capp =
     (let conf = cs_ConfigurationSpec (Spec capp); tmpl = Template conf; rev = tmpl_Spec tmpl in
      capp\<lparr>Spec := (Spec capp)\<lparr>cs_ConfigurationSpec :=
        conf\<lparr>Template := tmpl\<lparr>tmpl_Spec := rev\<lparr>rev_Containers := cs\<rparr>\<rparr>\<rparr>\<rparr>\<rparr>)"

fun mutateContainers :: "resource_list \<Rightarrow> resource_list \<Rightarrow> container list \<Rightarrow> container list result" where
  "mutateContainers defaultRequests defaultLimits [] = Ok []"
| "mutateContainers defaultRequests defaultLimits (c # cs) =
     rbind (mutateContainer defaultRequests defaultLimits c) (\<lambda>c.
     rbind (mutateContainers defaultRequests defaultLimits cs) (\<lambda>cs. Ok (c # cs)))"

definition mutateResources :: "resource_list \<Rightarrow> resource_list \<Rightarrow> capp \<Rightarrow> capp result" where
  "mutateResources defaultRequests defaultLimits capp =
     rbind (mutateContainers defaultRequests defaultLimits (containers_of capp)) (\<lambda>cs.
       Ok (withContainers cs capp))"

definition mutator_handle :: "capp_config \<Rightarrow> string \<Rightarrow> capp \<Rightarrow> capp result" where
  "mutator_handle cappConfig username capp =
     rbind (mutateAnnotations username capp)
       (mutateResources (cfg_DefaultRequests (Spec cappConfig)) (cfg_DefaultLimits (Spec cappConfig)))"

definition StatusBadRequest :: nat where "StatusBadRequest = 400"
definition StatusInternalServerError :: nat where "StatusInternalServerError = 500"

definition mutator_Handle ::
  "(opaque \<Rightarrow> capp result) \<Rightarrow> (capp \<Rightarrow> opaque result) \<Rightarrow> client \<Rightarrow> admission_request \<Rightarrow>
   response act" where
  "mutator_Handle decode marshal cl req =
     (if req_SubResource req = ''status'' then ok (Allowed [])
      else
        handle (lift (decode (req_Object req)))
          (\<lambda>err. ok (Errored StatusBadRequest err))
          (\<lambda>capp.
             if DeletionTimestamp (Meta capp) \<noteq> None then ok (Allowed ''object is being deleted'')
             else
               handle (GetCappConfig cl)
                 (\<lambda>err. ok (Errored StatusInternalServerError err))
                 (\<lambda>cappConfig.
                    andThen (lift (mutator_handle cappConfig (req_Username req) capp)) (\<lambda>capp.
                      handle (lift (marshal capp))
                        (\<lambda>err. ok (Errored StatusInternalServerError err))
                        (\<lambda>raw. ok (PatchResponseFromRaw (req_Object req) raw))))))"

section \<open>validator.go: the checks\<close>

definition check :: "bool \<Rightarrow> string \<Rightarrow> unit result" where
  "check b msg = (if b then Err (new_error msg) else Ok ())"

definition validateHostnameImmutability :: "operation \<Rightarrow> capp \<Rightarrow> capp option \<Rightarrow> unit result" where
  "validateHostnameImmutability operation capp oldCapp =
     (if operation \<noteq> Update then Ok ()
      else
        (case oldCapp of
           None \<Rightarrow> Panic ''nil pointer dereference''
         | Some old \<Rightarrow>
             (let oldHostname = rt_Hostname (cs_RouteSpec (Spec old));
                  newHostname = rt_Hostname (cs_RouteSpec (Spec capp))
              in if oldHostname = newHostname \<or> oldHostname = [] then Ok ()
                 else Err (new_error ''spec.routeSpec.hostname is immutable once set''))))"

definition mountedVolumes :: "capp \<Rightarrow> string set" where
  "mountedVolumes capp =
     set (concat (map (\<lambda>c. map vm_Name (ctr_VolumeMounts c))
       (rev_Containers (tmpl_Spec (Template (cs_ConfigurationSpec (Spec capp)))))))"

text \<open>\<open>missingVolumes\<close> is a set, collected and sorted for the message.\<close>

definition missingVolumeNames :: "capp \<Rightarrow> string list" where
  "missingVolumeNames capp =
     sort (remdups (filter (\<lambda>n. n \<notin> mountedVolumes capp) (map nfs_Name (cs_NFSVolumes (Spec capp)))))"

definition validateNFSVolumeMounts :: "capp \<Rightarrow> unit result" where
  "validateNFSVolumeMounts capp =
     (if length (cs_NFSVolumes (Spec capp)) = 0 then Ok ()
      else if missingVolumeNames capp = [] then Ok ()
      else Err (new_error (''invalid nfsVolumes: volumes ['' @ Join (missingVolumeNames capp) '', ''
             @ ''] must be mounted by at least one container'')))"

fun hasKeys :: "secret \<Rightarrow> string \<Rightarrow> string list \<Rightarrow> unit result" where
  "hasKeys secret name [] = Ok ()"
| "hasKeys secret name (k # ks) =
     (let data = fmlookup (sec_Data (Spec secret)) k;
          stringData = fmlookup (sec_StringData (Spec secret)) k
      in if (case data of Some v \<Rightarrow> length v > 0 | None \<Rightarrow> False) then hasKeys secret name ks
         else if (case stringData of Some v \<Rightarrow> v \<noteq> [] | None \<Rightarrow> False) then hasKeys secret name ks
         else Err (new_error (''secret '' @ fmt_q name @ '' is missing required key '' @ fmt_q k)))"

definition validateSecretHasKeys :: "client \<Rightarrow> string \<Rightarrow> string \<Rightarrow> string list \<Rightarrow> unit act" where
  "validateSecretHasKeys cl namespace name requiredKeys =
     handle (kget (c_secrets cl) namespace name)
       (\<lambda>err. if IsNotFound err
              then throw (new_error (''secret '' @ fmt_q name @ '' not found in namespace ''
                                     @ fmt_q namespace))
              else throw (wrap (''failed to look up secret '' @ fmt_q name) err))
       (\<lambda>secret. lift (hasKeys secret name requiredKeys))"

definition eventSourcePath :: string where "eventSourcePath = ''spec.eventSourcesSpec.sources''"

definition validatePingSourceConfiguration :: "lib \<Rightarrow> ping_source_configuration \<Rightarrow> unit result" where
  "validatePingSourceConfiguration l cfg =
     (let schedule = (if pc_Schedule cfg = [] then ''* * * * *'' else pc_Schedule cfg)
      in case l_ValidatePingSource l schedule (pc_Data cfg) of
           Some e \<Rightarrow> Err (new_error e)
         | None \<Rightarrow> Ok ())"

definition validateKafkaSourceConsumers :: "kafka_source_configuration \<Rightarrow> i32 \<Rightarrow> unit result" where
  "validateKafkaSourceConsumers cfg maxKafkaConsumers =
     (case kc_Consumers cfg of
        None \<Rightarrow> Ok ()
      | Some consumers \<Rightarrow>
          if igt consumers maxKafkaConsumers
          then Err (new_error (''invalid consumers '' @ fmt_d consumers
                 @ '': must be less than or equal to global max kafka consumers ''
                 @ fmt_d maxKafkaConsumers))
          else Ok ())"

definition sourcePath :: "nat \<Rightarrow> string" where
  "sourcePath i = eventSourcePath @ ''['' @ dec_nat i @ '']''"

definition validateSource ::
  "lib \<Rightarrow> client \<Rightarrow> capp \<Rightarrow> i32 \<Rightarrow> nat \<Rightarrow> source_configuration \<Rightarrow> unit act" where
  "validateSource l cl capp maxKafkaConsumers i src =
     (case src_Ping src of
        Some cfg \<Rightarrow> wrapErr (sourcePath i) (lift (validatePingSourceConfiguration l cfg))
      | None \<Rightarrow>
          (case src_Kafka src of
             Some cfg \<Rightarrow>
               andThen (wrapErr (sourcePath i)
                          (validateSecretHasKeys cl (Namespace (Meta capp)) (kc_SecretRefName cfg)
                             [SaslUserKey, SaslPasswordKey, SaslMechanismKey])) (\<lambda>_.
                 wrapErr (sourcePath i)
                   (lift (validateKafkaSourceConsumers cfg maxKafkaConsumers)))
           | None \<Rightarrow> ok ()))"

text \<open>The loop over the sources: \<open>seen\<close> are the names before index \<open>i\<close>.\<close>

fun validateSources ::
  "lib \<Rightarrow> client \<Rightarrow> capp \<Rightarrow> i32 \<Rightarrow> string set \<Rightarrow> nat \<Rightarrow> source_configuration list \<Rightarrow> unit act"
where
  "validateSources l cl capp maxKafkaConsumers seen i [] = ok ()"
| "validateSources l cl capp maxKafkaConsumers seen i (src # srcs) =
     (if src_Name src \<in> seen
      then throw (new_error (sourcePath i @ ''.name: duplicate value '' @ fmt_q (src_Name src)))
      else andThen (validateSource l cl capp maxKafkaConsumers i src) (\<lambda>_.
             validateSources l cl capp maxKafkaConsumers (insert (src_Name src) seen) (i + 1) srcs))"

definition validateEventSources :: "lib \<Rightarrow> client \<Rightarrow> capp \<Rightarrow> i32 \<Rightarrow> unit act" where
  "validateEventSources l cl capp maxKafkaConsumers =
     validateSources l cl capp maxKafkaConsumers {} 0 (cs_Sources (Spec capp))"

definition autoscalingGroupName :: string where
  "autoscalingGroupName = ''autoscaling.knative.dev''"

definition validateTemplateAnnotations :: "lib \<Rightarrow> capp \<Rightarrow> unit result" where
  "validateTemplateAnnotations l capp =
     (case find (\<lambda>key. HasPrefix key (autoscalingGroupName @ ''/''))
             (l_MapKeys l (tmpl_Annotations (Template (cs_ConfigurationSpec (Spec capp))))) of
        Some key \<Rightarrow> Err (new_error (''forbidden annotation '' @ fmt_q key
          @ '' in template annotations: autoscaling annotations are derived by the operator and cannot be set directly''))
      | None \<Rightarrow> Ok ())"

definition validateScaleSpec :: "capp \<Rightarrow> autoscale_config \<Rightarrow> unit result" where
  "validateScaleSpec capp autoscaleConfig =
     (let minReplicas = sc_MinReplicas (cs_ScaleSpec (Spec capp));
          maxReplicas = sc_MaxReplicas (cs_ScaleSpec (Spec capp));
          scaleDelay = sc_ScaleDelaySeconds (cs_ScaleSpec (Spec capp))
      in
      rbind (case minReplicas of
               Some n \<Rightarrow> check (igt (int_of_i32 n) (as_MinReplicasLimit autoscaleConfig))
                 (''invalid minReplicas '' @ fmt_d n
                  @ '': must be less than or equal to global min scale ''
                  @ fmt_d (as_MinReplicasLimit autoscaleConfig))
             | None \<Rightarrow> Ok ()) (\<lambda>_.
      rbind (case maxReplicas of
               Some n \<Rightarrow> check (igt (int_of_i32 n) (as_MaxReplicasLimit autoscaleConfig))
                 (''invalid maxReplicas '' @ fmt_d n
                  @ '': must be less than or equal to global max scale ''
                  @ fmt_d (as_MaxReplicasLimit autoscaleConfig))
             | None \<Rightarrow> Ok ()) (\<lambda>_.
      rbind (case (maxReplicas, minReplicas) of
               (Some mx, Some mn) \<Rightarrow> check (ilt mx mn)
                 (''invalid maxReplicas '' @ fmt_d mx
                  @ '': must be greater than or equal to minReplicas '' @ fmt_d mn)
             | _ \<Rightarrow> Ok ()) (\<lambda>_.
      rbind (case (maxReplicas, minReplicas) of
               (Some mx, None) \<Rightarrow> check (ilt (int_of_i32 mx) (as_ActivationScale autoscaleConfig))
                 (''invalid maxReplicas '' @ fmt_d mx
                  @ '': must be greater than or equal to activationScale ''
                  @ fmt_d (as_ActivationScale autoscaleConfig))
             | _ \<Rightarrow> Ok ()) (\<lambda>_.
      (case scaleDelay of
         Some n \<Rightarrow> check (igt (int_of_i32 n) (as_MaxScaleDelay autoscaleConfig))
           (''invalid scaleDelaySeconds '' @ fmt_d n
            @ '': must be less than or equal to global max scale delay ''
            @ fmt_d (as_MaxScaleDelay autoscaleConfig))
       | None \<Rightarrow> Ok ()))))))"

subsection \<open>Host names\<close>

definition ErrGeneric :: "string \<Rightarrow> string \<Rightarrow> field_error" where
  "ErrGeneric msg path = \<lparr>fe_Message = msg, fe_Path = [path]\<rparr>"

definition ViaField :: "field_error \<Rightarrow> string \<Rightarrow> field_error" where
  "ViaField e f = e\<lparr>fe_Path := f # fe_Path e\<rparr>"

text \<open>
  The loop over the patterns: the errors and descriptions gathered, and whether one matched.
\<close>

fun matchPatterns ::
  "lib \<Rightarrow> string \<Rightarrow> nat \<Rightarrow> hostname_pattern list \<Rightarrow> field_error list \<times> string list \<times> bool" where
  "matchPatterns l domainName i [] = ([], [], False)"
| "matchPatterns l domainName i (hp # hps) =
     (case l_RegexpCompile l (hp_Match hp) of
        Inl err \<Rightarrow>
          (let (errs, descriptions, matched) = matchPatterns l domainName (i + 1) hps
           in (ErrGeneric (''invalid pattern '' @ fmt_q (hp_Match hp) @ '': '' @ err)
                 (''allowedHostnamePatterns['' @ dec_nat i @ ''].pattern'') # errs,
               descriptions, matched))
      | Inr re \<Rightarrow>
          (let description = (if hp_Explanation hp \<noteq> [] then hp_Explanation hp else hp_Match hp)
           in if re domainName then ([], [description], True)
              else (let (errs, descriptions, matched) = matchPatterns l domainName (i + 1) hps
                    in (errs, description # descriptions, matched))))"

definition validateDomainName :: "lib \<Rightarrow> string \<Rightarrow> hostname_pattern list \<Rightarrow> field_error list" where
  "validateDomainName l domainName allowedPatterns =
     (if domainName = [] then []
      else
        (let fqdn = (case l_IsFQDN l domainName of
                       Some e \<Rightarrow> [ErrGeneric (''invalid name '' @ fmt_q domainName @ '': '' @ e)
                                   ''name'']
                     | None \<Rightarrow> []);
             (errs, descriptions, matched) = matchPatterns l domainName 0 allowedPatterns;
             msg = ''invalid name '' @ fmt_q domainName
                   @ '': must match one of the allowed patterns'';
             msg = (if length descriptions > 0
                    then msg @ '' ('' @ Join descriptions '', '' @ '')'' else msg);
             unmatched = (if \<not> matched
                          then [ViaField (ViaField (ErrGeneric msg ''name'') ''routeSpec'')
                                 ''hostname'']
                          else []);
             local = (if HasSuffix domainName (''.'' @ l_ClusterDomain l)
                      then [ErrGeneric (''invalid name '' @ fmt_q domainName
                              @ '': must not be a subdomain of cluster local domain ''
                              @ fmt_q (l_ClusterDomain l)) ''name'']
                      else [])
         in fqdn @ errs @ unmatched @ local))"

definition isDomainNameTaken :: "lib \<Rightarrow> string \<Rightarrow> bool result" where
  "isDomainNameTaken l domainName =
     (case l_LookupHost l domainName of
        None \<Rightarrow> Ok True
      | Some (err, isNotFound) \<Rightarrow>
          if isNotFound then Ok False else Err (new_error err))"

section \<open>validator.go: the handlers\<close>

text \<open>\<open>if err := ..; err != nil { return Denied(err.Error()) }\<close>.\<close>

definition denyOn :: "'a act \<Rightarrow> ('a \<Rightarrow> response act) \<Rightarrow> response act" where
  "denyOn m f = handle m (\<lambda>err. ok (Denied (err_text err))) f"

definition hostnameCheck ::
  "lib \<Rightarrow> operation \<Rightarrow> capp \<Rightarrow> capp option \<Rightarrow> hostname_pattern list \<Rightarrow> unit result" where
  "hostnameCheck l operation capp oldCapp patterns =
     (let hostname = rt_Hostname (cs_RouteSpec (Spec capp)) in
      rbind (if operation = Create then Ok True
             else (case oldCapp of
                     None \<Rightarrow> Panic ''nil pointer dereference''
                   | Some old \<Rightarrow> Ok (hostname \<noteq> rt_Hostname (cs_RouteSpec (Spec old))))) (\<lambda>b.
      if \<not> b then Ok ()
      else if validateDomainName l hostname patterns \<noteq> []
      then Err (new_error (l_FieldErrorText l (validateDomainName l hostname patterns)))
      else (case isDomainNameTaken l hostname of
              Err err \<Rightarrow> Err (new_error (''hostname check error: '' @ err_text err))
            | Panic p \<Rightarrow> Panic p
            | Ok taken \<Rightarrow>
                if taken
                then Err (new_error (''invalid name '' @ fmt_q hostname
                       @ '': hostname must be unique and not already taken''))
                else Ok ())))"

definition validator_handle ::
  "lib \<Rightarrow> client \<Rightarrow> operation \<Rightarrow> capp \<Rightarrow> capp option \<Rightarrow> response act" where
  "validator_handle l cl operation capp oldCapp =
     handle (GetCappConfig cl) (\<lambda>err. ok (Denied ''Failed to fetch CappConfig'')) (\<lambda>config.
     denyOn (lift (validateHostnameImmutability operation capp oldCapp)) (\<lambda>_.
     denyOn (lift (hostnameCheck l operation capp oldCapp
                     (cfg_AllowedHostnamePatterns (Spec config)))) (\<lambda>_.
     denyOn (if log_PasswordSecret (cs_LogSpec (Spec capp)) \<noteq> []
             then validateSecretHasKeys cl (Namespace (Meta capp))
                    (log_PasswordSecret (cs_LogSpec (Spec capp))) [elasticSecretKey]
             else ok ()) (\<lambda>_.
     denyOn (lift (validateNFSVolumeMounts capp)) (\<lambda>_.
     denyOn (validateEventSources l cl capp (cfg_MaxKafkaConsumers (Spec config))) (\<lambda>_.
     denyOn (lift (validateTemplateAnnotations l capp)) (\<lambda>_.
     denyOn (lift (validateScaleSpec capp (cfg_AutoscaleConfig (Spec config)))) (\<lambda>_.
       ok (Allowed [])))))))))"

definition validator_Handle ::
  "lib \<Rightarrow> (opaque \<Rightarrow> capp result) \<Rightarrow> client \<Rightarrow> admission_request \<Rightarrow> response act" where
  "validator_Handle l decode cl req =
     handle (lift (decode (req_Object req)))
       (\<lambda>err. ok (Errored StatusBadRequest err))
       (\<lambda>capp.
          if DeletionTimestamp (Meta capp) \<noteq> None then ok (Allowed ''object is being deleted'')
          else if req_Operation req = Update
          then handle (lift (decode (req_OldObject req)))
                 (\<lambda>err. ok (Errored StatusBadRequest err))
                 (\<lambda>oldCapp. validator_handle l cl (req_Operation req) capp (Some oldCapp))
          else validator_handle l cl (req_Operation req) capp None)"

end
