(* ===== verification/SampleWorld.thy ===== *)
theory SampleWorld
  imports ManagerHelpers
begin

text \<open>
  A small concrete cluster: a Capp that uses every part of the operator, its configuration
  and the secrets it refers to. The theorems with hypotheses are applied to it, with the
  in-memory client and library, to show that their hypotheses can hold.
\<close>

definition sampleContainer :: container where
  "sampleContainer =
     \<lparr>ctr_Name = ''main'', ctr_VolumeMounts = [\<lparr>vm_Name = ''data'', vm_rest = []\<rparr>],
      ctr_Requests = fmap_of_list [(''cpu'', 100)], ctr_Limits = fmempty, ctr_rest = []\<rparr>"

definition sampleRevisionSpec :: revision_spec where
  "sampleRevisionSpec =
     \<lparr>rev_Containers = [sampleContainer], rev_Volumes = [], rev_EnableServiceLinks = None,
      rev_TimeoutSeconds = None, rev_rest = []\<rparr>"

definition sampleSources :: "source_configuration list" where
  "sampleSources =
     [\<lparr>src_Name = ''tick'', src_URI = None,
       src_Ping = Some \<lparr>pc_Schedule = [], pc_Data = []\<rparr>, src_Kafka = None\<rparr>,
      \<lparr>src_Name = ''orders'', src_URI = None, src_Ping = None,
       src_Kafka = Some \<lparr>kc_BootstrapServers = [''k:9092''], kc_Topics = [''orders''],
         kc_ConsumerGroup = ''g'', kc_Consumers = Some 2, kc_SecretRefName = ''kafka''\<rparr>\<rparr>]"

definition sampleSpec :: capp_spec where
  "sampleSpec =
     \<lparr>cs_State = ''enabled'',
      cs_ScaleSpec = \<lparr>sc_Metric = ''rps'', sc_MinReplicas = Some 1, sc_MaxReplicas = Some 3,
                      sc_ScaleDelaySeconds = None\<rparr>,
      cs_ConfigurationSpec = \<lparr>Template = \<lparr>tmpl_Labels = fmempty, tmpl_Annotations = fmempty,
        tmpl_rest = [], tmpl_Spec = sampleRevisionSpec\<rparr>\<rparr>,
      cs_RouteSpec = \<lparr>rt_Hostname = ''shop.z.io'', rt_TlsEnabled = True, rt_TrafficTarget = [],
                      rt_RouteTimeoutSeconds = None\<rparr>,
      cs_LogSpec = \<lparr>log_Type = ''elastic'', log_Host = ''es'', log_Index = ''i'', log_User = ''u'',
                    log_PasswordSecret = ''elastic''\<rparr>,
      cs_NFSVolumes = [\<lparr>nfs_Server = ''nfs'', nfs_Path = ''/d'', nfs_Name = ''data'',
                        nfs_Capacity = fmap_of_list [(''storage'', 1)]\<rparr>],
      cs_Sources = sampleSources\<rparr>"

definition zeroCappStatus :: capp_status where
  "zeroCappStatus =
     \<lparr>cst_KnativeObjectStatus = zeroServiceStatus, cst_RevisionInfo = [],
      cst_StateStatus = \<lparr>ss_State = [], ss_LastChange = None\<rparr>,
      cst_LoggingStatus = zeroLoggingStatus,
      cst_RouteStatus = \<lparr>rs_DomainMapping = zeroConditioned, rs_DNSRecord = zeroConditioned,
                         rs_Certificate = zeroConditioned\<rparr>,
      cst_VolumesStatus = [], cst_EventingStatus = [], cst_Conditions = []\<rparr>"

definition sampleCapp :: capp where
  "sampleCapp =
     \<lparr>TypeKind = [], Meta = (newMeta ''web'' ''team'' fmempty)
        \<lparr>UID := ''u1'', Finalizers := [''dana.io/capp-cleanup'']\<rparr>,
      Spec = sampleSpec, Status = zeroCappStatus\<rparr>"

definition sampleConfig :: capp_config where
  "sampleConfig =
     \<lparr>TypeKind = [], Meta = newMeta CappConfigName CappNS fmempty,
      Spec = \<lparr>cfg_DNSConfig = \<lparr>dns_Zone = ''z.io.'', dns_CNAME = ''ingress.z.io.'',
                dns_Provider = ''dns'',
                dns_IssuerRef = \<lparr>ir_Name = ''ca'', ir_Kind = ''ClusterIssuer'', ir_Group = ''cm''\<rparr>\<rparr>,
              cfg_AutoscaleConfig = \<lparr>as_RPS = 200, as_CPU = 80, as_Memory = 70,
                as_Concurrency = 10, as_ActivationScale = 2, as_MinReplicasLimit = 3,
                as_MaxReplicasLimit = 10, as_MaxScaleDelay = 600\<rparr>,
              cfg_DefaultRequests = fmap_of_list [(''cpu'', 50), (''memory'', 64)],
              cfg_DefaultLimits = fmap_of_list [(''memory'', 128)],
              cfg_AllowedHostnamePatterns = [\<lparr>hp_Match = ''.io'', hp_Explanation = []\<rparr>],
              cfg_RevisionHistoryLimit = 2, cfg_MaxKafkaConsumers = 5\<rparr>,
      Status = ()\<rparr>"

definition sampleSecret :: "string \<Rightarrow> string list \<Rightarrow> secret" where
  "sampleSecret n ks =
     \<lparr>TypeKind = [], Meta = newMeta n ''team'' fmempty,
      Spec = \<lparr>sec_Data = fmap_of_list (map (\<lambda>k. (k, ''x'')) ks), sec_StringData = fmempty\<rparr>,
      Status = ()\<rparr>"

definition emptyWorld :: world where
  "emptyWorld =
     \<lparr>capps = [], cappconfigs = [], capprevisions = [], ksvcs = [], knrevisions = [],
      nfspvcs = [], outputs = [], flows = [], certificates = [], domainmappings = [],
      cnamerecords = [], pingsources = [], kafkasources = [], secrets = [], events = [],
      clock = 0\<rparr>"

definition sampleWorld :: world where
  "sampleWorld = emptyWorld
     \<lparr>capps := [sampleCapp], cappconfigs := [sampleConfig],
      secrets := [sampleSecret ''elastic'' [''elastic''],
                  sampleSecret ''kafka'' [''user'', ''password'', ''sasl.mechanism'']]\<rparr>"

lemmas sample_defs = sampleCapp_def sampleSpec_def sampleSources_def sampleRevisionSpec_def
  sampleContainer_def zeroCappStatus_def newMeta_def

lemma emptyWorld_tables [simp]:
  "capps emptyWorld = []" "cappconfigs emptyWorld = []" "capprevisions emptyWorld = []"
  "ksvcs emptyWorld = []" "knrevisions emptyWorld = []" "nfspvcs emptyWorld = []"
  "outputs emptyWorld = []" "flows emptyWorld = []" "certificates emptyWorld = []"
  "domainmappings emptyWorld = []" "cnamerecords emptyWorld = []" "pingsources emptyWorld = []"
  "kafkasources emptyWorld = []" "secrets emptyWorld = []" "events emptyWorld = []"
  "clock emptyWorld = 0"
  by (simp_all add: emptyWorld_def)

lemma sampleWorld_tables [simp]:
  "capps sampleWorld = [sampleCapp]" "cappconfigs sampleWorld = [sampleConfig]"
  "capprevisions sampleWorld = []" "ksvcs sampleWorld = []" "knrevisions sampleWorld = []"
  "nfspvcs sampleWorld = []" "outputs sampleWorld = []" "flows sampleWorld = []"
  "certificates sampleWorld = []" "domainmappings sampleWorld = []"
  "cnamerecords sampleWorld = []" "pingsources sampleWorld = []" "kafkasources sampleWorld = []"
  "secrets sampleWorld = [sampleSecret ''elastic'' [''elastic''],
     sampleSecret ''kafka'' [''user'', ''password'', ''sasl.mechanism'']]"
  "events sampleWorld = []" "clock sampleWorld = 0"
  by (simp_all add: sampleWorld_def)

lemma tlookup_Nil [simp]: "tlookup [] k = None"
  and tlookup_Cons: "tlookup (r # t) k = (if key_of r = k then Some r else tlookup t k)"
  by (simp_all add: tlookup_def)

lemma sample_keys [simp]:
  "key_of sampleCapp = NamespacedName ''team'' ''web''"
  "key_of sampleConfig = NamespacedName CappNS CappConfigName"
  "key_of (sampleSecret n ks) = NamespacedName ''team'' n"
  by (simp_all add: key_of_def sample_defs sampleConfig_def sampleSecret_def)

lemma sample_stored [simp]:
  "tlookup [sampleCapp] (NamespacedName ''team'' ''web'') = Some sampleCapp"
  "tlookup [sampleConfig] (NamespacedName CappNS CappConfigName) = Some sampleConfig"
  by (simp_all add: tlookup_Cons)

lemma sample_meta [simp]:
  "Name (Meta sampleCapp) = ''web''" "Namespace (Meta sampleCapp) = ''team''"
  "DeletionTimestamp (Meta sampleCapp) = None"
  "Finalizers (Meta sampleCapp) = [''dana.io/capp-cleanup'']"
  by (simp_all add: sample_defs)

end
