(* ===== verification/WebhookAdmission.thy ===== *)
theory WebhookAdmission
  imports CappWebhooks SampleWorld
begin

text \<open>
  What the webhooks promise. \<open>admissible\<close> is the validator's contract, as a predicate of the
  request and of the stored objects; the handler refines it check by check, each check
  reading the world without changing it. The mutator only fills in what is missing, and
  doing so twice is doing it once.
\<close>

section \<open>Checks\<close>

text \<open>
  \<open>checks m w P\<close>: in \<open>w\<close> the action \<open>m\<close> changes nothing, and succeeds exactly when \<open>P\<close> holds;
  \<open>admits a w P\<close> says the same of an action that answers with an admission response.
\<close>

definition checks :: "('w, unit) action \<Rightarrow> 'w \<Rightarrow> bool \<Rightarrow> bool" where
  "checks m w P \<longleftrightarrow> (if P then m w = (Ok (), w) else (\<exists>e. m w = (Err e, w)))"

definition admits :: "response act \<Rightarrow> world \<Rightarrow> bool \<Rightarrow> bool" where
  "admits a w P \<longleftrightarrow>
     (if P then a w = (Ok (Allowed []), w) else (\<exists>msg. a w = (Ok (Denied msg), w)))"

named_theorems check_intros

lemma checks_andThen [check_intros]:
  assumes "checks m w P" "P \<Longrightarrow> checks (f ()) w Q"
  shows "checks (andThen m f) w (P \<and> Q)"
  using assms by (cases P) (auto simp: checks_def andThen_def handle_def)

lemma checks_wrapErr [check_intros]: "checks m w P \<Longrightarrow> checks (wrapErr s m) w P"
  by (cases P) (auto simp: checks_def wrapErr_def handle_def)

lemma checks_ok [check_intros]: "checks (ok ()) w True"
  by (simp add: checks_def)

lemma checks_lift [check_intros]:
  "(if P then r = Ok () else (\<exists>e. r = Err e)) \<Longrightarrow> checks (lift r) w P"
  by (cases P) (auto simp: checks_def)

lemma admits_denyOn [check_intros]:
  assumes "checks m w P" "P \<Longrightarrow> admits (f ()) w Q"
  shows "admits (denyOn m f) w (P \<and> Q)"
  using assms by (cases P) (auto simp: checks_def admits_def denyOn_def handle_def)

lemma admits_handle: "m w = (Ok x, w) \<Longrightarrow> admits (f x) w P \<Longrightarrow> admits (handle m h f) w P"
  by (simp add: admits_def handle_def)

lemma admits_Allowed [check_intros]: "admits (ok (Allowed [])) w True"
  by (simp add: admits_def)

section \<open>The abstract specification of the validator\<close>

definition scale_ok :: "autoscale_config \<Rightarrow> scale_spec \<Rightarrow> bool" where
  "scale_ok limits sc \<longleftrightarrow>
     (case sc_MinReplicas sc of Some mn \<Rightarrow> sint mn \<le> sint (as_MinReplicasLimit limits) | None \<Rightarrow> True)
     \<and> (case sc_MaxReplicas sc of
          Some mx \<Rightarrow> sint mx \<le> sint (as_MaxReplicasLimit limits)
            \<and> (case sc_MinReplicas sc of
                 Some mn \<Rightarrow> sint mn \<le> sint mx
               | None \<Rightarrow> sint (as_ActivationScale limits) \<le> sint mx)
        | None \<Rightarrow> True)
     \<and> (case sc_ScaleDelaySeconds sc of
          Some d \<Rightarrow> sint d \<le> sint (as_MaxScaleDelay limits) | None \<Rightarrow> True)"

definition volumes_mounted :: "capp \<Rightarrow> bool" where
  "volumes_mounted c \<longleftrightarrow> (\<forall>v \<in> set (cs_NFSVolumes (Spec c)). nfs_Name v \<in> mountedVolumes c)"

definition has_key :: "secret \<Rightarrow> string \<Rightarrow> bool" where
  "has_key s k \<longleftrightarrow>
     (\<exists>v. v \<noteq> [] \<and> (fmlookup (sec_Data (Spec s)) k = Some v \<or> fmlookup (sec_StringData (Spec s)) k = Some v))"

definition secret_with :: "world \<Rightarrow> string \<Rightarrow> string \<Rightarrow> string list \<Rightarrow> bool" where
  "secret_with w ns n ks \<longleftrightarrow>
     (case tlookup (secrets w) (NamespacedName ns n) of
        None \<Rightarrow> False | Some s \<Rightarrow> list_all (has_key s) ks)"

definition kafka_secret_keys :: "string list" where
  "kafka_secret_keys = [SaslUserKey, SaslPasswordKey, SaslMechanismKey]"

definition source_ok :: "lib \<Rightarrow> world \<Rightarrow> string \<Rightarrow> i32 \<Rightarrow> source_configuration \<Rightarrow> bool" where
  "source_ok l w ns mx src \<longleftrightarrow>
     (case src_Ping src of
        Some cfg \<Rightarrow> l_ValidatePingSource l
            (if pc_Schedule cfg = [] then ''* * * * *'' else pc_Schedule cfg) (pc_Data cfg) = None
      | None \<Rightarrow>
          (case src_Kafka src of
             Some cfg \<Rightarrow> secret_with w ns (kc_SecretRefName cfg) kafka_secret_keys
               \<and> (case kc_Consumers cfg of Some n \<Rightarrow> sint n \<le> sint mx | None \<Rightarrow> True)
           | None \<Rightarrow> True))"

definition sources_ok :: "lib \<Rightarrow> world \<Rightarrow> capp_config \<Rightarrow> capp \<Rightarrow> bool" where
  "sources_ok l w g c \<longleftrightarrow>
     distinct (map src_Name (cs_Sources (Spec c)))
     \<and> (\<forall>s \<in> set (cs_Sources (Spec c)).
           source_ok l w (Namespace (Meta c)) (cfg_MaxKafkaConsumers (Spec g)) s)"

definition template_annotations_ok :: "capp \<Rightarrow> bool" where
  "template_annotations_ok c \<longleftrightarrow>
     (\<forall>k \<in> fset (fmdom (tmpl_Annotations (Template (cs_ConfigurationSpec (Spec c))))).
        \<not> HasPrefix k ''autoscaling.knative.dev/'')"

text \<open>
  The pattern that decides: all before it compile and do not match, it compiles and does.
\<close>

definition pattern_matches :: "lib \<Rightarrow> hostname_pattern list \<Rightarrow> string \<Rightarrow> bool" where
  "pattern_matches l hps h \<longleftrightarrow>
     (\<exists>pre hp post re. hps = pre @ hp # post \<and> l_RegexpCompile l (hp_Match hp) = Inr re \<and> re h
        \<and> (\<forall>q \<in> set pre. \<exists>r. l_RegexpCompile l (hp_Match q) = Inr r \<and> \<not> r h))"

definition hostname_ok :: "lib \<Rightarrow> hostname_pattern list \<Rightarrow> string \<Rightarrow> bool" where
  "hostname_ok l hps h \<longleftrightarrow>
     (h \<noteq> [] \<longrightarrow> l_IsFQDN l h = None \<and> pattern_matches l hps h
        \<and> \<not> HasSuffix h (''.'' @ l_ClusterDomain l))"

definition not_taken :: "lib \<Rightarrow> string \<Rightarrow> bool" where
  "not_taken l h \<longleftrightarrow> (\<exists>e. l_LookupHost l h = Some (e, True))"

definition hostname_of :: "capp \<Rightarrow> string" where
  "hostname_of c = rt_Hostname (cs_RouteSpec (Spec c))"

text \<open>The old Capp is there exactly for updates.\<close>

definition route_ok ::
  "lib \<Rightarrow> capp_config \<Rightarrow> capp \<Rightarrow> capp option \<Rightarrow> bool" where
  "route_ok l g c old \<longleftrightarrow>
     (case old of
        None \<Rightarrow> hostname_ok l (cfg_AllowedHostnamePatterns (Spec g)) (hostname_of c)
          \<and> not_taken l (hostname_of c)
      | Some old \<Rightarrow> hostname_of c = hostname_of old
          \<or> hostname_of old = []
             \<and> hostname_ok l (cfg_AllowedHostnamePatterns (Spec g)) (hostname_of c)
             \<and> not_taken l (hostname_of c))"

definition log_secret_ok :: "world \<Rightarrow> capp \<Rightarrow> bool" where
  "log_secret_ok w c \<longleftrightarrow>
     (log_PasswordSecret (cs_LogSpec (Spec c)) \<noteq> [] \<longrightarrow>
        secret_with w (Namespace (Meta c)) (log_PasswordSecret (cs_LogSpec (Spec c))) [elasticSecretKey])"

definition admissible ::
  "lib \<Rightarrow> world \<Rightarrow> capp_config \<Rightarrow> capp \<Rightarrow> capp option \<Rightarrow> bool" where
  "admissible l w g c old \<longleftrightarrow>
     route_ok l g c old \<and> log_secret_ok w c \<and> volumes_mounted c \<and> sources_ok l w g c
     \<and> template_annotations_ok c
     \<and> scale_ok (cfg_AutoscaleConfig (Spec g)) (cs_ScaleSpec (Spec c))"

section \<open>The checks, one by one\<close>

lemma check_Ok: "check b msg = Ok () \<longleftrightarrow> \<not> b"
  and check_cases: "if b then \<exists>e. check b msg = Err e else check b msg = Ok ()"
  by (simp_all add: check_def)

lemma validateScaleSpec_verdict:
  "if scale_ok a (cs_ScaleSpec (Spec c)) then validateScaleSpec c a = Ok ()
   else (\<exists>e. validateScaleSpec c a = Err e)"
  by (simp add: validateScaleSpec_def scale_ok_def Let_def check_def igt_def ilt_def not_less not_le
      split: option.split)

lemma missingVolumeNames_empty: "missingVolumeNames c = [] \<longleftrightarrow> volumes_mounted c"
proof -
  have "missingVolumeNames c = [] \<longleftrightarrow> set (missingVolumeNames c) = {}" by simp
  also have "\<dots> \<longleftrightarrow> volumes_mounted c"
    by (auto simp: missingVolumeNames_def volumes_mounted_def simp del: set_empty)
  finally show ?thesis .
qed

lemma validateNFSVolumeMounts_verdict:
  "if volumes_mounted c then validateNFSVolumeMounts c = Ok ()
   else (\<exists>e. validateNFSVolumeMounts c = Err e)"
  by (auto simp: validateNFSVolumeMounts_def missingVolumeNames_empty)
    (simp add: volumes_mounted_def)

lemma hasKeys_verdict:
  "if list_all (has_key s) ks then hasKeys s n ks = Ok () else (\<exists>e. hasKeys s n ks = Err e)"
  by (induction ks) (auto simp: has_key_def split: option.splits)

lemma checks_secret [check_intros]:
  assumes "kind_api (c_secrets cl) secrets secrets_update"
  shows "checks (validateSecretHasKeys cl ns n ks) w (secret_with w ns n ks)"
proof (cases "tlookup (secrets w) (NamespacedName ns n)")
  case None
  from kind_api.get_missing [OF assms None] show ?thesis
    using None by (auto simp: checks_def validateSecretHasKeys_def secret_with_def handle_def)
next
  case (Some s)
  from kind_api.get_found [OF assms Some] show ?thesis
    using Some hasKeys_verdict [of s ks n]
    by (auto simp: checks_def validateSecretHasKeys_def secret_with_def handle_def)
qed

lemma validateKafkaSourceConsumers_verdict:
  "if (case kc_Consumers cfg of Some n \<Rightarrow> sint n \<le> sint mx | None \<Rightarrow> True)
   then validateKafkaSourceConsumers cfg mx = Ok ()
   else (\<exists>e. validateKafkaSourceConsumers cfg mx = Err e)"
  by (simp add: validateKafkaSourceConsumers_def igt_def split: option.split)

lemma checks_source [check_intros]:
  assumes "kind_api (c_secrets cl) secrets secrets_update"
  shows "checks (validateSource l cl c mx i src) w (source_ok l w (Namespace (Meta c)) mx src)"
proof (cases "src_Ping src")
  case (Some cfg)
  then show ?thesis
    by (auto simp: validateSource_def source_ok_def validatePingSourceConfiguration_def Let_def
        checks_def wrapErr_def handle_def split: option.split)
next
  case ping: None
  show ?thesis
  proof (cases "src_Kafka src")
    case None
    with ping show ?thesis by (simp add: validateSource_def source_ok_def checks_ok)
  next
    case (Some cfg)
    have "checks (validateSource l cl c mx i src) w
       (secret_with w (Namespace (Meta c)) (kc_SecretRefName cfg) kafka_secret_keys
        \<and> (case kc_Consumers cfg of Some n \<Rightarrow> sint n \<le> sint mx | None \<Rightarrow> True))"
      unfolding validateSource_def kafka_secret_keys_def using ping Some
      by (simp, intro check_intros assms validateKafkaSourceConsumers_verdict)
    with ping Some show ?thesis by (simp add: source_ok_def)
  qed
qed

lemma checks_sources:
  assumes "kind_api (c_secrets cl) secrets secrets_update"
  shows "checks (validateSources l cl c mx seen i srcs) w
     (distinct (map src_Name srcs) \<and> set (map src_Name srcs) \<inter> seen = {}
      \<and> (\<forall>s \<in> set srcs. source_ok l w (Namespace (Meta c)) mx s))"
proof (induction srcs arbitrary: seen i)
  case Nil
  show ?case by (simp add: checks_def)
next
  case (Cons s srcs)
  show ?case
  proof (cases "src_Name s \<in> seen")
    case True
    then show ?thesis by (auto simp: checks_def)
  next
    case False
    let ?srcs = "validateSources l cl c mx (insert (src_Name s) seen) (i + 1) srcs"
    have "checks (andThen (validateSource l cl c mx i s) (\<lambda>_. ?srcs)) w
       (source_ok l w (Namespace (Meta c)) mx s
        \<and> distinct (map src_Name srcs) \<and> set (map src_Name srcs) \<inter> insert (src_Name s) seen = {}
        \<and> (\<forall>s \<in> set srcs. source_ok l w (Namespace (Meta c)) mx s))"
      by (intro checks_andThen checks_source assms Cons.IH)
    then have "checks (validateSources l cl c mx seen i (s # srcs)) w
       (source_ok l w (Namespace (Meta c)) mx s
        \<and> distinct (map src_Name srcs) \<and> set (map src_Name srcs) \<inter> insert (src_Name s) seen = {}
        \<and> (\<forall>s \<in> set srcs. source_ok l w (Namespace (Meta c)) mx s))"
      using False by simp
    then show ?thesis
      by (rule back_subst [of "checks _ w"]) (use False in auto)
  qed
qed

lemma checks_eventSources [check_intros]:
  assumes "kind_api (c_secrets cl) secrets secrets_update"
  shows "checks (validateEventSources l cl c (cfg_MaxKafkaConsumers (Spec g))) w (sources_ok l w g c)"
  using checks_sources [OF assms, of l c _ "{}" 0]
  by (simp add: validateEventSources_def sources_ok_def)

lemma autoscaling_prefix: "autoscalingGroupName @ ''/'' = ''autoscaling.knative.dev/''"
  by (simp add: autoscalingGroupName_def)

lemma validateTemplateAnnotations_verdict:
  assumes "map_keys_lib l"
  shows "if template_annotations_ok c then validateTemplateAnnotations l c = Ok ()
     else (\<exists>e. validateTemplateAnnotations l c = Err e)"
proof -
  let ?ks = "l_MapKeys l (tmpl_Annotations (Template (cs_ConfigurationSpec (Spec c))))"
  have "template_annotations_ok c
      \<longleftrightarrow> find (\<lambda>k. HasPrefix k (autoscalingGroupName @ ''/'')) ?ks = None"
    using assms unfolding autoscaling_prefix
    by (auto simp: template_annotations_ok_def find_None_iff map_keys_lib_def)
  then show ?thesis by (auto simp: validateTemplateAnnotations_def)
qed

section \<open>Host names\<close>

lemma pattern_matches_Nil: "\<not> pattern_matches l [] h"
  by (simp add: pattern_matches_def)

lemma pattern_matches_Cons:
  "pattern_matches l (hp # hps) h \<longleftrightarrow>
     (case l_RegexpCompile l (hp_Match hp) of
        Inl e \<Rightarrow> False
      | Inr re \<Rightarrow> re h \<or> pattern_matches l hps h)"
proof (cases "l_RegexpCompile l (hp_Match hp)")
  case (Inl e)
  then show ?thesis by (auto simp: pattern_matches_def Cons_eq_append_conv)
next
  case (Inr re)
  show ?thesis
  proof (cases "re h")
    case True
    with Inr have "pattern_matches l (hp # hps) h"
      unfolding pattern_matches_def by (intro exI [of _ "[]"]) auto
    with Inr True show ?thesis by simp
  next
    case False
    have "pattern_matches l (hp # hps) h" if "pattern_matches l hps h"
    proof -
      from that obtain pre p post re' where "hps = pre @ p # post"
        "l_RegexpCompile l (hp_Match p) = Inr re'" "re' h"
        "\<forall>q \<in> set pre. \<exists>r. l_RegexpCompile l (hp_Match q) = Inr r \<and> \<not> r h"
        by (auto simp: pattern_matches_def)
      with Inr False show ?thesis
        unfolding pattern_matches_def
        by (intro exI [of _ "hp # pre"] exI [of _ p] exI [of _ post] exI [of _ re']) simp
    qed
    moreover have "pattern_matches l hps h" if "pattern_matches l (hp # hps) h"
    proof -
      from that obtain pre p post re' where split: "hp # hps = pre @ p # post"
        and p: "l_RegexpCompile l (hp_Match p) = Inr re'" "re' h"
        and pre: "\<forall>q \<in> set pre. \<exists>r. l_RegexpCompile l (hp_Match q) = Inr r \<and> \<not> r h"
        by (auto simp: pattern_matches_def)
      from split p Inr False obtain pre' where "pre = hp # pre'" "hps = pre' @ p # post"
        by (cases pre) auto
      with p pre show ?thesis unfolding pattern_matches_def by auto
    qed
    ultimately show ?thesis using Inr False by auto
  qed
qed

lemma matchPatterns_verdict:
  "matchPatterns l h i hps = (errs, ds, matched) \<Longrightarrow>
     (errs = [] \<and> matched) \<longleftrightarrow> pattern_matches l hps h"
proof (induction hps arbitrary: i errs ds matched)
  case Nil
  then show ?case by (simp add: pattern_matches_Nil)
next
  case (Cons hp hps)
  then show ?case
    by (auto simp: pattern_matches_Cons Let_def split: sum.splits if_splits prod.splits)
qed

lemma validateDomainName_verdict:
  "validateDomainName l h hps = [] \<longleftrightarrow> hostname_ok l hps h"
proof (cases "h = []")
  case False
  obtain errs ds matched where mp: "matchPatterns l h 0 hps = (errs, ds, matched)"
    by (cases "matchPatterns l h 0 hps") auto
  with matchPatterns_verdict [OF mp] False show ?thesis
    by (auto simp: validateDomainName_def hostname_ok_def Let_def split: option.splits)
qed (simp add: validateDomainName_def hostname_ok_def)

lemma isDomainNameTaken_cases:
  "isDomainNameTaken l h =
     (case l_LookupHost l h of
        None \<Rightarrow> Ok True | Some (e, nf) \<Rightarrow> if nf then Ok False else Err (new_error e))"
  by (simp add: isDomainNameTaken_def)

lemma not_taken_iff: "not_taken l h \<longleftrightarrow> isDomainNameTaken l h = Ok False"
  by (auto simp: not_taken_def isDomainNameTaken_def split: option.splits)

lemma isDomainNameTaken_no_panic: "isDomainNameTaken l h \<noteq> Panic p"
  by (auto simp: isDomainNameTaken_def split: option.split)

lemma hostnameCheck_verdict:
  assumes "op = Create \<and> old = None \<or> op = Update \<and> old \<noteq> None"
  shows "if (case old of Some old \<Rightarrow> hostname_of c = hostname_of old | None \<Rightarrow> False)
            \<or> hostname_ok l hps (hostname_of c) \<and> not_taken l (hostname_of c)
     then hostnameCheck l op c old hps = Ok ()
     else (\<exists>e. hostnameCheck l op c old hps = Err e)"
  using assms isDomainNameTaken_no_panic [of l "hostname_of c"]
  by (cases "isDomainNameTaken l (hostname_of c)")
    (auto simp: hostnameCheck_def Let_def validateDomainName_verdict not_taken_iff
      hostname_of_def [symmetric] split: option.splits)

lemma immutability_verdict:
  assumes "op = Create \<and> old = None \<or> op = Update \<and> old \<noteq> None"
  shows "if (case old of Some old \<Rightarrow> hostname_of c = hostname_of old \<or> hostname_of old = []
              | None \<Rightarrow> True)
     then validateHostnameImmutability op c old = Ok ()
     else (\<exists>e. validateHostnameImmutability op c old = Err e)"
  using assms by (auto simp: validateHostnameImmutability_def hostname_of_def Let_def)

section \<open>The handler\<close>

lemma checks_log_secret:
  assumes "kind_api (c_secrets cl) secrets secrets_update"
  shows "checks (if log_PasswordSecret (cs_LogSpec (Spec c)) \<noteq> []
       then validateSecretHasKeys cl (Namespace (Meta c)) (log_PasswordSecret (cs_LogSpec (Spec c)))
              [elasticSecretKey]
       else ok ()) w (log_secret_ok w c)"
  using checks_secret [OF assms] by (simp add: log_secret_ok_def checks_ok)

lemma validator_handle_admits:
  assumes api: "kind_api (c_cappconfigs cl) cappconfigs cappconfigs_update"
      "kind_api (c_secrets cl) secrets secrets_update"
    and keys: "map_keys_lib l"
    and g: "tlookup (cappconfigs w) (NamespacedName CappNS CappConfigName) = Some g"
    and op: "op = Create \<and> old = None \<or> op = Update \<and> old \<noteq> None"
  shows "admits (validator_handle l cl op c old) w (admissible l w g c old)"
proof -
  have cfg: "GetCappConfig cl w = (Ok g, w)"
    using kind_api.get_found [OF api(1) g] by (simp add: GetCappConfig_def)
  let ?imm = "case old of Some old \<Rightarrow> hostname_of c = hostname_of old \<or> hostname_of old = []
     | None \<Rightarrow> True"
  let ?host = "(case old of Some old \<Rightarrow> hostname_of c = hostname_of old | None \<Rightarrow> False)
     \<or> hostname_ok l (cfg_AllowedHostnamePatterns (Spec g)) (hostname_of c)
        \<and> not_taken l (hostname_of c)"
  have "admissible l w g c old \<longleftrightarrow>
     ?imm \<and> ?host \<and> log_secret_ok w c \<and> volumes_mounted c \<and> sources_ok l w g c
     \<and> template_annotations_ok c
     \<and> scale_ok (cfg_AutoscaleConfig (Spec g)) (cs_ScaleSpec (Spec c)) \<and> True"
    by (auto simp: admissible_def route_ok_def split: option.split)
  moreover have "admits (validator_handle l cl op c old) w
     (?imm \<and> ?host \<and> log_secret_ok w c \<and> volumes_mounted c \<and> sources_ok l w g c
     \<and> template_annotations_ok c
     \<and> scale_ok (cfg_AutoscaleConfig (Spec g)) (cs_ScaleSpec (Spec c)) \<and> True)"
    unfolding validator_handle_def
    by (rule admits_handle, rule cfg, intro check_intros checks_log_secret api immutability_verdict hostnameCheck_verdict op
        validateNFSVolumeMounts_verdict validateTemplateAnnotations_verdict keys
        validateScaleSpec_verdict)
  ultimately show ?thesis by (simp only:)
qed

section \<open>The mutator\<close>

text \<open>What the mutator does to a Capp, in one expression: it never meets a nil map.\<close>

definition noteUser :: "string \<Rightarrow> capp \<Rightarrow> capp" where
  "noteUser username capp =
     capp\<lparr>Meta := (Meta capp)\<lparr>Annotations :=
        fmupd lastUpdatedByAnnotationKey username (Annotations (Meta capp))\<rparr>\<rparr>"

fun fillQuantities :: "resource_list \<Rightarrow> resource_list \<Rightarrow> string list \<Rightarrow> resource_list" where
  "fillQuantities rl defaults [] = rl"
| "fillQuantities rl defaults (n # ns) =
     fillQuantities
       (case fmlookup defaults n of
          None \<Rightarrow> rl
        | Some q \<Rightarrow> (case fmlookup rl n of None \<Rightarrow> fmupd n q rl | Some _ \<Rightarrow> rl))
       defaults ns"

definition fillContainer :: "resource_list \<Rightarrow> resource_list \<Rightarrow> container \<Rightarrow> container" where
  "fillContainer requests limits x =
     x\<lparr>ctr_Requests := fillQuantities (ctr_Requests x) requests defaultedResources,
       ctr_Limits := fillQuantities (ctr_Limits x) limits defaultedResources\<rparr>"

definition mapContainers :: "(container \<Rightarrow> container) \<Rightarrow> capp \<Rightarrow> capp" where
  "mapContainers f c = withContainers (map f (containers_of c)) c"

definition mutated :: "capp_config \<Rightarrow> string \<Rightarrow> capp \<Rightarrow> capp" where
  "mutated g u c =
     mapContainers (fillContainer (cfg_DefaultRequests (Spec g)) (cfg_DefaultLimits (Spec g))) (noteUser u c)"

lemma entries_simps [simp]: "entries (map_field m) = m" "entries (Some m) = m" "entries None = fmempty"
  by (simp_all add: entries_def map_field_def)

lemma entries_made: "(if m = None then Some fmempty else m) = Some (entries m)"
  by (cases m) simp_all

lemma setResourceQuantity_fills:
  "\<exists>m'. setResourceQuantity m d ns = Ok m' \<and> entries m' = fillQuantities (entries m) d ns"
proof (induction ns arbitrary: m)
  case (Cons n ns)
  show ?case
  proof (cases "fmlookup d n")
    case None
    with Cons.IH [of m] show ?thesis by simp
  next
    case (Some q)
    with Cons.IH [of "Some (case fmlookup (entries m) n of None \<Rightarrow> fmupd n q (entries m) | Some _ \<Rightarrow> entries m)"]
    show ?thesis by (cases "fmlookup (entries m) n") (simp_all add: entries_made assign_entry_def Let_def)
  qed
qed simp

lemma mutateContainer_fills: "mutateContainer d l x = Ok (fillContainer d l x)"
proof -
  from setResourceQuantity_fills [of "map_field (ctr_Requests x)" d defaultedResources]
    setResourceQuantity_fills [of "map_field (ctr_Limits x)" l defaultedResources]
  show ?thesis by (auto simp: mutateContainer_def fillContainer_def)
qed

lemma mutator_handle_mutated: "mutator_handle g u c = Ok (mutated g u c)"
proof -
  have "mutateContainers d l cs = Ok (map (fillContainer d l) cs)" for d l cs
    by (induction cs) (simp_all add: mutateContainer_fills)
  then show ?thesis
    by (simp add: mutator_handle_def mutateResources_def mutated_def mapContainers_def noteUser_def
        mutateAnnotations_def entries_made assign_entry_def Let_def)
qed

lemma fillQuantities_lookup:
  "fmlookup (fillQuantities rl d ns) n =
     (case fmlookup rl n of
        Some q \<Rightarrow> Some q | None \<Rightarrow> if n \<in> set ns then fmlookup d n else None)"
  by (induction ns arbitrary: rl) (auto split: option.splits)

lemma fillQuantities_again:
  "fillQuantities (fillQuantities rl d ns) d ns = fillQuantities rl d ns"
  by (rule fmap_ext) (simp add: fillQuantities_lookup split: option.split)

lemma fillContainer_again:
  "fillContainer req lim (fillContainer req lim x) = fillContainer req lim x"
  by (simp add: fillContainer_def fillQuantities_again)

lemma containers_of_mapContainers [simp]:
  "containers_of (mapContainers f c) = map f (containers_of c)"
  by (simp add: containers_of_def mapContainers_def withContainers_def Let_def)

lemma mapContainers_mapContainers:
  "mapContainers f (mapContainers g c) = mapContainers (f \<circ> g) c"
  by (simp add: mapContainers_def withContainers_def containers_of_def Let_def)

lemma mapContainers_fields [simp]:
  "Meta (mapContainers f c) = Meta c" "Status (mapContainers f c) = Status c"
  "TypeKind (mapContainers f c) = TypeKind c"
  "cs_RouteSpec (Spec (mapContainers f c)) = cs_RouteSpec (Spec c)"
  "cs_LogSpec (Spec (mapContainers f c)) = cs_LogSpec (Spec c)"
  "cs_NFSVolumes (Spec (mapContainers f c)) = cs_NFSVolumes (Spec c)"
  "cs_Sources (Spec (mapContainers f c)) = cs_Sources (Spec c)"
  "cs_ScaleSpec (Spec (mapContainers f c)) = cs_ScaleSpec (Spec c)"
  "cs_State (Spec (mapContainers f c)) = cs_State (Spec c)"
  "tmpl_Annotations (Template (cs_ConfigurationSpec (Spec (mapContainers f c)))) =
     tmpl_Annotations (Template (cs_ConfigurationSpec (Spec c)))"
  by (simp_all add: mapContainers_def withContainers_def Let_def)

lemma mapContainers_annotations:
  "mapContainers f (noteUser u c) = noteUser u (mapContainers f c)"
  by (simp add: mapContainers_def withContainers_def containers_of_def noteUser_def Let_def)

lemma noteUser_again:
  "noteUser u (noteUser v c) = noteUser u c"
proof -
  have "fmupd k u (fmupd k v m) = fmupd k u m" for k :: string and m :: strmap
    by (rule fmap_ext) simp
  then show ?thesis by (simp add: noteUser_def)
qed

lemma noteUser_fields [simp]:
  "Spec (noteUser u c) = Spec c" "Status (noteUser u c) = Status c"
  "Namespace (Meta (noteUser u c)) = Namespace (Meta c)"
  "Name (Meta (noteUser u c)) = Name (Meta c)"
  "Labels (Meta (noteUser u c)) = Labels (Meta c)"
  by (simp_all add: noteUser_def)

lemma mutated_mapContainers:
  "mutated g u c = noteUser u
     (mapContainers (fillContainer (cfg_DefaultRequests (Spec g)) (cfg_DefaultLimits (Spec g))) c)"
  by (simp add: mutated_def mapContainers_annotations)

lemma fillContainer_again_comp:
  "fillContainer req lim \<circ> fillContainer req lim = fillContainer req lim"
  by (rule ext) (simp add: fillContainer_again)

lemma containers_of_annotations [simp]:
  "containers_of (noteUser u c) = containers_of c"
  by (simp add: containers_of_def)

lemma mutated_containers:
  "containers_of (mutated g u c) =
     map (fillContainer (cfg_DefaultRequests (Spec g)) (cfg_DefaultLimits (Spec g))) (containers_of c)"
  by (simp add: mutated_mapContainers)

lemma defaultedResources_set: "set defaultedResources = {''cpu'', ''memory''}"
  by (simp add: defaultedResources_def)

lemma mountedVolumes_containers:
  "mountedVolumes c = (\<Union>x \<in> set (containers_of c). vm_Name ` set (ctr_VolumeMounts x))"
  by (auto simp: mountedVolumes_def containers_of_def)

lemma mountedVolumes_mutate [simp]:
  "mountedVolumes (mutated g u c) = mountedVolumes c"
  by (simp add: mountedVolumes_containers mutated_mapContainers fillContainer_def)

section \<open>Properties\<close>

text \<open>
  C6: the validator's handler refines the abstract admission contract \<open>admissible\<close>. For a
  create request, or an update with the stored Capp, whose objects decode and are not being
  deleted, it changes nothing in the world, ends without a panic or an error, and lets the
  request pass exactly when the Capp is admissible.
\<close>

theorem validator_Handle_refines:
  assumes api: "kind_api (c_cappconfigs cl) cappconfigs cappconfigs_update"
      "kind_api (c_secrets cl) secrets secrets_update"
    and keys: "map_keys_lib l"
    and g: "tlookup (cappconfigs w) (NamespacedName CappNS CappConfigName) = Some g"
    and new: "decode (req_Object req) = Ok c" "DeletionTimestamp (Meta c) = None"
    and old: "req_Operation req = Create \<and> old = None
      \<or> req_Operation req = Update \<and> (\<exists>c0. decode (req_OldObject req) = Ok c0 \<and> old = Some c0)"
  shows "\<exists>r. validator_Handle l decode cl req w = (Ok r, w)
     \<and> (is_allowed r \<longleftrightarrow> admissible l w g c old)"
proof -
  have op: "req_Operation req = Create \<and> old = None \<or> req_Operation req = Update \<and> old \<noteq> None"
    using old by auto
  have "validator_Handle l decode cl req w = validator_handle l cl (req_Operation req) c old w"
    using new old by (auto simp: validator_Handle_def handle_def)
  with validator_handle_admits [OF api keys g op, of c] show ?thesis
    by (cases "admissible l w g c old") (auto simp: admits_def)
qed

definition sampleRequest :: admission_request where
  "sampleRequest = \<lparr>req_Operation = Create, req_SubResource = [], req_Username = ''ann'',
     req_Object = [], req_OldObject = []\<rparr>"

lemma sample_secrets:
  "secret_with sampleWorld ''team'' ''elastic'' [elasticSecretKey]"
  "secret_with sampleWorld ''team'' ''kafka'' kafka_secret_keys"
  by (simp_all add: secret_with_def tlookup_Cons has_key_def sampleSecret_def elasticSecretKey_def key_of_def newMeta_def
      kafka_secret_keys_def SaslUserKey_def SaslPasswordKey_def SaslMechanismKey_def)

lemma sample_admissible: "admissible mem_lib sampleWorld sampleConfig sampleCapp None"
proof -
  have "scale_ok (cfg_AutoscaleConfig (Spec sampleConfig)) (cs_ScaleSpec (Spec sampleCapp))"
    by (simp add: scale_ok_def sample_defs sampleConfig_def)
  moreover have "sources_ok mem_lib sampleWorld sampleConfig sampleCapp"
    using sample_secrets(2)
    by (simp add: sources_ok_def source_ok_def sample_defs sampleConfig_def mem_lib_def)
  moreover have "route_ok mem_lib sampleConfig sampleCapp None"
    by (simp add: route_ok_def hostname_ok_def not_taken_def hostname_of_def sample_defs
        sampleConfig_def mem_lib_def pattern_matches_Cons HasSuffix_def)
  moreover have "log_secret_ok sampleWorld sampleCapp"
    using sample_secrets(1) by (simp add: log_secret_ok_def sample_defs)
  ultimately show ?thesis
    by (simp add: admissible_def volumes_mounted_def mountedVolumes_def template_annotations_ok_def
        sample_defs)
qed

theorem validator_Handle_refines_witness:
  "\<exists>r. validator_Handle mem_lib (\<lambda>_. Ok sampleCapp) mem_client sampleRequest sampleWorld
      = (Ok r, sampleWorld) \<and> is_allowed r"
proof -
  have "kind_api (c_cappconfigs mem_client) cappconfigs cappconfigs_update"
    "kind_api (c_secrets mem_client) secrets secrets_update"
    "tlookup (cappconfigs sampleWorld) (NamespacedName CappNS CappConfigName) = Some sampleConfig"
    "req_Operation sampleRequest = Create"
    using mem_cappconfigs.kind_api_axioms mem_secrets.kind_api_axioms
    by (simp_all add: sampleRequest_def)
  with validator_Handle_refines [where cl = mem_client and l = mem_lib and w = sampleWorld
      and g = sampleConfig and decode = "\<lambda>_. Ok sampleCapp" and req = sampleRequest
      and c = sampleCapp and old = None] mem_map_keys_lib sample_admissible
  show ?thesis by simp
qed

text \<open>
  A Capp whose scale specification the validator accepts is exactly one that keeps to the
  cluster's limits: the signed comparisons of the code, made partly at 32 and partly at 64
  bits, are the comparisons of the numbers.
\<close>

theorem validateScaleSpec_limits:
  "validateScaleSpec c a = Ok () \<longleftrightarrow> scale_ok a (cs_ScaleSpec (Spec c))"
  using validateScaleSpec_verdict [of a c] by (auto split: if_splits)

text \<open>
  C29: the loop over the allowed host name patterns accepts a name exactly when the name is
  empty, or it is a fully qualified name outside the cluster's domain such that some pattern
  matches it and every pattern before that one compiles. A pattern that does not compile
  hides the later ones, but not the earlier.
\<close>

theorem validateDomainName_spec:
  "validateDomainName l h hps = [] \<longleftrightarrow>
     h = [] \<or> l_IsFQDN l h = None \<and> \<not> HasSuffix h (''.'' @ l_ClusterDomain l)
       \<and> (\<exists>i < length hps. \<exists>re. l_RegexpCompile l (hp_Match (hps ! i)) = Inr re \<and> re h
            \<and> (\<forall>j < i. \<exists>re. l_RegexpCompile l (hp_Match (hps ! j)) = Inr re))"
proof -
  have "(\<exists>i < length hps. \<exists>re. l_RegexpCompile l (hp_Match (hps ! i)) = Inr re \<and> re h
            \<and> (\<forall>j < i. \<exists>re. l_RegexpCompile l (hp_Match (hps ! j)) = Inr re))
     \<longleftrightarrow> pattern_matches l hps h" for hps
  proof (induction hps)
    case (Cons hp hps)
    show ?case unfolding pattern_matches_Cons Cons.IH [symmetric] length_Cons Ex_less_Suc2
      by (cases "l_RegexpCompile l (hp_Match hp)") (auto simp: All_less_Suc2)
  qed (simp add: pattern_matches_Nil)
  then show ?thesis unfolding validateDomainName_verdict hostname_ok_def by blast
qed

theorem validateDomainName_spec_witness:
  "validateDomainName mem_lib ''shop.z.io'' (cfg_AllowedHostnamePatterns (Spec sampleConfig)) = []"
  unfolding validateDomainName_spec
  by (simp add: mem_lib_def sampleConfig_def HasSuffix_def)

text \<open>The validator lets an update pass: request and response, with the objects they decode to.\<close>

definition update_admitted :: "lib \<Rightarrow> (opaque \<Rightarrow> capp result) \<Rightarrow> client \<Rightarrow> capp \<Rightarrow> capp \<Rightarrow> bool" where
  "update_admitted l decode cl old new \<longleftrightarrow>
     (\<exists>req w r w'. req_Operation req = Update \<and> decode (req_OldObject req) = Ok old
        \<and> decode (req_Object req) = Ok new
        \<and> validator_Handle l decode cl req w = (Ok r, w') \<and> is_allowed r)"

lemma update_admitted_hostname:
  assumes "update_admitted l decode cl old new" and "DeletionTimestamp (Meta new) = None"
    and "hostname_of old \<noteq> []"
  shows "hostname_of new = hostname_of old"
proof -
  from assms(1,2) obtain w r w' where run: "validator_handle l cl Update new (Some old) w = (Ok r, w')"
      and r: "is_allowed r"
    by (auto simp: update_admitted_def validator_Handle_def handle_def)
  then have "validateHostnameImmutability Update new (Some old) = Ok ()"
    by (cases "validateHostnameImmutability Update new (Some old)")
      (auto simp: validator_handle_def denyOn_def handle_def split: prod.splits result.splits)
  with assms(3) show ?thesis
    by (auto simp: validateHostnameImmutability_def Let_def hostname_of_def split: if_splits)
qed

text \<open>
  C30: a host name, once set, stays for as long as the Capp lives. Along any sequence of updates that
  the validating webhook lets pass, each against the Capp that the one before it stored, the host
  name is the first one's up to the update that finds the Capp being deleted; from then on the
  webhook lets everything pass, a new host name included.
\<close>

theorem hostname_never_changes:
  assumes "hostname_of c \<noteq> []" and "successively (update_admitted l decode cl) (c # cs)"
  shows "(\<forall>d \<in> set (takeWhile (\<lambda>d. DeletionTimestamp (Meta d) = None) cs). hostname_of d = hostname_of c)
    \<and> (\<forall>req new w. decode (req_Object req) = Ok new \<longrightarrow> DeletionTimestamp (Meta new) \<noteq> None \<longrightarrow>
         validator_Handle l decode cl req w = (Ok (Allowed ''object is being deleted''), w))"
proof (intro conjI)
  show "\<forall>d \<in> set (takeWhile (\<lambda>d. DeletionTimestamp (Meta d) = None) cs). hostname_of d = hostname_of c"
    using assms
  proof (induction cs arbitrary: c)
    case (Cons d cs)
    show ?case
    proof (cases "DeletionTimestamp (Meta d) = None")
      case True
      with Cons.prems have "hostname_of d = hostname_of c" by (auto intro: update_admitted_hostname)
      with True Cons.IH [of d] Cons.prems show ?thesis by simp
    next
      case False
      then show ?thesis by auto
    qed
  qed simp
qed (auto simp: validator_Handle_def handle_def)

text \<open>The sample Capp, an update of it that drops its volumes, and one that comes too late.\<close>

definition updatedCapp :: capp where
  "updatedCapp = sampleCapp\<lparr>Spec := sampleSpec\<lparr>cs_NFSVolumes := []\<rparr>\<rparr>"

definition renamedCapp :: capp where
  "renamedCapp = updatedCapp\<lparr>Meta := (Meta updatedCapp)\<lparr>DeletionTimestamp := Some 1\<rparr>,
     Spec := (Spec updatedCapp)\<lparr>cs_RouteSpec := (cs_RouteSpec (Spec updatedCapp))\<lparr>rt_Hostname := ''late.z.io''\<rparr>\<rparr>\<rparr>"

text \<open>A decoder of three objects, told apart by the length of their text.\<close>

definition sampleDecode :: "opaque \<Rightarrow> capp result" where
  "sampleDecode raw = Ok (if raw = [] then sampleCapp else if tl raw = [] then updatedCapp else renamedCapp)"

lemma sample_update: "update_admitted mem_lib sampleDecode mem_client sampleCapp updatedCapp"
proof -
  have spec: "Spec sampleCapp = sampleSpec" "Namespace (Meta updatedCapp) = Namespace (Meta sampleCapp)"
    "DeletionTimestamp (Meta updatedCapp) = None"
    by (simp_all add: sampleCapp_def updatedCapp_def newMeta_def)
  have same: "hostname_of updatedCapp = hostname_of sampleCapp"
    "cs_ScaleSpec (Spec updatedCapp) = cs_ScaleSpec (Spec sampleCapp)"
    "sources_ok l w g updatedCapp = sources_ok l w g sampleCapp"
    "log_secret_ok w updatedCapp = log_secret_ok w sampleCapp"
    "template_annotations_ok updatedCapp = template_annotations_ok sampleCapp" for l w g
    by (simp_all add: updatedCapp_def spec hostname_of_def sources_ok_def log_secret_ok_def
        template_annotations_ok_def)
  have "admissible mem_lib sampleWorld sampleConfig updatedCapp (Some sampleCapp)"
    using sample_admissible
    by (simp add: admissible_def route_ok_def same) (simp add: volumes_mounted_def updatedCapp_def)
  with validator_handle_admits [of mem_client mem_lib sampleWorld sampleConfig Update
      "Some sampleCapp" updatedCapp]
    mem_cappconfigs.kind_api_axioms mem_secrets.kind_api_axioms mem_map_keys_lib
  have "validator_handle mem_lib mem_client Update updatedCapp (Some sampleCapp) sampleWorld
      = (Ok (Allowed []), sampleWorld)" by (simp add: admits_def)
  then show ?thesis
    unfolding update_admitted_def
    by (intro exI [of _ "sampleRequest\<lparr>req_Operation := Update, req_Object := [undefined]\<rparr>"] exI [of _ sampleWorld])
      (simp add: validator_Handle_def handle_def sampleDecode_def sampleRequest_def spec)
qed

lemma late_update: "update_admitted mem_lib sampleDecode mem_client updatedCapp renamedCapp"
proof -
  have "DeletionTimestamp (Meta renamedCapp) = Some 1" by (simp add: renamedCapp_def)
  then show ?thesis
    unfolding update_admitted_def
    by (intro exI [of _ "sampleRequest\<lparr>req_Operation := Update, req_Object := [undefined, undefined],
        req_OldObject := [undefined]\<rparr>"] exI [of _ sampleWorld])
      (simp add: validator_Handle_def handle_def sampleDecode_def)
qed

theorem hostname_never_changes_witness:
  "hostname_of updatedCapp = hostname_of sampleCapp \<and> hostname_of renamedCapp \<noteq> hostname_of sampleCapp"
proof -
  have "successively (update_admitted mem_lib sampleDecode mem_client) (sampleCapp # [updatedCapp, renamedCapp])"
    using sample_update late_update by simp
  moreover have "hostname_of sampleCapp \<noteq> []" by (simp add: hostname_of_def sample_defs)
  ultimately have "\<forall>d \<in> set (takeWhile (\<lambda>d. DeletionTimestamp (Meta d) = None) [updatedCapp, renamedCapp]).
      hostname_of d = hostname_of sampleCapp"
    using hostname_never_changes by blast
  moreover have "DeletionTimestamp (Meta updatedCapp) = None"
    by (simp add: updatedCapp_def sampleCapp_def newMeta_def)
  moreover have "hostname_of renamedCapp = ''late.z.io''" "hostname_of sampleCapp = ''shop.z.io''"
    by (simp_all add: renamedCapp_def updatedCapp_def hostname_of_def sample_defs)
  ultimately show ?thesis by simp
qed

text \<open>
  C39: the mutator sets the annotation of who updated the Capp, and gives every container
  the configured default for each of cpu and memory that its requests or limits leave open;
  a value that is given, any other resource and the rest of the Capp stay as they are.
\<close>

theorem mutator_handle_fills:
  "\<exists>c'. mutator_handle g u c = Ok c'
   \<and> Annotations (Meta c') = fmupd lastUpdatedByAnnotationKey u (Annotations (Meta c))
   \<and> (\<forall>cs. withContainers cs c' = withContainers cs (c\<lparr>Meta := (Meta c)\<lparr>Annotations :=
         fmupd lastUpdatedByAnnotationKey u (Annotations (Meta c))\<rparr>\<rparr>))
   \<and> list_all2 (\<lambda>old new.
        (\<forall>n. fmlookup (ctr_Requests new) n = (case fmlookup (ctr_Requests old) n of
            Some q \<Rightarrow> Some q
          | None \<Rightarrow> if n \<in> {''cpu'', ''memory''} then fmlookup (cfg_DefaultRequests (Spec g)) n else None))
        \<and> (\<forall>n. fmlookup (ctr_Limits new) n = (case fmlookup (ctr_Limits old) n of
            Some q \<Rightarrow> Some q
          | None \<Rightarrow> if n \<in> {''cpu'', ''memory''} then fmlookup (cfg_DefaultLimits (Spec g)) n else None))
        \<and> new\<lparr>ctr_Requests := ctr_Requests old, ctr_Limits := ctr_Limits old\<rparr> = old)
      (containers_of c) (containers_of c')"
proof (intro exI [of _ "mutated g u c"] conjI)
  show "mutator_handle g u c = Ok (mutated g u c)" by (rule mutator_handle_mutated)
  show "Annotations (Meta (mutated g u c)) = fmupd lastUpdatedByAnnotationKey u (Annotations (Meta c))"
    by (simp add: mutated_def noteUser_def)
  show "\<forall>cs. withContainers cs (mutated g u c) = withContainers cs (c\<lparr>Meta := (Meta c)\<lparr>Annotations :=
      fmupd lastUpdatedByAnnotationKey u (Annotations (Meta c))\<rparr>\<rparr>)"
    by (simp add: mutated_def mapContainers_def noteUser_def withContainers_def Let_def)
  show "list_all2 (\<lambda>old new.
        (\<forall>n. fmlookup (ctr_Requests new) n = (case fmlookup (ctr_Requests old) n of
            Some q \<Rightarrow> Some q
          | None \<Rightarrow> if n \<in> {''cpu'', ''memory''} then fmlookup (cfg_DefaultRequests (Spec g)) n else None))
        \<and> (\<forall>n. fmlookup (ctr_Limits new) n = (case fmlookup (ctr_Limits old) n of
            Some q \<Rightarrow> Some q
          | None \<Rightarrow> if n \<in> {''cpu'', ''memory''} then fmlookup (cfg_DefaultLimits (Spec g)) n else None))
        \<and> new\<lparr>ctr_Requests := ctr_Requests old, ctr_Limits := ctr_Limits old\<rparr> = old)
      (containers_of c) (containers_of (mutated g u c))"
    unfolding mutated_containers list.rel_map
    by (rule list.rel_refl) (simp add: fillContainer_def fillQuantities_lookup defaultedResources_set)
qed

text \<open>
  Mutating twice is mutating once, with the last user's name: a Capp that has been
  through the webhook gets no further defaults.
\<close>

theorem mutated_twice:
  "mutated g u (mutated g v c) = mutated g u c"
  by (simp add: mutated_mapContainers mapContainers_annotations mapContainers_mapContainers
      fillContainer_again_comp noteUser_again)

text \<open>
  The two webhooks agree: whether the validator admits a Capp does not depend on whether the
  mutator has run on it.
\<close>

lemma mutator_admissible:
  "admissible l w g' (mutated g u c) old \<longleftrightarrow> admissible l w g' c old"
proof -
  have "hostname_of (mutated g u c) = hostname_of c"
    by (simp add: mutated_mapContainers hostname_of_def)
  moreover have "volumes_mounted (mutated g u c) = volumes_mounted c"
    by (simp add: volumes_mounted_def) (simp add: mutated_mapContainers)
  moreover have "log_secret_ok w (mutated g u c) = log_secret_ok w c"
    "sources_ok l w g' (mutated g u c) = sources_ok l w g' c"
    "template_annotations_ok (mutated g u c) = template_annotations_ok c"
    "cs_ScaleSpec (Spec (mutated g u c)) = cs_ScaleSpec (Spec c)"
    by (simp_all add: mutated_mapContainers log_secret_ok_def sources_ok_def
        template_annotations_ok_def)
  ultimately show ?thesis by (simp add: admissible_def route_ok_def cong: option.case_cong)
qed

end
