(* ===== verification/WatchEvents.thy ===== *)
theory WatchEvents
  imports KubeClient
begin

text \<open>
  The events controller-runtime delivers to the controllers. Its predicates and its work queue
  are third-party code: they are the parameter \<open>watch_lib\<close> of the definitions that set up the
  watches, and what the operator relies on is the contract \<open>watch_contract\<close>. The operator's own
  predicates are in the theories of the controllers.
\<close>

datatype 'o watch_event = CreateEvent 'o | UpdateEvent 'o 'o | DeleteEvent 'o | GenericEvent 'o

text \<open>
  The predicate made from an \<open>UpdateFunc\<close> alone: controller-runtime's \<open>Funcs\<close> answers true for
  the kinds of events that have no function.
\<close>

fun updateFunc :: "('o \<Rightarrow> 'o \<Rightarrow> bool) \<Rightarrow> 'o watch_event \<Rightarrow> bool" where
  "updateFunc f (UpdateEvent old new) = f old new"
| "updateFunc f _ = True"

fun event_objects :: "'o watch_event \<Rightarrow> 'o list" where
  "event_objects (CreateEvent r) = [r]"
| "event_objects (UpdateEvent old new) = [old, new]"
| "event_objects (DeleteEvent r) = [r]"
| "event_objects (GenericEvent r) = [r]"

text \<open>
  The predicates see the metadata of the objects. \<open>wl_Enqueue\<close> gives the requests that are
  enqueued when a handler maps the objects of one event to the given ones.
\<close>

record watch_lib =
  wl_GenerationChangedPredicate :: "object_meta watch_event \<Rightarrow> bool"
  wl_AnnotationChangedPredicate :: "object_meta watch_event \<Rightarrow> bool"
  wl_LabelChangedPredicate :: "object_meta watch_event \<Rightarrow> bool"
  wl_Enqueue :: "key list \<Rightarrow> key list"

text \<open>
  The documented behaviour: the predicates filter updates only, and a request is enqueued once.
\<close>

definition watch_contract :: "watch_lib \<Rightarrow> bool" where
  "watch_contract wl \<longleftrightarrow>
     wl_GenerationChangedPredicate wl = updateFunc (\<lambda>old new. Generation new \<noteq> Generation old)
     \<and> wl_AnnotationChangedPredicate wl = updateFunc (\<lambda>old new. Annotations new \<noteq> Annotations old)
     \<and> wl_LabelChangedPredicate wl = updateFunc (\<lambda>old new. Labels new \<noteq> Labels old)
     \<and> (\<forall>ks. distinct (wl_Enqueue wl ks) \<and> set (wl_Enqueue wl ks) = set ks)"

definition generationChanged :: "watch_lib \<Rightarrow> ('sp, 'st) resource watch_event \<Rightarrow> bool" where
  "generationChanged wl e = wl_GenerationChangedPredicate wl (map_watch_event Meta e)"

definition annotationChanged :: "watch_lib \<Rightarrow> ('sp, 'st) resource watch_event \<Rightarrow> bool" where
  "annotationChanged wl e = wl_AnnotationChangedPredicate wl (map_watch_event Meta e)"

definition labelChanged :: "watch_lib \<Rightarrow> ('sp, 'st) resource watch_event \<Rightarrow> bool" where
  "labelChanged wl e = wl_LabelChangedPredicate wl (map_watch_event Meta e)"

lemma watch_contract_update:
  assumes "watch_contract wl"
  shows "generationChanged wl (UpdateEvent old new) \<longleftrightarrow> Generation (Meta new) \<noteq> Generation (Meta old)"
    and "annotationChanged wl (UpdateEvent old new) \<longleftrightarrow> Annotations (Meta new) \<noteq> Annotations (Meta old)"
    and "labelChanged wl (UpdateEvent old new) \<longleftrightarrow> Labels (Meta new) \<noteq> Labels (Meta old)"
  using assms
  by (simp_all add: watch_contract_def generationChanged_def annotationChanged_def labelChanged_def)

lemma watch_contract_other:
  assumes "watch_contract wl"
  shows "generationChanged wl (CreateEvent r)" "generationChanged wl (DeleteEvent r)"
    "generationChanged wl (GenericEvent r)"
  using assms by (simp_all add: watch_contract_def generationChanged_def)

lemma enqueue_same:
  assumes "watch_contract wl" and "set ks = {k}"
  shows "wl_Enqueue wl ks = [k]"
proof -
  have "distinct (wl_Enqueue wl ks)" "set (wl_Enqueue wl ks) = {k}"
    using assms by (simp_all add: watch_contract_def)
  then have "length (wl_Enqueue wl ks) = 1" by (simp flip: distinct_card)
  with \<open>set (wl_Enqueue wl ks) = {k}\<close> show ?thesis by (cases "wl_Enqueue wl ks") auto
qed

text \<open>An instance for the witnesses.\<close>

definition mem_watch_lib :: watch_lib where
  "mem_watch_lib =
     \<lparr>wl_GenerationChangedPredicate = updateFunc (\<lambda>old new. Generation new \<noteq> Generation old),
      wl_AnnotationChangedPredicate = updateFunc (\<lambda>old new. Annotations new \<noteq> Annotations old),
      wl_LabelChangedPredicate = updateFunc (\<lambda>old new. Labels new \<noteq> Labels old),
      wl_Enqueue = remdups\<rparr>"

lemma mem_watch_contract: "watch_contract mem_watch_lib"
  by (simp add: watch_contract_def mem_watch_lib_def)

end
