(* ===== verification/CappRevisionController.thy ===== *)
theory CappRevisionController
  imports ResourceManager WatchEvents
begin

text \<open>
  \<open>internal/kinds/capprevision\<close>: the history of a Capp. Every change of a Capp is recorded as a
  CappRevision with the next number, and the oldest ones are deleted so that no more than
  \<open>RevisionHistoryLimit\<close> of them stay.
\<close>

section \<open>adapters/capprevision_adapter.go\<close>

definition cappNameLabelKey :: string where "cappNameLabelKey = CappAPIGroup @ ''/cappName''"
definition RevisionListLimit :: nat where "RevisionListLimit = 100"

definition GetCappRevisions :: "lib \<Rightarrow> client \<Rightarrow> capp \<Rightarrow> capp_revision list act" where
  "GetCappRevisions l cl capp =
     (case l_NewRequirement l cappNameLabelKey (Name (Meta capp)) of
        Some err \<Rightarrow> throw err
      | None \<Rightarrow>
          klist (c_capprevisions cl) (Namespace (Meta capp))
            (fmap_of_list [(cappNameLabelKey, Name (Meta capp))]) (Some RevisionListLimit))"

definition revisionOf :: "lib \<Rightarrow> capp \<Rightarrow> i64 \<Rightarrow> capp_revision" where
  "revisionOf l capp revisionNumber =
     \<lparr>TypeKind = [],
      Meta = newMeta (l_ChildName l (Name (Meta capp)) (''-'' @ fmt_05d revisionNumber))
               (Namespace (Meta capp)) (fmap_of_list [(cappNameLabelKey, Name (Meta capp))]),
      Spec = \<lparr>cr_RevisionNumber = revisionNumber,
              cr_CappTemplate = \<lparr>ct_Spec = Spec capp, ct_Labels = Labels (Meta capp),
                                 ct_Annotations = Annotations (Meta capp)\<rparr>\<rparr>,
      Status = ()\<rparr>"

definition CreateCappRevision :: "lib \<Rightarrow> client \<Rightarrow> capp \<Rightarrow> i64 \<Rightarrow> unit act" where
  "CreateCappRevision l cl capp revisionNumber =
     (let cappRevision = revisionOf l capp revisionNumber in
      andThen (lift (l_SetOwnerReference l capp (Meta cappRevision))) (\<lambda>refs.
        CreateResource (c_capprevisions cl)
          (cappRevision\<lparr>Meta := (Meta cappRevision)\<lparr>OwnerReferences := refs\<rparr>\<rparr>)))"

definition DeleteCappRevision :: "client \<Rightarrow> capp_revision \<Rightarrow> unit act" where
  "DeleteCappRevision cl cappRevision = DeleteResource (c_capprevisions cl) cappRevision"

section \<open>actionmanagers/create.go and update.go\<close>

definition HandleCappCreation :: "lib \<Rightarrow> client \<Rightarrow> capp \<Rightarrow> unit act" where
  "HandleCappCreation l cl capp = CreateCappRevision l cl capp 1"

definition annotationToIgnore :: string where
  "annotationToIgnore = CappAPIGroup @ ''/last-updated-by''"

definition splitRevisionsAtIndex :: "'a list \<Rightarrow> i64 \<Rightarrow> 'a list \<times> 'a list" where
  "splitRevisionsAtIndex revisions index =
     (if sint index \<le> 0 then ([], revisions)
      else if sint index \<ge> int (length revisions) then (revisions, [])
      else (take (nat (sint index)) revisions, drop (nat (sint index)) revisions))"

definition equalSpec :: "capp_spec \<Rightarrow> capp_spec \<Rightarrow> bool" where
  "equalSpec cappSpec revisionCappSpec \<longleftrightarrow> cappSpec = revisionCappSpec"

definition equalAnnotations :: "strmap \<Rightarrow> strmap \<Rightarrow> string \<Rightarrow> bool" where
  "equalAnnotations cappAnnotations revisionCappAnnotations toIgnoreKey \<longleftrightarrow>
     fmdrop toIgnoreKey cappAnnotations = fmdrop toIgnoreKey revisionCappAnnotations"

definition equalLabels :: "strmap \<Rightarrow> strmap \<Rightarrow> bool" where
  "equalLabels cappLabels revisionCappLabels \<longleftrightarrow> cappLabels = revisionCappLabels"

definition isEqual :: "capp \<Rightarrow> capp_revision \<Rightarrow> bool" where
  "isEqual capp revision \<longleftrightarrow>
     equalSpec (Spec capp) (ct_Spec (cr_CappTemplate (Spec revision)))
     \<and> equalAnnotations (Annotations (Meta capp)) (ct_Annotations (cr_CappTemplate (Spec revision)))
         annotationToIgnore
     \<and> equalLabels (Labels (Meta capp)) (ct_Labels (cr_CappTemplate (Spec revision)))"

text \<open>The element at index 0, which panics on an empty slice.\<close>

definition first :: "'a list \<Rightarrow> 'a result" where
  "first xs = (case xs of x # _ \<Rightarrow> Ok x | [] \<Rightarrow> Panic ''index out of range [0] with length 0'')"

definition HandleCappUpdate :: "lib \<Rightarrow> client \<Rightarrow> capp \<Rightarrow> capp_revision list \<Rightarrow> unit act" where
  "HandleCappUpdate l cl capp revisions =
     (let cappRevisions = l_SortCappRevisions l revisions;
          numOfRevisions = length cappRevisions
      in andThen (GetCappConfig cl) (\<lambda>cappConfig.
         let revisionsToKeep = cfg_RevisionHistoryLimit (Spec cappConfig) in
         andThen (lift (first cappRevisions)) (\<lambda>latestRevision.
           if isEqual capp latestRevision then ok ()
           else if int numOfRevisions < sint revisionsToKeep
           then CreateCappRevision l cl capp (cr_RevisionNumber (Spec latestRevision) + 1)
           else
             (let (relevantRevision, revisionsToDelete) =
                    splitRevisionsAtIndex cappRevisions (revisionsToKeep - 1)
              in andThen (forEach (DeleteCappRevision cl) revisionsToDelete) (\<lambda>_.
                 andThen (lift (first relevantRevision)) (\<lambda>r.
                   CreateCappRevision l cl capp (cr_RevisionNumber (Spec r) + 1)))))))"

section \<open>controllers/controller.go\<close>

definition syncCappRevision :: "lib \<Rightarrow> client \<Rightarrow> capp \<Rightarrow> unit act" where
  "syncCappRevision l cl capp =
     andThen (GetCappRevisions l cl capp) (\<lambda>cappRevisions.
       if length cappRevisions = 0 then HandleCappCreation l cl capp
       else HandleCappUpdate l cl capp cappRevisions)"

text \<open>The requeue delay in nanoseconds, 0 for none.\<close>

definition RevisionRequeueTime :: i64 where "RevisionRequeueTime = 5000000000"

definition ReconcileRevision :: "lib \<Rightarrow> client \<Rightarrow> key \<Rightarrow> i64 act" where
  "ReconcileRevision l cl req =
     handle (kget (c_capps cl) (nn_Namespace req) (nn_Name req))
       (\<lambda>err. if IsNotFound err then ok 0
              else throw (new_error (''failed to get Capp: '' @ err_text err)))
       (\<lambda>capp.
          if DeletionTimestamp (Meta capp) \<noteq> None then ok 0
          else handle (syncCappRevision l cl capp)
                 (\<lambda>err. if IsConflict err \<or> IsAlreadyExists err then ok RevisionRequeueTime
                        else throw (new_error (''failed to sync Capp: '' @ err_text err)))
                 (\<lambda>_. ok 0))"

text \<open>The controller watches the Capps only and reconciles the one of the event.\<close>

definition revisionWatchPredicate :: "watch_lib \<Rightarrow> capp watch_event \<Rightarrow> bool" where
  "revisionWatchPredicate wl e \<longleftrightarrow>
     generationChanged wl e \<or> annotationChanged wl e \<or> labelChanged wl e"

definition RevisionSetupWithManager :: "watch_lib \<Rightarrow> capp watch_event \<Rightarrow> key list" where
  "RevisionSetupWithManager wl e =
     (if revisionWatchPredicate wl e then [key_of (last (event_objects e))] else [])"

section \<open>Deleting and creating revisions\<close>

context kind_api begin

lemma deleteEach_effect:
  assumes "distinct (map key_of rs)" and "\<And>r. r \<in> set rs \<Longrightarrow> tlookup (tab w) (key_of r) = Some r"
  shows "\<exists>t. forEach (DeleteResource kc) rs w = (Ok (), upd (\<lambda>_. t) w)
     \<and> (\<forall>r \<in> set rs. removed t r)
     \<and> (\<forall>k. k \<notin> key_of ` set rs \<longrightarrow> tlookup t k = tlookup (tab w) k)"
  using assms
proof (induction rs arbitrary: w)
  case Nil
  show ?case using upd_same by (intro exI [of _ "tab w"]) simp
next
  case (Cons r rs)
  have nr: "key_of r \<notin> key_of ` set rs" and dr: "distinct (map key_of rs)"
    using Cons.prems(1) by simp_all
  have "tlookup (tab w) (key_of r) = Some r" using Cons.prems(2) by simp
  from delete_removed [OF this] obtain t1 where
    t1: "kdelete kc r w = (Ok (), upd (\<lambda>_. t1) w)" "removed t1 r"
      "\<forall>k. k \<noteq> key_of r \<longrightarrow> tlookup t1 k = tlookup (tab w) k" by blast
  let ?w = "upd (\<lambda>_. t1) w"
  have tw: "tab ?w = t1" by (simp add: tab_upd)
  have "tlookup (tab ?w) (key_of x) = Some x" if "x \<in> set rs" for x
  proof -
    have "key_of x \<noteq> key_of r" using nr that by (metis imageI)
    with t1(3) Cons.prems(2) [of x] that show ?thesis by (simp add: tw)
  qed
  from Cons.IH [OF dr this] obtain t where
    t: "forEach (DeleteResource kc) rs ?w = (Ok (), upd (\<lambda>_. t) ?w)" "\<forall>r \<in> set rs. removed t r"
      "\<forall>k. k \<notin> key_of ` set rs \<longrightarrow> tlookup t k = tlookup (tab ?w) k" by auto
  have "tlookup t (key_of r) = tlookup t1 (key_of r)" using t(3) nr by (simp add: tw)
  with t1(2) have "removed t r" by (simp add: removed_def)
  moreover have "forEach (DeleteResource kc) (r # rs) w = (Ok (), upd (\<lambda>_. t) w)"
    using t1(1) t(1) by (simp add: andThen_Ok DeleteResource_def upd_upd)
  ultimately show ?case using t(2,3) t1(3) by (intro exI [of _ t]) (simp add: tw)
qed

end

definition revisions_of :: "capp \<Rightarrow> world \<Rightarrow> capp_revision set" where
  "revisions_of c w =
     {r. tlookup (capprevisions w) (key_of r) = Some r \<and> Namespace (Meta r) = Namespace (Meta c)
         \<and> selected (fmap_of_list [(cappNameLabelKey, Name (Meta c))]) (Meta r)}"

text \<open>The API works, the Capp's name is a label value and one page holds its revisions.\<close>

definition revision_api :: "lib \<Rightarrow> client \<Rightarrow> capp \<Rightarrow> world \<Rightarrow> bool" where
  "revision_api l cl c w \<longleftrightarrow>
     kind_api (c_capprevisions cl) capprevisions capprevisions_update
     \<and> kind_api (c_cappconfigs cl) cappconfigs cappconfigs_update
     \<and> l_NewRequirement l cappNameLabelKey (Name (Meta c)) = None
     \<and> card (revisions_of c w) \<le> RevisionListLimit"

definition history_limit :: "world \<Rightarrow> i64 option" where
  "history_limit w =
     map_option (\<lambda>g. cfg_RevisionHistoryLimit (Spec g))
       (tlookup (cappconfigs w) (NamespacedName CappNS CappConfigName))"

lemma GetCappRevisions_run:
  assumes "revision_api l cl c w"
  shows "\<exists>rs. GetCappRevisions l cl c w = (Ok rs, w) \<and> distinct (map key_of rs)
     \<and> set rs = revisions_of c w"
  using assms kind_api.list_limited [of "c_capprevisions cl" capprevisions capprevisions_update
      "Namespace (Meta c)" "fmap_of_list [(cappNameLabelKey, Name (Meta c))]" RevisionListLimit w]
  by (auto simp: revision_api_def GetCappRevisions_def revisions_of_def)

text \<open>The revision that is created: the Capp as it is, under the given number.\<close>

definition records :: "lib \<Rightarrow> capp \<Rightarrow> i64 \<Rightarrow> capp_revision \<Rightarrow> bool" where
  "records l c n r \<longleftrightarrow>
     Spec r = Spec (revisionOf l c n) \<and> key_of r = key_of (revisionOf l c n)
     \<and> Labels (Meta r) = Labels (Meta (revisionOf l c n)) \<and> Finalizers (Meta r) = []
     \<and> \<not> terminating r \<and> l_HasOwnerReference l (OwnerReferences (Meta r)) c = Ok True"

lemma CreateCappRevision_run:
  assumes api: "kind_api (c_capprevisions cl) capprevisions capprevisions_update"
    and lib: "owner_refs_lib l"
    and fresh: "tlookup (capprevisions w) (key_of (revisionOf l c n)) = None"
  shows "\<exists>t r. CreateCappRevision l cl c n w = (Ok (), w\<lparr>capprevisions := t\<rparr>)
     \<and> tlookup t = (tlookup (capprevisions w))(key_of (revisionOf l c n) \<mapsto> r) \<and> records l c n r"
proof -
  have "Namespace (Meta (revisionOf l c n)) = Namespace (Meta c)"
    by (simp add: revisionOf_def newMeta_def)
  then obtain refs where refs: "l_SetOwnerReference l c (Meta (revisionOf l c n)) = Ok refs"
      "l_HasOwnerReference l refs c = Ok True"
    using owner_refs_libD [OF lib] by metis
  let ?r = "(revisionOf l c n)\<lparr>Meta := (Meta (revisionOf l c n))\<lparr>OwnerReferences := refs\<rparr>\<rparr>"
  have k: "key_of ?r = key_of (revisionOf l c n)" by (simp add: key_of_def)
  obtain t r where t: "kcreate (c_capprevisions cl) ?r w = (Ok (), capprevisions_update (\<lambda>_. t) w)"
      "persisted ?r r" "\<not> terminating r" "tlookup t = (tlookup (capprevisions w))(key_of ?r \<mapsto> r)"
    using kind_api.create_new [OF api, of w ?r] fresh unfolding k by blast
  have "CreateCappRevision l cl c n w = (Ok (), w\<lparr>capprevisions := t\<rparr>)"
    using refs(1) t(1) by (simp add: CreateCappRevision_def Let_def andThen_Ok CreateResource_def)
  moreover have "records l c n r"
    using t(2,3) refs(2) persisted_key [OF t(2)] k
    by (simp add: records_def persisted_def) (simp add: revisionOf_def newMeta_def)
  ultimately show ?thesis using t(4) k by (intro exI [of _ t] exI [of _ r]) simp
qed

section \<open>The history\<close>

definition newest_in :: "capp_revision set \<Rightarrow> capp_revision \<Rightarrow> bool" where
  "newest_in R r \<longleftrightarrow>
     r \<in> R \<and> (\<forall>r' \<in> R. CreationTimestamp (Meta r') \<le> CreationTimestamp (Meta r))"

lemma sorted_revisions:
  assumes "sort_lib l" and "distinct (map key_of rs)"
  shows "set (l_SortCappRevisions l rs) = set rs" "distinct (map key_of (l_SortCappRevisions l rs))"
    and "length (l_SortCappRevisions l rs) = length rs"
    and "sorted_wrt (\<lambda>x y. CreationTimestamp (Meta y) \<le> CreationTimestamp (Meta x))
      (l_SortCappRevisions l rs)"
proof -
  have srt: "slice_sorted newerRevision (l_SortCappRevisions l)"
    using assms(1) by (simp add: sort_lib_def)
  show "set (l_SortCappRevisions l rs) = set rs" "length (l_SortCappRevisions l rs) = length rs"
    using slice_sorted_set [OF srt] by simp_all
  have m: "mset (l_SortCappRevisions l rs) = mset rs" using srt by (simp add: slice_sorted_def)
  then have "mset (map key_of (l_SortCappRevisions l rs)) = mset (map key_of rs)" by simp
  with assms(2) show "distinct (map key_of (l_SortCappRevisions l rs))"
    using mset_eq_imp_distinct_iff by blast
  have "sorted_wrt (\<lambda>x y. \<not> newerRevision y x) (l_SortCappRevisions l rs)"
    using srt by (simp add: slice_sorted_def)
  then show "sorted_wrt (\<lambda>x y. CreationTimestamp (Meta y) \<le> CreationTimestamp (Meta x))
      (l_SortCappRevisions l rs)"
    by (simp add: newerRevision_def not_less)
qed

text \<open>
  The revisions as \<open>HandleCappUpdate\<close> sees them: listed, sorted, not empty.
\<close>

lemma history_sorted:
  assumes api: "revision_api l cl c w" and srt: "sort_lib l" and "revisions_of c w \<noteq> {}"
  obtains rs latest rest where "GetCappRevisions l cl c w = (Ok rs, w)" "rs \<noteq> []"
    "l_SortCappRevisions l rs = latest # rest" "set (latest # rest) = revisions_of c w"
    "distinct (map key_of (latest # rest))"
    "sorted_wrt (\<lambda>x y. CreationTimestamp (Meta y) \<le> CreationTimestamp (Meta x)) (latest # rest)"
    "newest_in (revisions_of c w) latest"
proof -
  obtain rs where rs: "GetCappRevisions l cl c w = (Ok rs, w)" "distinct (map key_of rs)"
      "set rs = revisions_of c w"
    using GetCappRevisions_run [OF api] by blast
  note sorted = sorted_revisions [OF srt rs(2)]
  from rs(3) assms(3) have "rs \<noteq> []" by auto
  with sorted(3) obtain latest rest where l: "l_SortCappRevisions l rs = latest # rest"
    by (cases "l_SortCappRevisions l rs") auto
  have "newest_in (revisions_of c w) latest"
    using sorted(1,4) rs(3) unfolding l by (auto simp: newest_in_def)
  with that [OF rs(1) \<open>rs \<noteq> []\<close> l] sorted rs(3) show ?thesis unfolding l by simp
qed

lemma history_limit_run:
  assumes "revision_api l cl c w" and "history_limit w = Some keep"
  obtains g where "GetCappConfig cl w = (Ok g, w)" "cfg_RevisionHistoryLimit (Spec g) = keep"
  using assms kind_api.get_found [of "c_cappconfigs cl" cappconfigs cappconfigs_update w CappNS
      CappConfigName]
  by (auto simp: revision_api_def history_limit_def GetCappConfig_def)

lemma syncCappRevision_equal:
  assumes api: "revision_api l cl c w" and srt: "sort_lib l" and limit: "history_limit w = Some keep"
    and some: "revisions_of c w \<noteq> {}"
    and eq: "\<And>r. newest_in (revisions_of c w) r \<Longrightarrow> isEqual c r"
  shows "syncCappRevision l cl c w = (Ok (), w)"
proof -
  obtain rs latest rest where h: "GetCappRevisions l cl c w = (Ok rs, w)" "rs \<noteq> []"
      "l_SortCappRevisions l rs = latest # rest" "newest_in (revisions_of c w) latest"
    using history_sorted [OF api srt some] by metis
  obtain g where g: "GetCappConfig cl w = (Ok g, w)"
    using history_limit_run [OF api limit] by blast
  show ?thesis using h g eq [OF h(4)]
    by (simp add: syncCappRevision_def HandleCappUpdate_def andThen_Ok first_def Let_def)
qed

lemma revisions_of_put:
  assumes t: "tlookup (capprevisions w') = (tlookup (capprevisions w))(key_of (revisionOf l c n) \<mapsto> new)"
    and fresh: "tlookup (capprevisions w) (key_of (revisionOf l c n)) = None" and new: "records l c n new"
  shows "revisions_of c w' = insert new (revisions_of c w)"
proof -
  have k: "key_of new = key_of (revisionOf l c n)" and ls: "Labels (Meta new)
      = fmap_of_list [(cappNameLabelKey, Name (Meta c))]"
    using new by (simp_all add: records_def revisionOf_def newMeta_def)
  then have ns: "Namespace (Meta new) = Namespace (Meta c)"
    by (simp add: key_of_def revisionOf_def newMeta_def)
  show ?thesis
    using k ls ns fresh unfolding revisions_of_def t
    by (auto simp: selected_def fmsubset.rep_eq split: if_splits)
qed

lemma revisions_of_removed:
  assumes rem: "\<forall>r \<in> D. removed (capprevisions w') r" and D: "D \<subseteq> revisions_of c w"
    and fin: "\<And>r. r \<in> D \<Longrightarrow> Finalizers (Meta r) = []"
    and rest: "\<forall>k. k \<notin> key_of ` D \<longrightarrow> tlookup (capprevisions w') k = tlookup (capprevisions w) k"
  shows "revisions_of c w' = revisions_of c w - D"
proof -
  have gone: "tlookup (capprevisions w') (key_of d) = None" if "d \<in> D" for d
    using rem fin that by (auto simp: removed_def split: option.splits)
  have key: "r \<in> D" if "r \<in> revisions_of c w" "key_of r \<in> key_of ` D" for r
  proof -
    from that(2) obtain d where d: "d \<in> D" "key_of r = key_of d" by blast
    with D have "d \<in> revisions_of c w" by blast
    then have "tlookup (capprevisions w) (key_of r) = Some d"
      using d(2) by (simp add: revisions_of_def)
    moreover have "tlookup (capprevisions w) (key_of r) = Some r"
      using that(1) by (simp add: revisions_of_def)
    ultimately show ?thesis using d(1) by simp
  qed
  show ?thesis
  proof (intro equalityI subsetI)
    fix r assume r: "r \<in> revisions_of c w'"
    then have "key_of r \<notin> key_of ` D" using gone by (auto simp: revisions_of_def)
    with r rest have "r \<in> revisions_of c w" by (simp add: revisions_of_def)
    with \<open>key_of r \<notin> key_of ` D\<close> show "r \<in> revisions_of c w - D" by blast
  next
    fix r assume r: "r \<in> revisions_of c w - D"
    with key have "key_of r \<notin> key_of ` D" by blast
    with r rest show "r \<in> revisions_of c w'" by (simp add: revisions_of_def)
  qed
qed

lemma deleteRevisions_run:
  assumes api: "revision_api l cl c w" and ds: "distinct (map key_of ds)" "set ds \<subseteq> revisions_of c w"
    and fin: "\<And>r. r \<in> set ds \<Longrightarrow> Finalizers (Meta r) = []"
  shows "\<exists>t. forEach (DeleteCappRevision cl) ds w = (Ok (), w\<lparr>capprevisions := t\<rparr>)
     \<and> revisions_of c (w\<lparr>capprevisions := t\<rparr>) = revisions_of c w - set ds
     \<and> (\<forall>k. k \<notin> key_of ` set ds \<longrightarrow> tlookup t k = tlookup (capprevisions w) k)"
proof -
  have kapi: "kind_api (c_capprevisions cl) capprevisions capprevisions_update"
    using api by (simp add: revision_api_def)
  have lk: "tlookup (capprevisions w) (key_of r) = Some r" if "r \<in> set ds" for r
    using that ds(2) by (auto simp: revisions_of_def)
  obtain t where t: "forEach (DeleteResource (c_capprevisions cl)) ds w
        = (Ok (), w\<lparr>capprevisions := t\<rparr>)" "\<forall>r \<in> set ds. removed t r"
      "\<forall>k. k \<notin> key_of ` set ds \<longrightarrow> tlookup t k = tlookup (capprevisions w) k"
    using kind_api.deleteEach_effect [OF kapi ds(1) lk] by blast
  have "DeleteCappRevision cl = DeleteResource (c_capprevisions cl)"
    by (rule ext) (simp add: DeleteCappRevision_def)
  moreover have "revisions_of c (w\<lparr>capprevisions := t\<rparr>) = revisions_of c w - set ds"
    by (rule revisions_of_removed) (use t(2,3) ds(2) fin in auto)
  ultimately show ?thesis using t by (intro exI [of _ t]) simp
qed

lemma sint_minus_one:
  assumes "1 \<le> sint (n :: i64)" shows "sint (n - 1) = sint n - 1"
proof -
  have "sint (n - 1) = signed_take_bit 63 (sint n - 1)"
    by (simp add: sint_word_ariths(2))
  also have "\<dots> = sint n - 1"
    by (rule signed_take_bit_int_eq_self) (use assms sint_lt [of n] in simp_all)
  finally show ?thesis .
qed

text \<open>
  A change: all but the newest \<open>limit - 1\<close> revisions are deleted, then the Capp is recorded
  under the number after the newest.
\<close>

lemma syncCappRevision_prunes:
  assumes api: "revision_api l cl c w" and limit: "history_limit w = Some keep"
    and keep: "2 \<le> sint keep"
    and rs: "GetCappRevisions l cl c w = (Ok rs, w)" "rs \<noteq> []"
    and srt: "l_SortCappRevisions l rs = latest # rest" "set (latest # rest) = revisions_of c w"
      "distinct (map key_of (latest # rest))"
      "sorted_wrt (\<lambda>x y. CreationTimestamp (Meta y) \<le> CreationTimestamp (Meta x)) (latest # rest)"
    and changed: "\<not> isEqual c latest"
    and fin: "\<And>r. r \<in> revisions_of c w \<Longrightarrow> Finalizers (Meta r) = []"
  shows "\<exists>t. syncCappRevision l cl c w
         = CreateCappRevision l cl c (cr_RevisionNumber (Spec latest) + 1) (w\<lparr>capprevisions := t\<rparr>)
     \<and> revisions_of c (w\<lparr>capprevisions := t\<rparr>) \<subseteq> revisions_of c w
     \<and> card (revisions_of c (w\<lparr>capprevisions := t\<rparr>))
         = min (card (revisions_of c w)) (nat (sint keep) - 1)
     \<and> (\<forall>r \<in> revisions_of c (w\<lparr>capprevisions := t\<rparr>).
          \<forall>d \<in> revisions_of c w - revisions_of c (w\<lparr>capprevisions := t\<rparr>).
            CreationTimestamp (Meta d) \<le> CreationTimestamp (Meta r))
     \<and> (\<forall>k. k \<notin> key_of ` revisions_of c w \<longrightarrow> tlookup t k = tlookup (capprevisions w) k)"
proof -
  obtain g where g: "GetCappConfig cl w = (Ok g, w)" "cfg_RevisionHistoryLimit (Spec g) = keep"
    using history_limit_run [OF api limit] by blast
  define L where "L = latest # rest"
  define ks where "ks = take (nat (sint keep) - 1) L"
  define ds where "ds = drop (nat (sint keep) - 1) L"
  have L: "L = ks @ ds" by (simp add: ks_def ds_def)
  have dist: "distinct (map key_of L)" "distinct L" using srt(3) by (auto simp: L_def distinct_map)
  have R: "revisions_of c w = set L" using srt(2) by (simp add: L_def)
  have nks: "ks = latest # take (nat (sint keep) - 2) rest"
  proof -
    have "nat (sint keep) - 1 = Suc (nat (sint keep) - 2)" using keep by linarith
    then show ?thesis by (simp add: ks_def L_def)
  qed
  obtain t where t: "forEach (DeleteCappRevision cl) ds w = (Ok (), w\<lparr>capprevisions := t\<rparr>)"
      "revisions_of c (w\<lparr>capprevisions := t\<rparr>) = revisions_of c w - set ds"
      "\<forall>k. k \<notin> key_of ` set ds \<longrightarrow> tlookup t k = tlookup (capprevisions w) k"
    using deleteRevisions_run [OF api, of ds] dist(1) fin R L by auto
  have run: "syncCappRevision l cl c w
      = CreateCappRevision l cl c (cr_RevisionNumber (Spec latest) + 1) (w\<lparr>capprevisions := t\<rparr>)"
  proof (cases "int (length L) < sint keep")
    case True
    then have "ds = []" by (simp add: ds_def)
    then have "w\<lparr>capprevisions := t\<rparr> = w" using t(1) by simp
    with True rs srt(1) g changed show ?thesis
      by (simp add: syncCappRevision_def HandleCappUpdate_def andThen_Ok first_def Let_def L_def)
  next
    case False
    have "splitRevisionsAtIndex L (keep - 1) = (ks, ds)"
      using False keep sint_minus_one [of keep]
      by (simp add: splitRevisionsAtIndex_def ks_def ds_def nat_diff_distrib)
    with False rs srt(1) g t(1) changed nks show ?thesis
      by (simp add: syncCappRevision_def HandleCappUpdate_def andThen_Ok first_def Let_def L_def)
  qed
  have kept: "revisions_of c (w\<lparr>capprevisions := t\<rparr>) = set ks" using t(2) dist(2) R L by auto
  have "card (set ks) = min (card (revisions_of c w)) (nat (sint keep) - 1)"
    using dist(2) R by (simp add: ks_def distinct_card)
  moreover have "\<forall>r \<in> set ks. \<forall>d \<in> revisions_of c w - set ks.
      CreationTimestamp (Meta d) \<le> CreationTimestamp (Meta r)"
    using srt(4) R L by (auto simp: sorted_wrt_append simp flip: L_def)
  moreover have "\<forall>k. k \<notin> key_of ` revisions_of c w \<longrightarrow> tlookup t k = tlookup (capprevisions w) k"
    using t(3) R L by auto
  ultimately show ?thesis using run kept R L by (intro exI [of _ t]) auto
qed

lemma syncCappRevision_changed:
  assumes api: "revision_api l cl c w" and srt: "sort_lib l" and lib: "owner_refs_lib l"
    and limit: "history_limit w = Some keep" and keep: "2 \<le> sint keep"
    and some: "revisions_of c w \<noteq> {}"
    and changed: "\<And>r. newest_in (revisions_of c w) r \<Longrightarrow> \<not> isEqual c r"
    and fin: "\<And>r. r \<in> revisions_of c w \<Longrightarrow> Finalizers (Meta r) = []"
    and fresh: "\<And>r. newest_in (revisions_of c w) r \<Longrightarrow>
      tlookup (capprevisions w) (key_of (revisionOf l c (cr_RevisionNumber (Spec r) + 1))) = None"
  shows "\<exists>t latest new kept. syncCappRevision l cl c w = (Ok (), w\<lparr>capprevisions := t\<rparr>)
     \<and> newest_in (revisions_of c w) latest
     \<and> records l c (cr_RevisionNumber (Spec latest) + 1) new
     \<and> revisions_of c (w\<lparr>capprevisions := t\<rparr>) = insert new kept \<and> new \<notin> kept
     \<and> kept \<subseteq> revisions_of c w
     \<and> card kept = min (card (revisions_of c w)) (nat (sint keep) - 1)
     \<and> (\<forall>r \<in> kept. \<forall>d \<in> revisions_of c w - kept.
           CreationTimestamp (Meta d) \<le> CreationTimestamp (Meta r))"
proof -
  obtain rs latest rest where h: "GetCappRevisions l cl c w = (Ok rs, w)" "rs \<noteq> []"
      "l_SortCappRevisions l rs = latest # rest" "set (latest # rest) = revisions_of c w"
      "distinct (map key_of (latest # rest))"
      "sorted_wrt (\<lambda>x y. CreationTimestamp (Meta y) \<le> CreationTimestamp (Meta x)) (latest # rest)"
      "newest_in (revisions_of c w) latest"
    using history_sorted [OF api srt some] by metis
  let ?n = "cr_RevisionNumber (Spec latest) + 1"
  let ?k = "key_of (revisionOf l c ?n)"
  obtain t1 where t1: "syncCappRevision l cl c w = CreateCappRevision l cl c ?n (w\<lparr>capprevisions := t1\<rparr>)"
      "revisions_of c (w\<lparr>capprevisions := t1\<rparr>) \<subseteq> revisions_of c w"
      "card (revisions_of c (w\<lparr>capprevisions := t1\<rparr>))
         = min (card (revisions_of c w)) (nat (sint keep) - 1)"
      "\<forall>r \<in> revisions_of c (w\<lparr>capprevisions := t1\<rparr>).
         \<forall>d \<in> revisions_of c w - revisions_of c (w\<lparr>capprevisions := t1\<rparr>).
            CreationTimestamp (Meta d) \<le> CreationTimestamp (Meta r)"
      "\<forall>k. k \<notin> key_of ` revisions_of c w \<longrightarrow> tlookup t1 k = tlookup (capprevisions w) k"
    using syncCappRevision_prunes [OF api limit keep h(1-6) changed [OF h(7)] fin] by blast
  have nk: "?k \<notin> key_of ` revisions_of c w"
  proof
    assume "?k \<in> key_of ` revisions_of c w"
    then obtain x where "x \<in> revisions_of c w" "?k = key_of x" by blast
    then have "tlookup (capprevisions w) ?k = Some x" by (simp add: revisions_of_def)
    with fresh [OF h(7)] show False by simp
  qed
  then have fresh1: "tlookup (capprevisions (w\<lparr>capprevisions := t1\<rparr>)) ?k = None"
    using t1(5) fresh [OF h(7)] by simp
  have kapi: "kind_api (c_capprevisions cl) capprevisions capprevisions_update"
    using api by (simp add: revision_api_def)
  obtain t new where t: "syncCappRevision l cl c w = (Ok (), w\<lparr>capprevisions := t\<rparr>)"
      "tlookup t = (tlookup t1)(?k \<mapsto> new)" "records l c ?n new"
    using CreateCappRevision_run [OF kapi lib fresh1] t1(1) by auto
  have "revisions_of c (w\<lparr>capprevisions := t\<rparr>)
      = insert new (revisions_of c (w\<lparr>capprevisions := t1\<rparr>))"
    using revisions_of_put [of "w\<lparr>capprevisions := t\<rparr>" "w\<lparr>capprevisions := t1\<rparr>" l c ?n new]
      t(2,3) fresh1 by simp
  moreover have "new \<notin> revisions_of c (w\<lparr>capprevisions := t1\<rparr>)"
    using nk t1(2) t(3) unfolding records_def by (metis imageI subsetD)
  ultimately show ?thesis using t(1,3) t1(2-4) h(7) by blast
qed

text \<open>
  Whatever the history holds, a run ends without a panic when the limit is at least 2, in
  success or in an AlreadyExists error, and the history does not grow over the limit.
\<close>

lemma CreateCappRevision_cases:
  assumes kapi: "kind_api (c_capprevisions cl) capprevisions capprevisions_update"
    and lib: "owner_refs_lib l"
  obtains (created) t r where "CreateCappRevision l cl c n w = (Ok (), w\<lparr>capprevisions := t\<rparr>)"
      "tlookup (capprevisions w) (key_of (revisionOf l c n)) = None"
      "tlookup t = (tlookup (capprevisions w))(key_of (revisionOf l c n) \<mapsto> r)" "records l c n r"
  | (taken) e where "CreateCappRevision l cl c n w = (Err e, w)" "IsAlreadyExists e"
proof (cases "tlookup (capprevisions w) (key_of (revisionOf l c n))")
  case None
  from CreateCappRevision_run [OF kapi lib None] show ?thesis using created None by blast
next
  case (Some r0)
  have "Namespace (Meta (revisionOf l c n)) = Namespace (Meta c)"
    by (simp add: revisionOf_def newMeta_def)
  then obtain refs where refs: "l_SetOwnerReference l c (Meta (revisionOf l c n)) = Ok refs"
    using owner_refs_libD [OF lib] by metis
  let ?r = "(revisionOf l c n)\<lparr>Meta := (Meta (revisionOf l c n))\<lparr>OwnerReferences := refs\<rparr>\<rparr>"
  have "key_of ?r = key_of (revisionOf l c n)" by (simp add: key_of_def)
  with Some kind_api.create_taken [OF kapi, of w ?r] obtain e where
    e: "IsAlreadyExists e" "kcreate (c_capprevisions cl) ?r w = (Err e, w)" by auto
  then have "\<exists>e. CreateCappRevision l cl c n w = (Err e, w) \<and> IsAlreadyExists e"
    using refs by (simp add: CreateCappRevision_def Let_def andThen_Ok CreateResource_def wrapErr_Err)
  then show ?thesis using taken by blast
qed

lemma CreateCappRevision_any:
  assumes kapi: "kind_api (c_capprevisions cl) capprevisions capprevisions_update"
    and lib: "owner_refs_lib l"
    and fin: "\<And>r. r \<in> revisions_of c w \<Longrightarrow> Finalizers (Meta r) = []"
    and finite: "finite (revisions_of c w)"
  shows "\<exists>x t. CreateCappRevision l cl c n w = (x, w\<lparr>capprevisions := t\<rparr>)
     \<and> (x = Ok () \<or> (\<exists>e. x = Err e \<and> IsAlreadyExists e))
     \<and> card (revisions_of c (w\<lparr>capprevisions := t\<rparr>)) \<le> Suc (card (revisions_of c w))
     \<and> (\<forall>r \<in> revisions_of c (w\<lparr>capprevisions := t\<rparr>). Finalizers (Meta r) = [])"
proof (cases rule: CreateCappRevision_cases [OF kapi lib, of c n w])
  case (1 t r)
  have "revisions_of c (w\<lparr>capprevisions := t\<rparr>) = insert r (revisions_of c w)"
    using revisions_of_put [of "w\<lparr>capprevisions := t\<rparr>" w l c n r] 1(2-4) by simp
  with 1(1,4) fin finite show ?thesis
    by (intro exI [of _ "Ok ()"] exI [of _ t]) (simp add: card_insert_if records_def)
next
  case (2 e)
  then show ?thesis using fin by (intro exI [of _ "Err e"] exI [of _ "capprevisions w"]) simp
qed

lemma syncCappRevision_outcome:
  assumes api: "revision_api l cl c w" and srt: "sort_lib l"
    and limit: "history_limit w = Some keep" and keep: "2 \<le> sint keep"
    and fin: "\<And>r. r \<in> revisions_of c w \<Longrightarrow> Finalizers (Meta r) = []"
  obtains (equal) r where "syncCappRevision l cl c w = (Ok (), w)"
      "newest_in (revisions_of c w) r" "isEqual c r"
  | (changed) n t where
      "syncCappRevision l cl c w = CreateCappRevision l cl c n (w\<lparr>capprevisions := t\<rparr>)"
      "revisions_of c (w\<lparr>capprevisions := t\<rparr>) \<subseteq> revisions_of c w"
      "card (revisions_of c (w\<lparr>capprevisions := t\<rparr>)) < nat (sint keep)"
proof (cases "revisions_of c w = {}")
  case True
  obtain rs0 where rs0: "GetCappRevisions l cl c w = (Ok rs0, w)" "set rs0 = revisions_of c w"
    using GetCappRevisions_run [OF api] by blast
  with True have "syncCappRevision l cl c w = CreateCappRevision l cl c 1 (w\<lparr>capprevisions := capprevisions w\<rparr>)"
    by (simp add: syncCappRevision_def HandleCappCreation_def andThen_Ok)
  then show thesis by (rule changed) (use True keep in simp_all)
next
  case False
  obtain rs latest rest where h: "GetCappRevisions l cl c w = (Ok rs, w)" "rs \<noteq> []"
      "l_SortCappRevisions l rs = latest # rest" "set (latest # rest) = revisions_of c w"
      "distinct (map key_of (latest # rest))"
      "sorted_wrt (\<lambda>x y. CreationTimestamp (Meta y) \<le> CreationTimestamp (Meta x)) (latest # rest)"
      and newest: "newest_in (revisions_of c w) latest"
    using history_sorted [OF api srt False] by metis
  show thesis
  proof (cases "isEqual c latest")
    case True
    obtain g where g: "GetCappConfig cl w = (Ok g, w)"
      using history_limit_run [OF api limit] by blast
    have "syncCappRevision l cl c w = (Ok (), w)" using h(1-3) g True
      by (simp add: syncCappRevision_def HandleCappUpdate_def andThen_Ok first_def Let_def)
    from equal [OF this newest True] show thesis .
  next
    case False
    from syncCappRevision_prunes [OF api limit keep h False fin] obtain t where
      "syncCappRevision l cl c w
         = CreateCappRevision l cl c (cr_RevisionNumber (Spec latest) + 1) (w\<lparr>capprevisions := t\<rparr>)"
      "revisions_of c (w\<lparr>capprevisions := t\<rparr>) \<subseteq> revisions_of c w"
      "card (revisions_of c (w\<lparr>capprevisions := t\<rparr>)) \<le> nat (sint keep) - 1"
      by (metis min.cobounded2)
    then show thesis using keep by (intro changed) (simp_all, linarith)
  qed
qed

lemma revisions_of_finite: "revision_api l cl c w \<Longrightarrow> finite (revisions_of c w)"
  using GetCappRevisions_run [of l cl c w] by (metis finite_set)

lemma syncCappRevision_bounded:
  assumes api: "revision_api l cl c w" and srt: "sort_lib l" and lib: "owner_refs_lib l"
    and limit: "history_limit w = Some keep" and keep: "2 \<le> sint keep"
    and fin: "\<And>r. r \<in> revisions_of c w \<Longrightarrow> Finalizers (Meta r) = []"
  shows "\<exists>x t. syncCappRevision l cl c w = (x, w\<lparr>capprevisions := t\<rparr>)
     \<and> (x = Ok () \<or> (\<exists>e. x = Err e \<and> IsAlreadyExists e))
     \<and> (t = capprevisions w \<or> card (revisions_of c (w\<lparr>capprevisions := t\<rparr>)) \<le> nat (sint keep))
     \<and> (\<forall>r \<in> revisions_of c (w\<lparr>capprevisions := t\<rparr>). Finalizers (Meta r) = [])"
proof (cases rule: syncCappRevision_outcome [OF api srt limit keep])
  case (1 r)
  then show ?case by (rule fin)
next
  case (2 r)
  then show ?thesis using fin by (intro exI [of _ "Ok ()"] exI [of _ "capprevisions w"]) simp
next
  case (3 n t1)
  let ?w = "w\<lparr>capprevisions := t1\<rparr>"
  have kapi: "kind_api (c_capprevisions cl) capprevisions capprevisions_update"
    using api by (simp add: revision_api_def)
  have "finite (revisions_of c ?w)" using 3(2) revisions_of_finite [OF api] by (rule finite_subset)
  with CreateCappRevision_any [OF kapi lib, of c ?w n] fin 3(2) obtain x t where
    "CreateCappRevision l cl c n ?w = (x, w\<lparr>capprevisions := t\<rparr>)"
    "x = Ok () \<or> (\<exists>e. x = Err e \<and> IsAlreadyExists e)"
    "card (revisions_of c (w\<lparr>capprevisions := t\<rparr>)) \<le> Suc (card (revisions_of c ?w))"
    "\<forall>r \<in> revisions_of c (w\<lparr>capprevisions := t\<rparr>). Finalizers (Meta r) = []"
    by (auto dest: subsetD)
  with 3(1,3) show ?thesis by (intro exI [of _ x] exI [of _ t]) auto
qed

text \<open>
  The server notes when it creates an object. A revision that is created is then newer than
  those made before, and it is the Capp as the comparison sees it.
\<close>

definition stamps_creation ::
  "('sp, 'st) kind_client \<Rightarrow> (world \<Rightarrow> ('sp, 'st) table) \<Rightarrow> bool" where
  "stamps_creation kc tab \<longleftrightarrow>
     (\<forall>r w w' r'. kcreate kc r w = (Ok (), w') \<and> tlookup (tab w') (key_of r) = Some r' \<longrightarrow>
        CreationTimestamp (Meta r') = clock w)"

lemma mem_stamps_creation: "stamps_creation (c_capprevisions mem_client) capprevisions"
  by (auto simp: stamps_creation_def mem_client_def mem_create_def tlookup_put split: option.splits)

lemma CreateCappRevision_stamped:
  assumes "stamps_creation (c_capprevisions cl) capprevisions"
    and "CreateCappRevision l cl c n w = (Ok (), w')"
    and "tlookup (capprevisions w') (key_of (revisionOf l c n)) = Some r"
  shows "CreationTimestamp (Meta r) = clock w"
proof -
  from assms(2) obtain refs where "kcreate (c_capprevisions cl)
      ((revisionOf l c n)\<lparr>Meta := (Meta (revisionOf l c n))\<lparr>OwnerReferences := refs\<rparr>\<rparr>) w = (Ok (), w')"
    by (auto simp: CreateCappRevision_def Let_def andThen_eq_Ok CreateResource_def lift_def)
  with assms(1,3) show ?thesis unfolding stamps_creation_def by (fastforce simp: key_of_def)
qed

lemma isEqual_records: "records l c n r \<Longrightarrow> isEqual c r"
  by (simp add: records_def isEqual_def equalSpec_def equalAnnotations_def equalLabels_def revisionOf_def)

text \<open>
  With a limit of 1 the code keeps nothing: every revision is deleted, and then the number
  of the newest is read from the empty slice.
\<close>

lemma syncCappRevision_limit_one:
  assumes api: "revision_api l cl c w" and srt: "sort_lib l"
    and limit: "history_limit w = Some 1"
    and some: "revisions_of c w \<noteq> {}"
    and changed: "\<And>r. newest_in (revisions_of c w) r \<Longrightarrow> \<not> isEqual c r"
    and fin: "\<And>r. r \<in> revisions_of c w \<Longrightarrow> Finalizers (Meta r) = []"
  shows "\<exists>t. syncCappRevision l cl c w
       = (Panic ''index out of range [0] with length 0'', w\<lparr>capprevisions := t\<rparr>)
     \<and> revisions_of c (w\<lparr>capprevisions := t\<rparr>) = {}"
proof -
  obtain rs latest rest where h: "GetCappRevisions l cl c w = (Ok rs, w)" "rs \<noteq> []"
      "l_SortCappRevisions l rs = latest # rest" "set (latest # rest) = revisions_of c w"
      "distinct (map key_of (latest # rest))" "newest_in (revisions_of c w) latest"
    using history_sorted [OF api srt some] by metis
  obtain g where g: "GetCappConfig cl w = (Ok g, w)" "cfg_RevisionHistoryLimit (Spec g) = 1"
    using history_limit_run [OF api limit] by blast
  obtain t where t: "forEach (DeleteCappRevision cl) (latest # rest) w
        = (Ok (), w\<lparr>capprevisions := t\<rparr>)"
      "revisions_of c (w\<lparr>capprevisions := t\<rparr>) = revisions_of c w - set (latest # rest)"
    using deleteRevisions_run [OF api h(5)] fin h(4) by (metis order_refl)
  have "splitRevisionsAtIndex (latest # rest) (1 - 1) = ([], latest # rest)"
    by (simp add: splitRevisionsAtIndex_def)
  then have "syncCappRevision l cl c w
      = (Panic ''index out of range [0] with length 0'', w\<lparr>capprevisions := t\<rparr>)"
    using h(1-3) g t(1) changed [OF h(6)]
    by (simp add: syncCappRevision_def HandleCappUpdate_def andThen_def handle_def first_def Let_def
        del: forEach.simps)
  with t(2) h(4) show ?thesis by (intro exI [of _ t]) simp
qed

end
