(* ===== verification/RevisionProperties.thy ===== *)
theory RevisionProperties
  imports CappRevisionController SampleWorld
begin

text \<open>
  What the revision controller guarantees: the history of a Capp stays within its limit over
  any sequence of changes and runs while that is between 2 and 100, which revisions a change
  keeps, what happens with other limits, and that the newest revision is the Capp after a run.
\<close>

section \<open>Invariants of step relations\<close>

locale step_invariant =
  fixes step :: "'s \<Rightarrow> 's \<Rightarrow> bool" and holds :: "'s \<Rightarrow> bool"
  assumes preserved: "step s t \<Longrightarrow> holds s \<Longrightarrow> holds t"
begin

lemma reachable: "step\<^sup>*\<^sup>* s t \<Longrightarrow> holds s \<Longrightarrow> holds t"
  by (induction rule: rtranclp_induct) (auto intro: preserved)

end

section \<open>The history of one Capp\<close>

definition history :: "key \<Rightarrow> world \<Rightarrow> capp_revision set" where
  "history k w =
     {r. tlookup (capprevisions w) (key_of r) = Some r \<and> Namespace (Meta r) = nn_Namespace k
         \<and> selected (fmap_of_list [(cappNameLabelKey, nn_Name k)]) (Meta r)}"

lemma revisions_of_history: "revisions_of c w = history (key_of c) w"
  by (simp add: revisions_of_def history_def key_of_def)

lemma history_cong: "capprevisions w' = capprevisions w \<Longrightarrow> history k w' = history k w"
  by (simp add: history_def)

text \<open>
  A cluster in which the controller can work on the Capp of this key: a reachable API server
  and a name that is a label value.
\<close>

definition revision_cluster :: "lib \<Rightarrow> client \<Rightarrow> key \<Rightarrow> bool" where
  "revision_cluster l cl k \<longleftrightarrow>
     kind_api (c_capps cl) capps capps_update
     \<and> kind_api (c_capprevisions cl) capprevisions capprevisions_update
     \<and> kind_api (c_cappconfigs cl) cappconfigs cappconfigs_update
     \<and> l_NewRequirement l cappNameLabelKey (nn_Name k) = None
     \<and> owner_refs_lib l \<and> sort_lib l"

lemma revision_clusterD:
  assumes "revision_cluster l cl (key_of c)"
  shows "kind_api (c_capps cl) capps capps_update" "owner_refs_lib l" "sort_lib l"
    and "card (history (key_of c) w) \<le> RevisionListLimit \<Longrightarrow> revision_api l cl c w"
  using assms
  by (simp_all add: revision_cluster_def revision_api_def revisions_of_history)
    (simp add: key_of_def)

lemma config_of_limit:
  assumes "revision_cluster l cl k" and "history_limit w = Some keep"
  obtains g where "GetCappConfig cl w = (Ok g, w)" "cfg_RevisionHistoryLimit (Spec g) = keep"
  using assms kind_api.get_found [of "c_cappconfigs cl" cappconfigs cappconfigs_update w CappNS
      CappConfigName]
  by (auto simp: revision_cluster_def history_limit_def GetCappConfig_def)

text \<open>
  What the controller is made for: a limit from 2 to \<open>most\<close>, which is at most the 100 of one page, a
  history no longer than \<open>most\<close>, and revisions that no one holds back with a finalizer.
\<close>

definition limit_within :: "int \<Rightarrow> world \<Rightarrow> bool" where
  "limit_within most w \<longleftrightarrow> (\<exists>keep. history_limit w = Some keep \<and> 2 \<le> sint keep \<and> sint keep \<le> most)"

definition history_within :: "int \<Rightarrow> key \<Rightarrow> world \<Rightarrow> bool" where
  "history_within most k w \<longleftrightarrow>
     most \<le> 100 \<and> limit_within most w \<and> card (history k w) \<le> nat most
     \<and> (\<forall>r \<in> history k w. Finalizers (Meta r) = [])"

text \<open>
  What happens between two runs: anything that makes no new revision of the Capp and keeps the
  limit from 2 to \<open>most\<close>, such as a user's write to a Capp, a change of the limit, the loss of
  revisions, edits of them that put no finalizer on, or a run of the Capp controller.
\<close>

inductive history_step :: "lib \<Rightarrow> client \<Rightarrow> int \<Rightarrow> key \<Rightarrow> world \<Rightarrow> world \<Rightarrow> bool" for l cl most k where
  elsewhere: "key_of ` history k w' \<subseteq> key_of ` history k w \<Longrightarrow> limit_within most w' \<Longrightarrow>
    \<forall>r \<in> history k w'. Finalizers (Meta r) = [] \<Longrightarrow> history_step l cl most k w w'"
| run: "ReconcileRevision l cl k w = (x, w') \<Longrightarrow> history_step l cl most k w w'"

inductive_cases history_stepE: "history_step l cl most k w w'"

lemma history_finite: "finite (history k w)"
proof (rule finite_subset)
  show "history k w \<subseteq> set (capprevisions w)"
    by (auto simp: history_def dest: tlookup_in_set)
qed simp

lemma card_history_keys: "card (key_of ` history k w) = card (history k w)"
proof (rule card_image, rule inj_onI)
  fix r r' assume "r \<in> history k w" "r' \<in> history k w" "key_of r = key_of r'"
  then show "r = r'" unfolding history_def mem_Collect_eq by (metis option.inject)
qed

lemma history_within_card: "history_within most k w \<Longrightarrow> card (history k w) \<le> RevisionListLimit"
  by (auto simp: history_within_def RevisionListLimit_def)

lemma ReconcileRevision_bounded:
  assumes cluster: "revision_cluster l cl k" and within: "history_within most k w"
    and limit: "history_limit w = Some keep"
  shows "\<exists>x t. ReconcileRevision l cl k w = (Ok x, w\<lparr>capprevisions := t\<rparr>)
     \<and> (x = 0 \<or> x = RevisionRequeueTime) \<and> history_within most k (w\<lparr>capprevisions := t\<rparr>)
     \<and> (t = capprevisions w \<or> card (history k (w\<lparr>capprevisions := t\<rparr>)) \<le> nat (sint keep))"
proof -
  have capi: "kind_api (c_capps cl) capps capps_update"
    using cluster by (simp add: revision_cluster_def)
  have still: "history_within most k (w\<lparr>capprevisions := capprevisions w\<rparr>)" using within by simp
  show ?thesis
  proof (cases rule: kind_api.get_cases [OF capi, of w "nn_Namespace k" "nn_Name k"])
    case (2 e)
    then show ?thesis using still
      by (intro exI [of _ 0] exI [of _ "capprevisions w"])
        (simp add: ReconcileRevision_def handle_Err)
  next
    case (1 c)
    then have k: "k = key_of c" by simp
    show ?thesis
    proof (cases "DeletionTimestamp (Meta c) = None")
      case False
      with 1(2) still show ?thesis
        by (intro exI [of _ 0] exI [of _ "capprevisions w"])
          (simp add: ReconcileRevision_def handle_Ok)
    next
      case True
      note cl = revision_clusterD [OF cluster [unfolded k]]
      have api: "revision_api l cl c w"
        using history_within_card [OF within] by (intro cl(4)) (simp add: k)
      have fin: "Finalizers (Meta r) = []" if "r \<in> revisions_of c w" for r
        using within that by (simp add: history_within_def revisions_of_history k)
      have keep: "2 \<le> sint keep" "sint keep \<le> most"
        using within limit by (auto simp: history_within_def limit_within_def)
      obtain x t where t: "syncCappRevision l cl c w = (x, w\<lparr>capprevisions := t\<rparr>)"
          "x = Ok () \<or> (\<exists>e. x = Err e \<and> IsAlreadyExists e)"
          "t = capprevisions w \<or> card (revisions_of c (w\<lparr>capprevisions := t\<rparr>)) \<le> nat (sint keep)"
          "\<forall>r \<in> revisions_of c (w\<lparr>capprevisions := t\<rparr>). Finalizers (Meta r) = []"
        using syncCappRevision_bounded [OF api cl(3,2) limit keep(1) fin] by blast
      have "history_within most k (w\<lparr>capprevisions := t\<rparr>)"
        using t(3)
      proof
        assume "card (revisions_of c (w\<lparr>capprevisions := t\<rparr>)) \<le> nat (sint keep)"
        with within t(4) keep(2) show ?thesis
          by (auto simp: history_within_def limit_within_def history_limit_def revisions_of_history k)
      qed (use within in simp)
      with t(1-3) 1(2) True show ?thesis
        by (auto simp: ReconcileRevision_def handle_Ok handle_Err revisions_of_history k intro!: exI [of _ t])
    qed
  qed
qed

lemma history_within_limit:
  assumes "history_within most k w" obtains keep where "history_limit w = Some keep"
  using assms by (auto simp: history_within_def limit_within_def)

interpretation revision_history:
  step_invariant "history_step l cl most k" "\<lambda>w. revision_cluster l cl k \<and> history_within most k w"
  for l cl most k
proof (unfold_locales, elim conjE history_stepE, goal_cases)
  case (1 w w')
  have "card (history k w') \<le> card (history k w)"
    using card_mono [OF _ 1(3)] by (simp add: history_finite card_history_keys)
  with 1 show ?case by (simp add: history_within_def)
next
  case (2 w w' x)
  obtain keep where keep: "history_limit w = Some keep" using history_within_limit [OF 2(2)] .
  obtain y t where "ReconcileRevision l cl k w = (Ok y, w\<lparr>capprevisions := t\<rparr>)"
      "history_within most k (w\<lparr>capprevisions := t\<rparr>)"
    using ReconcileRevision_bounded [OF 2(1,2) keep] by blast
  with 2(1,3) show ?case by simp
qed

section \<open>Properties\<close>

text \<open>
  C16: the history stays within its limit, if that is between 2 and 100. Suppose that the limit
  is always from 2 to some \<open>most\<close> of at most 100, that no revision has a finalizer, that only the
  controller makes revisions of the Capp and that the history starts with at most \<open>most\<close>. Then it always has at
  most \<open>most\<close>, whatever happens between the runs, changes of the limit included; a run
  always ends in success, with or without a requeue, and if it changes the history it leaves no
  more than the limit of that moment. Limits outside that range are the subject of C20 and C21.
\<close>

theorem history_stays_bounded:
  assumes "revision_cluster l cl k" and "history_within most k w0"
    and "(history_step l cl most k)\<^sup>*\<^sup>* w0 w"
  shows "card (history k w) \<le> nat most
     \<and> (\<exists>keep x w'. history_limit w = Some keep
          \<and> ReconcileRevision l cl k w = (Ok x, w') \<and> (x = 0 \<or> x = RevisionRequeueTime)
          \<and> (w' = w \<or> card (history k w') \<le> nat (sint keep)))"
proof -
  have within: "history_within most k w"
    using revision_history.reachable [OF assms(3)] assms(1,2) by blast
  then obtain keep where keep: "history_limit w = Some keep" by (rule history_within_limit)
  from ReconcileRevision_bounded [OF assms(1) within keep] within keep show ?thesis
    by (auto simp: history_within_def)
qed

text \<open>The sample Capp in the in-memory cluster.\<close>

abbreviation sampleKey :: key where "sampleKey \<equiv> NamespacedName ''team'' ''web''"

lemma sample_cluster: "revision_cluster mem_lib mem_client sampleKey"
  using mem_capps.kind_api_axioms mem_capprevisions.kind_api_axioms mem_cappconfigs.kind_api_axioms
    mem_owner_refs_lib mem_sort_lib
  by (simp add: revision_cluster_def) (simp add: mem_lib_def)

lemma sample_keep [simp]: "cfg_RevisionHistoryLimit (Spec sampleConfig) = 2"
  by (simp add: sampleConfig_def)

lemma sample_limit: "history_limit sampleWorld = Some 2"
  by (simp add: history_limit_def)

theorem history_stays_bounded_witness:
  "card (history sampleKey (snd (ReconcileRevision mem_lib mem_client sampleKey sampleWorld))) \<le> 2"
proof -
  have within: "history_within 2 sampleKey sampleWorld"
    by (simp add: history_within_def limit_within_def sample_limit) (simp add: history_def)
  have "(history_step mem_lib mem_client 2 sampleKey)\<^sup>*\<^sup>* sampleWorld
      (snd (ReconcileRevision mem_lib mem_client sampleKey sampleWorld))"
    by (rule r_into_rtranclp, rule run, rule surjective_pairing)
  from history_stays_bounded [OF sample_cluster within this] show ?thesis by simp
qed

text \<open>
  C17: how a change is recorded. When the newest revisions differ from the Capp, the controller
  first deletes the oldest revisions until there are fewer than the limit, each of them no
  newer than any that stays, and then records the Capp, as it is, under the number after a
  newest one.
\<close>

theorem change_is_recorded:
  assumes cluster: "revision_cluster l cl (key_of c)"
    and live: "tlookup (capps w) (key_of c) = Some c" "DeletionTimestamp (Meta c) = None"
    and limit: "history_limit w = Some keep" "2 \<le> sint keep"
    and history: "history (key_of c) w \<noteq> {}" "card (history (key_of c) w) \<le> RevisionListLimit"
      "\<forall>r \<in> history (key_of c) w. Finalizers (Meta r) = []"
    and changed: "\<forall>r. newest_in (history (key_of c) w) r \<longrightarrow> \<not> isEqual c r
      \<and> tlookup (capprevisions w) (key_of (revisionOf l c (cr_RevisionNumber (Spec r) + 1))) = None"
  shows "\<exists>t latest new kept. ReconcileRevision l cl (key_of c) w = (Ok 0, w\<lparr>capprevisions := t\<rparr>)
     \<and> newest_in (history (key_of c) w) latest
     \<and> records l c (cr_RevisionNumber (Spec latest) + 1) new
     \<and> history (key_of c) (w\<lparr>capprevisions := t\<rparr>) = insert new kept \<and> new \<notin> kept
     \<and> kept \<subseteq> history (key_of c) w
     \<and> card kept = min (card (history (key_of c) w)) (nat (sint keep) - 1)
     \<and> (\<forall>r \<in> kept. \<forall>d \<in> history (key_of c) w - kept.
           CreationTimestamp (Meta d) \<le> CreationTimestamp (Meta r))"
proof -
  note cl = revision_clusterD [OF cluster]
  have get: "kget (c_capps cl) (nn_Namespace (key_of c)) (nn_Name (key_of c)) w = (Ok c, w)"
    using kind_api.get_found [OF cl(1)] live(1) by simp
  obtain t latest new kept where t: "syncCappRevision l cl c w = (Ok (), w\<lparr>capprevisions := t\<rparr>)"
      "newest_in (history (key_of c) w) latest" "records l c (cr_RevisionNumber (Spec latest) + 1) new"
      "history (key_of c) (w\<lparr>capprevisions := t\<rparr>) = insert new kept" "new \<notin> kept"
      "kept \<subseteq> history (key_of c) w"
      "card kept = min (card (history (key_of c) w)) (nat (sint keep) - 1)"
      "\<forall>r \<in> kept. \<forall>d \<in> history (key_of c) w - kept.
           CreationTimestamp (Meta d) \<le> CreationTimestamp (Meta r)"
    using syncCappRevision_changed [OF cl(4) [OF history(2)] cl(3,2) limit, unfolded revisions_of_history,
        OF history(1)] history(3) changed by blast
  have "ReconcileRevision l cl (key_of c) w = (Ok 0, w\<lparr>capprevisions := t\<rparr>)"
    using get live(2) t(1) by (simp add: ReconcileRevision_def handle_Ok)
  with t(2-8) show ?thesis by blast
qed

text \<open>The sample Capp with two revisions from when it had another label.\<close>

definition olderRevision :: "string \<Rightarrow> i64 \<Rightarrow> time \<Rightarrow> capp_revision" where
  "olderRevision n number created =
     \<lparr>TypeKind = [], Meta = (newMeta n ''team'' (fmap_of_list [(cappNameLabelKey, ''web'')]))
        \<lparr>CreationTimestamp := created\<rparr>,
      Spec = \<lparr>cr_RevisionNumber = number, cr_CappTemplate = \<lparr>ct_Spec = sampleSpec,
        ct_Labels = fmap_of_list [(''v'', ''0'')], ct_Annotations = fmempty\<rparr>\<rparr>, Status = ()\<rparr>"

definition revisedWorld :: world where
  "revisedWorld = sampleWorld\<lparr>capprevisions :=
     [olderRevision ''web-00001'' 1 10, olderRevision ''web-00002'' 2 20]\<rparr>"

lemma revisedWorld_simps [simp]:
  "capps revisedWorld = [sampleCapp]"
  "capprevisions revisedWorld = [olderRevision ''web-00001'' 1 10, olderRevision ''web-00002'' 2 20]"
  "history_limit revisedWorld = Some 2"
  by (simp_all add: revisedWorld_def history_limit_def)

lemma olderRevision_simps [simp]:
  "key_of (olderRevision n number t) = NamespacedName ''team'' n"
  "Namespace (Meta (olderRevision n number t)) = ''team''"
  "Finalizers (Meta (olderRevision n number t)) = []"
  "CreationTimestamp (Meta (olderRevision n number t)) = t"
  "cr_RevisionNumber (Spec (olderRevision n number t)) = number"
  "selected (fmupd cappNameLabelKey ''web'' fmempty) (Meta (olderRevision n number t))"
  by (simp_all add: olderRevision_def newMeta_def key_of_def selected_def fmsubset.rep_eq)

lemma olderRevision_differs: "\<not> isEqual sampleCapp (olderRevision n number t)"
proof
  assume "isEqual sampleCapp (olderRevision n number t)"
  then have "fmempty = fmap_of_list [(''v'', ''0'')]"
    by (simp add: isEqual_def equalLabels_def olderRevision_def sampleCapp_def newMeta_def)
  then have "fmlookup fmempty ''v'' = fmlookup (fmap_of_list [(''v'', ''0'')]) ''v''" by (rule arg_cong)
  then show False by simp
qed

lemma revised_history:
  "history sampleKey revisedWorld
     = {olderRevision ''web-00001'' 1 10, olderRevision ''web-00002'' 2 20}"
proof (intro set_eqI iffI)
  fix r assume "r \<in> history sampleKey revisedWorld"
  then have "tlookup (capprevisions revisedWorld) (key_of r) = Some r" by (simp add: history_def)
  then have "r \<in> set (capprevisions revisedWorld)" by (rule tlookup_in_set)
  then show "r \<in> {olderRevision ''web-00001'' 1 10, olderRevision ''web-00002'' 2 20}" by simp
next
  fix r assume "r \<in> {olderRevision ''web-00001'' 1 10, olderRevision ''web-00002'' 2 20}"
  then consider "r = olderRevision ''web-00001'' 1 10" | "r = olderRevision ''web-00002'' 2 20" by blast
  then show "r \<in> history sampleKey revisedWorld"
    by cases (simp_all add: history_def tlookup_Cons)
qed

lemma revised_newest:
  "newest_in (history sampleKey revisedWorld) r \<longleftrightarrow> r = olderRevision ''web-00002'' 2 20"
  unfolding revised_history newest_in_def by auto

lemma fmt_05d_3: "fmt_05d (3 :: i64) = ''00003''"
  by code_simp

lemma revised_next:
  "key_of (revisionOf mem_lib sampleCapp 3) = NamespacedName ''team'' ''web-00003''"
  by (simp add: revisionOf_def newMeta_def key_of_def)
    (simp add: mem_lib_def fmt_05d_3)

theorem change_is_recorded_witness:
  "\<exists>t. ReconcileRevision mem_lib mem_client sampleKey revisedWorld
       = (Ok 0, revisedWorld\<lparr>capprevisions := t\<rparr>)
     \<and> card (history sampleKey (revisedWorld\<lparr>capprevisions := t\<rparr>)) = 2
     \<and> (\<exists>r \<in> history sampleKey (revisedWorld\<lparr>capprevisions := t\<rparr>). records mem_lib sampleCapp 3 r)"
proof -
  have card: "card (history sampleKey revisedWorld) = 2"
    unfolding revised_history by (simp add: olderRevision_def)
  have after: "newest_in (history sampleKey revisedWorld) r \<Longrightarrow> \<not> isEqual sampleCapp r
      \<and> tlookup (capprevisions revisedWorld)
          (key_of (revisionOf mem_lib sampleCapp (cr_RevisionNumber (Spec r) + 1))) = None" for r
    unfolding revised_newest by (simp add: olderRevision_differs revised_next tlookup_Cons)
  obtain t latest new kept where t:
      "ReconcileRevision mem_lib mem_client sampleKey revisedWorld
         = (Ok 0, revisedWorld\<lparr>capprevisions := t\<rparr>)"
      "newest_in (history sampleKey revisedWorld) latest"
      "records mem_lib sampleCapp (cr_RevisionNumber (Spec latest) + 1) new"
      "history sampleKey (revisedWorld\<lparr>capprevisions := t\<rparr>) = insert new kept" "new \<notin> kept"
      "card kept = 1"
    using change_is_recorded [of mem_lib mem_client sampleCapp revisedWorld 2] sample_cluster after card
    by (auto simp: RevisionListLimit_def revised_history)
  from t(2) have "latest = olderRevision ''web-00002'' 2 20" by (simp only: revised_newest)
  with t(3) have "records mem_lib sampleCapp 3 new" by simp
  moreover have "card (insert new kept) = 2" using t(5,6) by (simp add: card_insert_if card_ge_0_finite)
  ultimately show ?thesis using t(1,4) by (intro exI [of _ t]) auto
qed

text \<open>
  C20: a limit of 1, which the API allows, destroys the history. On the first change all the
  revisions are deleted, and then the controller panics as it takes the number of the newest
  one from an empty slice; nothing is recorded.
\<close>

theorem limit_of_one_panics:
  assumes cluster: "revision_cluster l cl (key_of c)"
    and live: "tlookup (capps w) (key_of c) = Some c" "DeletionTimestamp (Meta c) = None"
    and limit: "history_limit w = Some 1"
    and history: "history (key_of c) w \<noteq> {}" "card (history (key_of c) w) \<le> RevisionListLimit"
      "\<forall>r \<in> history (key_of c) w. Finalizers (Meta r) = []"
    and changed: "\<forall>r. newest_in (history (key_of c) w) r \<longrightarrow> \<not> isEqual c r"
  shows "\<exists>t. ReconcileRevision l cl (key_of c) w
         = (Panic ''index out of range [0] with length 0'', w\<lparr>capprevisions := t\<rparr>)
     \<and> history (key_of c) (w\<lparr>capprevisions := t\<rparr>) = {}"
proof -
  note cl = revision_clusterD [OF cluster]
  have get: "kget (c_capps cl) (nn_Namespace (key_of c)) (nn_Name (key_of c)) w = (Ok c, w)"
    using kind_api.get_found [OF cl(1)] live(1) by simp
  obtain t where t: "syncCappRevision l cl c w
        = (Panic ''index out of range [0] with length 0'', w\<lparr>capprevisions := t\<rparr>)"
      "history (key_of c) (w\<lparr>capprevisions := t\<rparr>) = {}"
    using syncCappRevision_limit_one [OF cl(4) [OF history(2)] cl(3) limit,
        unfolded revisions_of_history, OF history(1)] history(3) changed by blast
  have "ReconcileRevision l cl (key_of c) w
      = (Panic ''index out of range [0] with length 0'', w\<lparr>capprevisions := t\<rparr>)"
    using get live(2) t(1) by (simp add: ReconcileRevision_def handle_def)
  with t(2) show ?thesis by blast
qed

definition limitOneWorld :: world where
  "limitOneWorld = revisedWorld\<lparr>cappconfigs :=
     [sampleConfig\<lparr>Spec := (Spec sampleConfig)\<lparr>cfg_RevisionHistoryLimit := 1\<rparr>\<rparr>]\<rparr>"

theorem limit_of_one_panics_witness:
  "\<exists>t. ReconcileRevision mem_lib mem_client sampleKey limitOneWorld
       = (Panic ''index out of range [0] with length 0'', limitOneWorld\<lparr>capprevisions := t\<rparr>)
     \<and> history sampleKey (limitOneWorld\<lparr>capprevisions := t\<rparr>) = {}"
proof -
  have h: "history sampleKey limitOneWorld = history sampleKey revisedWorld"
    by (rule history_cong) (simp add: limitOneWorld_def)
  have "key_of (sampleConfig\<lparr>Spec := s\<rparr>) = NamespacedName CappNS CappConfigName" for s
    using sample_keys(2) by (simp add: key_of_def)
  then have "history_limit limitOneWorld = Some 1"
    by (simp add: history_limit_def limitOneWorld_def tlookup_Cons)
  moreover have "card (history sampleKey revisedWorld) \<le> RevisionListLimit"
    unfolding revised_history by (simp add: olderRevision_def RevisionListLimit_def)
  moreover have "newest_in (history sampleKey revisedWorld) r \<Longrightarrow> \<not> isEqual sampleCapp r" for r
    unfolding revised_newest by (simp add: olderRevision_differs)
  ultimately show ?thesis
    using limit_of_one_panics [of mem_lib mem_client sampleCapp limitOneWorld] sample_cluster
    unfolding sample_keys h by (simp add: revised_history) (simp add: limitOneWorld_def)
qed

text \<open>
  C21: a limit above 100 is not kept. The controller sees at most the 100 revisions of one page,
  always fewer than the limit, so a run never deletes a revision, however many there are.
\<close>

theorem large_limit_never_prunes:
  assumes cluster: "revision_cluster l cl (key_of c)"
    and live: "tlookup (capps w) (key_of c) = Some c" "DeletionTimestamp (Meta c) = None"
    and limit: "history_limit w = Some keep" "100 < sint keep"
  shows "\<exists>x t. ReconcileRevision l cl (key_of c) w = (Ok x, w\<lparr>capprevisions := t\<rparr>)
     \<and> (x = 0 \<or> x = RevisionRequeueTime)
     \<and> (\<forall>k r. tlookup (capprevisions w) k = Some r \<longrightarrow> tlookup t k = Some r)"
proof -
  have kapi: "kind_api (c_capprevisions cl) capprevisions capprevisions_update" and lib: "owner_refs_lib l"
    and srt: "sort_lib l" and capi: "kind_api (c_capps cl) capps capps_update"
    using cluster by (simp_all add: revision_cluster_def)
  obtain rs where rs: "GetCappRevisions l cl c w = (Ok rs, w)" "length rs \<le> 100"
      "distinct (map key_of rs)"
    using cluster kind_api.list_limited [OF kapi, of "Namespace (Meta c)"
        "fmap_of_list [(cappNameLabelKey, Name (Meta c))]" 100 w]
    by (auto simp: revision_cluster_def GetCappRevisions_def RevisionListLimit_def key_of_def)
  obtain g where g: "GetCappConfig cl w = (Ok g, w)" "cfg_RevisionHistoryLimit (Spec g) = keep"
    using config_of_limit [OF cluster limit(1)] .
  have "syncCappRevision l cl c w = (Ok (), w) \<or> (\<exists>n. syncCappRevision l cl c w = CreateCappRevision l cl c n w)"
  proof (cases rs)
    case Nil
    with rs(1) show ?thesis by (auto simp: syncCappRevision_def HandleCappCreation_def andThen_Ok)
  next
    case (Cons r0 rs0)
    have len: "length (l_SortCappRevisions l rs) = length rs" using sorted_revisions(3) [OF srt rs(3)] .
    with Cons obtain latest rest where l: "l_SortCappRevisions l rs = latest # rest"
      by (cases "l_SortCappRevisions l rs") auto
    have "int (length (latest # rest)) < sint keep" using len l rs(2) limit(2) by simp
    with Cons l g rs(1) show ?thesis
      by (auto simp: syncCappRevision_def HandleCappUpdate_def andThen_Ok first_def Let_def)
  qed
  then have "\<exists>x t. syncCappRevision l cl c w = (x, w\<lparr>capprevisions := t\<rparr>)
      \<and> (x = Ok () \<or> (\<exists>e. x = Err e \<and> IsAlreadyExists e))
      \<and> (\<forall>k r. tlookup (capprevisions w) k = Some r \<longrightarrow> tlookup t k = Some r)"
  proof (elim disjE exE)
    assume "syncCappRevision l cl c w = (Ok (), w)"
    then show ?thesis by (intro exI [of _ "Ok ()"] exI [of _ "capprevisions w"]) simp
  next
    fix n assume n: "syncCappRevision l cl c w = CreateCappRevision l cl c n w"
    show ?thesis
    proof (cases rule: CreateCappRevision_cases [OF kapi lib, of c n w])
      case (1 t r)
      with n show ?thesis by (intro exI [of _ "Ok ()"] exI [of _ t]) auto
    next
      case (2 e)
      with n show ?thesis by (intro exI [of _ "Err e"] exI [of _ "capprevisions w"]) simp
    qed
  qed
  then obtain x t where t: "syncCappRevision l cl c w = (x, w\<lparr>capprevisions := t\<rparr>)"
      "x = Ok () \<or> (\<exists>e. x = Err e \<and> IsAlreadyExists e)"
      "\<forall>k r. tlookup (capprevisions w) k = Some r \<longrightarrow> tlookup t k = Some r" by blast
  have "kget (c_capps cl) (nn_Namespace (key_of c)) (nn_Name (key_of c)) w = (Ok c, w)"
    using kind_api.get_found [OF capi] live(1) by simp
  with t live(2) show ?thesis
    by (auto simp: ReconcileRevision_def handle_Ok handle_Err intro!: exI [of _ t])
qed

definition longHistoryWorld :: world where
  "longHistoryWorld = revisedWorld\<lparr>cappconfigs :=
     [sampleConfig\<lparr>Spec := (Spec sampleConfig)\<lparr>cfg_RevisionHistoryLimit := 200\<rparr>\<rparr>]\<rparr>"

theorem large_limit_never_prunes_witness:
  "\<exists>x t. ReconcileRevision mem_lib mem_client sampleKey longHistoryWorld
       = (Ok x, longHistoryWorld\<lparr>capprevisions := t\<rparr>)
     \<and> tlookup t (NamespacedName ''team'' ''web-00001'') = Some (olderRevision ''web-00001'' 1 10)"
proof -
  have "key_of (sampleConfig\<lparr>Spec := s\<rparr>) = NamespacedName CappNS CappConfigName" for s
    using sample_keys(2) by (simp add: key_of_def)
  then have "history_limit longHistoryWorld = Some 200"
    by (simp add: history_limit_def longHistoryWorld_def tlookup_Cons)
  moreover have "capps longHistoryWorld = [sampleCapp]"
    "tlookup (capprevisions longHistoryWorld) (NamespacedName ''team'' ''web-00001'')
       = Some (olderRevision ''web-00001'' 1 10)"
    by (simp_all add: longHistoryWorld_def tlookup_Cons)
  ultimately show ?thesis
    using large_limit_never_prunes [of mem_lib mem_client sampleCapp longHistoryWorld 200]
      sample_cluster by auto
qed

section \<open>What is recorded\<close>

text \<open>
  C40: what is recorded is recognised. When a run on a live Capp within the limits ends in success, a newest
  revision holds the Capp's spec, its labels and its annotations but for the note of who wrote
  it, and the next run changes nothing: one change makes one revision. This needs
  that the server stamps what it creates and that the revisions there are older
  than the moment of the run; the time has a resolution of one second.
\<close>

theorem newest_records_capp:
  assumes cluster: "revision_cluster l cl (key_of c)"
    and stamps: "stamps_creation (c_capprevisions cl) capprevisions"
    and live: "tlookup (capps w) (key_of c) = Some c" "DeletionTimestamp (Meta c) = None"
    and within: "history_within most (key_of c) w"
    and past: "\<forall>r \<in> history (key_of c) w. CreationTimestamp (Meta r) < clock w"
    and run: "ReconcileRevision l cl (key_of c) w = (Ok 0, w1)"
  shows "(\<exists>r. newest_in (history (key_of c) w1) r
       \<and> ct_Spec (cr_CappTemplate (Spec r)) = Spec c
       \<and> ct_Labels (cr_CappTemplate (Spec r)) = Labels (Meta c)
       \<and> fmdrop ''rcs.dana.io/last-updated-by'' (ct_Annotations (cr_CappTemplate (Spec r)))
           = fmdrop ''rcs.dana.io/last-updated-by'' (Annotations (Meta c)))
     \<and> ReconcileRevision l cl (key_of c) w1 = (Ok 0, w1)"
proof -
  note cl = revision_clusterD [OF cluster]
  have sync: "ReconcileRevision l cl (key_of c) v
      = handle (syncCappRevision l cl c)
          (\<lambda>err. if IsConflict err \<or> IsAlreadyExists err then ok RevisionRequeueTime
             else throw (new_error (''failed to sync Capp: '' @ err_text err))) (\<lambda>_. ok 0) v"
    if "capps v = capps w" for v
    using kind_api.get_found [OF cl(1), of v] live that by (simp add: ReconcileRevision_def handle_Ok)
  have api: "revision_api l cl c w" using cl(4) history_within_card [OF within] .
  obtain keep where limit: "history_limit w = Some keep" "2 \<le> sint keep"
    using within by (auto simp: history_within_def limit_within_def)
  have fin: "Finalizers (Meta r) = []" if "r \<in> revisions_of c w" for r
    using within that by (simp add: history_within_def revisions_of_history)
  have "(\<exists>r. newest_in (revisions_of c w1) r \<and> isEqual c r) \<and> ReconcileRevision l cl (key_of c) w1 = (Ok 0, w1)"
  proof (cases rule: syncCappRevision_outcome [OF api cl(3) limit])
    case (1 r)
    then show ?case by (rule fin)
  next
    case (2 r)
    with run have "w1 = w" by (simp add: sync handle_Ok)
    with 2 run show ?thesis by blast
  next
    case (3 n t1)
    let ?v = "w\<lparr>capprevisions := t1\<rparr>"
    have kapi: "kind_api (c_capprevisions cl) capprevisions capprevisions_update"
      using cluster by (simp add: revision_cluster_def)
    show ?thesis
    proof (cases rule: CreateCappRevision_cases [OF kapi cl(2), of c n ?v])
      case created: (1 t new)
      with 3(1) run have w1: "w1 = w\<lparr>capprevisions := t\<rparr>" by (simp add: sync handle_Ok)
      have R: "revisions_of c w1 = insert new (revisions_of c ?v)"
        using revisions_of_put [of w1 ?v l c n new] created(2-4) by (simp add: w1)
      have "CreationTimestamp (Meta new) = clock w"
        using CreateCappRevision_stamped [OF stamps created(1), of new] created(3) by simp
      with past 3(2) have newest: "newest_in (revisions_of c w1) r \<longleftrightarrow> r = new" for r
        unfolding R newest_in_def by (fastforce simp: revisions_of_history dest: subsetD)
      have "syncCappRevision l cl c w1 = (Ok (), w1)"
      proof (rule syncCappRevision_equal [OF _ cl(3)])
        show "history_limit w1 = Some keep" using limit(1) by (simp add: w1 history_limit_def)
        have "sint keep \<le> 100" using within limit(1) by (auto simp: history_within_def limit_within_def)
        moreover have "card (revisions_of c w1) \<le> Suc (card (revisions_of c ?v))"
          unfolding R by (rule card_insert_le_m1) (simp_all add: revisions_of_history history_finite)
        ultimately show "revision_api l cl c w1"
          using 3(3) by (intro cl(4)) (simp add: revisions_of_history RevisionListLimit_def)
      qed (use newest R isEqual_records [OF created(4)] in auto)
      with newest isEqual_records [OF created(4)] show ?thesis by (simp add: sync w1 handle_Ok)
    next
      case (2 e)
      with 3(1) run show ?thesis by (simp add: sync handle_Err RevisionRequeueTime_def)
    qed
  qed
  then show ?thesis
    by (auto simp: revisions_of_history isEqual_def equalSpec_def equalLabels_def equalAnnotations_def
        annotationToIgnore_def CappAPIGroup_def)
qed

text \<open>The two older revisions, some time later.\<close>

abbreviation laterWorld :: world where "laterWorld \<equiv> revisedWorld\<lparr>clock := 30\<rparr>"

lemma later_history: "history sampleKey laterWorld = history sampleKey revisedWorld"
  by (rule history_cong) simp

theorem newest_records_capp_witness:
  "\<exists>w1. ReconcileRevision mem_lib mem_client sampleKey laterWorld = (Ok 0, w1)
     \<and> ReconcileRevision mem_lib mem_client sampleKey w1 = (Ok 0, w1)"
proof -
  have card: "card (history sampleKey laterWorld) = 2"
    unfolding later_history revised_history by (simp add: olderRevision_def)
  have limit: "history_limit laterWorld = Some 2" by (simp add: history_limit_def revisedWorld_def)
  have within: "history_within 2 (key_of sampleCapp) laterWorld"
    using card limit
    by (simp add: history_within_def limit_within_def) (simp add: later_history revised_history)
  note cl = revision_clusterD [of mem_lib mem_client sampleCapp, simplified, OF sample_cluster]
  have after: "newest_in (revisions_of sampleCapp laterWorld) r \<Longrightarrow> \<not> isEqual sampleCapp r
      \<and> tlookup (capprevisions laterWorld)
          (key_of (revisionOf mem_lib sampleCapp (cr_RevisionNumber (Spec r) + 1))) = None" for r
    unfolding revisions_of_history sample_keys later_history revised_newest
    by (simp add: olderRevision_differs revised_next tlookup_Cons)
  have api: "revision_api mem_lib mem_client sampleCapp laterWorld"
    using cl(4) card by (simp add: RevisionListLimit_def)
  have "revisions_of sampleCapp laterWorld \<noteq> {}" "r \<in> revisions_of sampleCapp laterWorld \<Longrightarrow> Finalizers (Meta r) = []" for r
    by (auto simp: revisions_of_history later_history revised_history)
  with syncCappRevision_changed [OF api cl(3,2) limit _ _ after [THEN conjunct1] _ after [THEN conjunct2]]
  obtain t where "syncCappRevision mem_lib mem_client sampleCapp laterWorld
      = (Ok (), laterWorld\<lparr>capprevisions := t\<rparr>)" by auto
  then have "\<exists>w1. ReconcileRevision mem_lib mem_client sampleKey laterWorld = (Ok 0, w1)"
    using kind_api.get_found [OF cl(1), of laterWorld "''team''" "''web''" sampleCapp]
    by (simp add: ReconcileRevision_def handle_Ok)
  then show ?thesis
    using newest_records_capp [of mem_lib mem_client sampleCapp laterWorld 2] sample_cluster within
      mem_stamps_creation by (auto simp: later_history revised_history)
qed

end
