(* ===== verification/CappStatus.thy ===== *)
theory CappStatus
  imports ResourceManager
begin

text \<open>
  The status package (\<open>status/*.go\<close>): the sub-statuses read back from the managed objects, the
  Ready condition derived from them, and \<open>SyncStatus\<close>, which writes the status subresource
  only when something other than a transition time has changed.
\<close>

section \<open>serving.go\<close>

definition KnativeLabelKey :: string where
  "KnativeLabelKey = ''serving.knative.dev/configuration''"
definition ClientListLimit :: nat where "ClientListLimit = 100"

definition revisionInfoOf :: "knative_revision \<Rightarrow> revision_info" where
  "revisionInfoOf revision = \<lparr>ri_Status = Status revision, ri_Name = Name (Meta revision)\<rparr>"

definition buildRevisionsStatus :: "lib \<Rightarrow> client \<Rightarrow> capp \<Rightarrow> revision_info list act" where
  "buildRevisionsStatus l cl capp =
     (case l_NewRequirement l KnativeLabelKey (Name (Meta capp)) of
        Some err \<Rightarrow> throw err
      | None \<Rightarrow>
          andThen (klist (c_knrevisions cl) (Namespace (Meta capp))
                     (fmap_of_list [(KnativeLabelKey, Name (Meta capp))]) (Some ClientListLimit))
            (\<lambda>items. ok (map revisionInfoOf (l_SortKnativeRevisions l items))))"

definition buildKnativeStatus ::
  "lib \<Rightarrow> client \<Rightarrow> capp \<Rightarrow> bool \<Rightarrow> (service_status \<times> revision_info list) act" where
  "buildKnativeStatus l cl capp isRequired =
     (if isRequired
      then handle (kget (c_ksvcs cl) (Namespace (Meta capp)) (Name (Meta capp)))
             (\<lambda>err. if IsNotFound err then ok (zeroServiceStatus, []) else throw err)
             (\<lambda>kservice. andThen (buildRevisionsStatus l cl capp) (\<lambda>revisionsStatus.
                ok (Status kservice, revisionsStatus)))
      else ok (zeroServiceStatus, []))"

section \<open>logging.go\<close>

definition loggingResourceInvalid :: string where
  "loggingResourceInvalid = ''LoggingResourceInvalid''"
definition loggingReady :: string where "loggingReady = ''LoggingIsReady''"
definition conditionReady :: string where "conditionReady = ''ready''"

definition newCondition :: "string \<Rightarrow> string \<Rightarrow> string \<Rightarrow> string \<Rightarrow> condition" where
  "newCondition type st reason msg =
     \<lparr>cond_Type = type, cond_Status = st, cond_Reason = reason, cond_Message = msg,
      cond_LastTransitionTime = None, cond_rest = []\<rparr>"

definition now :: "time act" where
  "now w = (Ok (clock w), w)"

definition buildLoggingStatus ::
  "lib \<Rightarrow> client \<Rightarrow> capp \<Rightarrow> logging_status \<Rightarrow> bool \<Rightarrow> logging_status act" where
  "buildLoggingStatus l cl capp existing isRequired =
     (if \<not> isRequired then ok zeroLoggingStatus
      else
        handle (kget (c_flows cl) (Namespace (Meta capp)) (Name (Meta capp)))
          (\<lambda>err. if IsNotFound err then ok zeroLoggingStatus else throw err)
          (\<lambda>syslogNGFlow.
        handle (kget (c_outputs cl) (Namespace (Meta capp)) (Name (Meta capp)))
          (\<lambda>err. if IsNotFound err then ok zeroLoggingStatus else throw err)
          (\<lambda>syslogNGOutput.
        andThen now (\<lambda>t.
          let isLoggingHealthy = lo_ProblemsCount (Status syslogNGFlow) = 0
                \<and> lo_ProblemsCount (Status syslogNGOutput) = 0;
              condition = newCondition loggingReady
                (if isLoggingHealthy then ''True'' else ''False'')
                (if isLoggingHealthy then conditionReady else loggingResourceInvalid) []
          in ok (existing\<lparr>ls_SyslogNGFlow := Status syslogNGFlow,
                          ls_SyslogNGOutput := Status syslogNGOutput,
                          ls_Conditions :=
                            l_SetStatusCondition l t (ls_Conditions existing) condition\<rparr>)))))"

section \<open>route.go\<close>

definition statusOrZero ::
  "('sp, conditioned_status) kind_client \<Rightarrow> string \<Rightarrow> string \<Rightarrow> bool \<Rightarrow> conditioned_status act"
where
  "statusOrZero kc ns n isRequired =
     (if \<not> isRequired then ok zeroConditioned
      else handle (kget kc ns n)
             (\<lambda>err. if IsNotFound err then ok zeroConditioned else throw err)
             (\<lambda>r. ok (Status r)))"

definition routeObjectName :: "capp_config \<Rightarrow> capp \<Rightarrow> string" where
  "routeObjectName cfg capp =
     GenerateResourceName (rt_Hostname (cs_RouteSpec (Spec capp))) (dns_Zone (cfg_DNSConfig (Spec cfg)))"

definition buildDomainMappingStatus ::
  "client \<Rightarrow> capp \<Rightarrow> bool \<Rightarrow> capp_config \<Rightarrow> conditioned_status act" where
  "buildDomainMappingStatus cl capp isRequired cfg =
     statusOrZero (c_domainmappings cl) (Namespace (Meta capp)) (routeObjectName cfg capp) isRequired"

definition buildCNAMERecordStatus ::
  "client \<Rightarrow> capp \<Rightarrow> capp_config \<Rightarrow> conditioned_status act" where
  "buildCNAMERecordStatus cl capp cfg =
     statusOrZero (c_cnamerecords cl) (Namespace (Meta capp)) (routeObjectName cfg capp) True"

definition buildDNSRecordStatus ::
  "client \<Rightarrow> capp \<Rightarrow> bool \<Rightarrow> capp_config \<Rightarrow> conditioned_status act" where
  "buildDNSRecordStatus cl capp isRequired cfg =
     (if \<not> isRequired then ok zeroConditioned else buildCNAMERecordStatus cl capp cfg)"

lemma buildDNSRecordStatus_get:
  "buildDNSRecordStatus cl capp isRequired cfg =
     statusOrZero (c_cnamerecords cl) (Namespace (Meta capp)) (routeObjectName cfg capp) isRequired"
  by (simp add: buildDNSRecordStatus_def buildCNAMERecordStatus_def statusOrZero_def)

definition buildCertificateStatus ::
  "client \<Rightarrow> capp \<Rightarrow> bool \<Rightarrow> capp_config \<Rightarrow> conditioned_status act" where
  "buildCertificateStatus cl capp isRequired cfg =
     statusOrZero (c_certificates cl) (Namespace (Meta capp)) (routeObjectName cfg capp) isRequired"

definition buildRouteStatus ::
  "client \<Rightarrow> capp \<Rightarrow> bool \<Rightarrow> bool \<Rightarrow> bool \<Rightarrow> capp_config \<Rightarrow> route_status act" where
  "buildRouteStatus cl capp dmRequired dnsRequired certRequired cfg =
     andThen (buildDomainMappingStatus cl capp dmRequired cfg) (\<lambda>domainMappingStatus.
     andThen (buildDNSRecordStatus cl capp dnsRequired cfg) (\<lambda>dnsRecordStatus.
     andThen (buildCertificateStatus cl capp certRequired cfg) (\<lambda>certificateStatus.
       ok \<lparr>rs_DomainMapping = domainMappingStatus, rs_DNSRecord = dnsRecordStatus,
           rs_Certificate = certificateStatus\<rparr>)))"

section \<open>volumes.go\<close>

fun buildVolumesStatusOf :: "client \<Rightarrow> capp \<Rightarrow> nfs_volume list \<Rightarrow> nfs_volume_status list act" where
  "buildVolumesStatusOf cl capp [] = ok []"
| "buildVolumesStatusOf cl capp (v # vs) =
     andThen
       (handle (kget (c_nfspvcs cl) (Namespace (Meta capp)) (nfs_Name v))
          (\<lambda>err. if IsNotFound err then ok zeroNfsPvcStatus else throw err)
          (\<lambda>r. ok (Status r)))
       (\<lambda>s. andThen (buildVolumesStatusOf cl capp vs) (\<lambda>rest.
          ok (\<lparr>nv_VolumeName = nfs_Name v, nv_Status = s\<rparr> # rest)))"

definition buildVolumesStatus :: "client \<Rightarrow> capp \<Rightarrow> bool \<Rightarrow> nfs_volume_status list act" where
  "buildVolumesStatus cl capp isRequired =
     (if \<not> isRequired then ok []
      else buildVolumesStatusOf cl capp (cs_NFSVolumes (Spec capp)))"

section \<open>eventing.go\<close>

text \<open>\<open>GetCondition\<close> of the Knative statuses: the condition of that type, or nil.\<close>

definition GetCondition :: "condition list \<Rightarrow> string \<Rightarrow> condition option" where
  "GetCondition cs type = find (\<lambda>c. cond_Type c = type) cs"

definition ConditionReady :: string where "ConditionReady = ''Ready''"

definition newEventSourceStatus ::
  "time \<Rightarrow> string \<Rightarrow> condition option \<Rightarrow> event_source_status" where
  "newEventSourceStatus t name ready =
     (let condition = \<lparr>cond_Type = ConditionReady, cond_Status = ''Unknown'', cond_Reason = [],
            cond_Message = ''Source readiness not known'', cond_LastTransitionTime = Some t,
            cond_rest = []\<rparr>
      in \<lparr>es_Name = name,
          es_Condition =
            (case ready of
               None \<Rightarrow> condition
             | Some r \<Rightarrow>
                 condition\<lparr>cond_Status := cond_Status r, cond_Message := cond_Message r,
                   cond_Reason := (if cond_Reason r \<noteq> [] then cond_Reason r
                                   else cond_Reason condition),
                   cond_LastTransitionTime := cond_LastTransitionTime r\<rparr>)\<rparr>)"

definition listOwnedEventSources ::
  "('sp, 'st) kind_client \<Rightarrow> capp \<Rightarrow> ('sp, 'st) resource list act" where
  "listOwnedEventSources kc capp =
     klist kc (Namespace (Meta capp)) (fmap_of_list [(CappResourceKey, Name (Meta capp))]) None"

definition sourceStatusOf ::
  "time \<Rightarrow> ('sp, conditioned_status) resource \<Rightarrow> event_source_status" where
  "sourceStatusOf t s =
     newEventSourceStatus t (Name (Meta s)) (GetCondition (st_Conditions (Status s)) ConditionReady)"

definition buildEventingStatus :: "lib \<Rightarrow> client \<Rightarrow> capp \<Rightarrow> event_source_status list act" where
  "buildEventingStatus l cl capp =
     andThen (wrapErr (''list PingSources for Capp '' @ fmt_q (Name (Meta capp)))
                (listOwnedEventSources (c_pingsources cl) capp)) (\<lambda>pingSources.
     andThen (wrapErr (''list KafkaSources for Capp '' @ fmt_q (Name (Meta capp)))
                (listOwnedEventSources (c_kafkasources cl) capp)) (\<lambda>kafkaSources.
     andThen now (\<lambda>t.
       let statuses = map (sourceStatusOf t) pingSources @ map (sourceStatusOf t) kafkaSources
       in if statuses = [] then ok [] else ok (l_SortEventSources l statuses))))"

section \<open>capp.go: the Ready condition\<close>

definition CappReadyReasonReady :: string where "CappReadyReasonReady = ''Ready''"
definition CappReadyReasonKnativeNotReady :: string where
  "CappReadyReasonKnativeNotReady = ''KnativeServiceNotReady''"
definition CappReadyReasonLoggingNotReady :: string where
  "CappReadyReasonLoggingNotReady = ''LoggingNotReady''"
definition CappReadyReasonDomainMappingNotReady :: string where
  "CappReadyReasonDomainMappingNotReady = ''DomainMappingNotReady''"
definition CappReadyReasonCertificateNotReady :: string where
  "CappReadyReasonCertificateNotReady = ''CertificateNotReady''"
definition CappReadyReasonVolumesNotReady :: string where
  "CappReadyReasonVolumesNotReady = ''VolumesNotReady''"
definition CappReadyReasonEventingNotReady :: string where
  "CappReadyReasonEventingNotReady = ''EventingNotReady''"
definition CappReadyReasonResourceSyncFailed :: string where
  "CappReadyReasonResourceSyncFailed = ''ResourceSyncFailed''"

definition maxSyncErrorMessageLen :: nat where "maxSyncErrorMessageLen = 32768"

definition formatSyncError :: "go_error \<Rightarrow> string" where
  "formatSyncError err =
     (let message = err_text err in
      if length message > maxSyncErrorMessageLen
      then take maxSyncErrorMessageLen message @ ''...(truncated)'' else message)"

definition readyFalse :: "string \<Rightarrow> string \<Rightarrow> condition" where
  "readyFalse reason message = newCondition CappConditionReady ''False'' reason message"

text \<open>\<open>None\<close> stands for the result \<open>("", "", true)\<close>.\<close>

definition loggingNotReady :: "logging_status \<Rightarrow> (string \<times> string) option" where
  "loggingNotReady ls =
     (case find (\<lambda>c. cond_Status c = ''False'') (ls_Conditions ls) of
        Some c \<Rightarrow> Some (CappReadyReasonLoggingNotReady, cond_Message c)
      | None \<Rightarrow> None)"

definition domainMappingNotReady :: "route_status \<Rightarrow> (string \<times> string) option" where
  "domainMappingNotReady rs =
     (case find (\<lambda>c. cond_Type c = ConditionReady \<and> cond_Status c \<noteq> ''True'')
             (st_Conditions (rs_DomainMapping rs)) of
        Some c \<Rightarrow> Some (CappReadyReasonDomainMappingNotReady, cond_Message c)
      | None \<Rightarrow> None)"

definition certificateNotReady :: "route_status \<Rightarrow> (string \<times> string) option" where
  "certificateNotReady rs =
     (case find (\<lambda>c. cond_Type c = ''Ready'' \<and> cond_Status c \<noteq> ''True'')
             (st_Conditions (rs_Certificate rs)) of
        Some c \<Rightarrow> Some (CappReadyReasonCertificateNotReady, cond_Message c)
      | None \<Rightarrow> None)"

definition volumesNotReady :: "nfs_volume_status list \<Rightarrow> (string \<times> string) option" where
  "volumesNotReady vs =
     (case find (\<lambda>v. np_PvPhase (nv_Status v) \<noteq> ''Bound'' \<or> np_PvcPhase (nv_Status v) \<noteq> ''Bound'')
             vs of
        Some v \<Rightarrow> Some (CappReadyReasonVolumesNotReady,
                        ''NFS volume '' @ nv_VolumeName v @ '' is not bound'')
      | None \<Rightarrow> None)"

definition eventingNotReady :: "event_source_status list \<Rightarrow> (string \<times> string) option" where
  "eventingNotReady es =
     (case find (\<lambda>src. cond_Status (es_Condition src) \<noteq> ''True'') es of
        Some src \<Rightarrow> Some (CappReadyReasonEventingNotReady,
                          ''event source '' @ es_Name src @ '' is not ready'')
      | None \<Rightarrow> None)"

definition knativeNotReady :: "service_status \<Rightarrow> (string \<times> string) option" where
  "knativeNotReady ks =
     (if ks_Conditions ks = []
      then Some (CappReadyReasonKnativeNotReady, ''Knative Service has no status yet'')
      else if ks_LatestCreatedRevisionName ks \<noteq> []
              \<and> ks_LatestCreatedRevisionName ks \<noteq> ks_LatestReadyRevisionName ks
      then Some (CappReadyReasonKnativeNotReady,
                 ''latest revision '' @ ks_LatestCreatedRevisionName ks @ '' is not ready'')
      else (case find (\<lambda>c. cond_Type c = ConditionReady) (ks_Conditions ks) of
              Some c \<Rightarrow> if cond_Status c = ''True'' then None
                        else Some (CappReadyReasonKnativeNotReady, cond_Message c)
            | None \<Rightarrow> Some (CappReadyReasonKnativeNotReady,
                            ''Knative Service Ready condition not found'')))"

text \<open>\<open>resourceManagers[name].IsRequired(capp)\<close>: a missing entry is a nil interface.\<close>

definition requiredBy :: "(string \<rightharpoonup> resource_manager) \<Rightarrow> string \<Rightarrow> capp \<Rightarrow> bool result" where
  "requiredBy managers name capp =
     (case managers name of
        Some m \<Rightarrow> Ok (rm_IsRequired m capp)
      | None \<Rightarrow> Panic ''nil pointer dereference'')"

text \<open>\<open>if required { if reason, msg, ok := f(..); !ok { return readyFalse(reason, msg) } }\<close>.\<close>

definition readyCheck ::
  "bool result \<Rightarrow> (string \<times> string) option \<Rightarrow> condition result \<Rightarrow> condition result" where
  "readyCheck required notReady rest =
     rbind required (\<lambda>b.
       if b then (case notReady of Some (reason, msg) \<Rightarrow> Ok (readyFalse reason msg) | None \<Rightarrow> rest)
       else rest)"

definition computeReadyCondition ::
  "capp_status \<Rightarrow> capp \<Rightarrow> (string \<rightharpoonup> resource_manager) \<Rightarrow> go_error list \<Rightarrow> condition result" where
  "computeReadyCondition status capp managers syncErrors =
     (if syncErrors \<noteq> []
      then Ok (readyFalse CappReadyReasonResourceSyncFailed (formatSyncError (hd syncErrors)))
      else
        readyCheck (requiredBy managers SyslogNGFlow capp)
          (loggingNotReady (cst_LoggingStatus status)) (
        readyCheck (requiredBy managers DomainMapping capp)
          (domainMappingNotReady (cst_RouteStatus status)) (
        readyCheck (requiredBy managers Certificate capp)
          (certificateNotReady (cst_RouteStatus status)) (
        readyCheck (requiredBy managers NfsPvc capp)
          (volumesNotReady (cst_VolumesStatus status)) (
        readyCheck (rbind (requiredBy managers PingSource capp) (\<lambda>b.
                      if b then Ok True else requiredBy managers KafkaSource capp))
          (eventingNotReady (cst_EventingStatus status)) (
        (case knativeNotReady (cst_KnativeObjectStatus status) of
           Some (reason, msg) \<Rightarrow> Ok (readyFalse reason msg)
         | None \<Rightarrow> Ok (newCondition CappConditionReady ''True'' CappReadyReasonReady
                         ''Capp is ready''))))))))"

definition buildCappConditions ::
  "lib \<Rightarrow> capp_status \<Rightarrow> capp \<Rightarrow> (string \<rightharpoonup> resource_manager) \<Rightarrow> go_error list \<Rightarrow> capp_status act"
where
  "buildCappConditions l status capp managers syncErrors =
     andThen (lift (computeReadyCondition status capp managers syncErrors)) (\<lambda>condition.
     andThen now (\<lambda>t.
       ok (status\<lparr>cst_Conditions :=
             l_SetStatusCondition l t (cst_Conditions status) condition\<rparr>)))"

section \<open>capp.go: SyncStatus\<close>

definition CreateStateStatus :: "time \<Rightarrow> state_status \<Rightarrow> string \<Rightarrow> state_status" where
  "CreateStateStatus t stateStatus cappStateFromSpec =
     (if cappStateFromSpec \<noteq> ss_State stateStatus \<or> ss_State stateStatus = []
      then \<lparr>ss_State = cappStateFromSpec, ss_LastChange = Some t\<rparr> else stateStatus)"

definition clearTransitionTime :: "condition \<Rightarrow> condition" where
  "clearTransitionTime c = c\<lparr>cond_LastTransitionTime := None\<rparr>"

definition clearConditions :: "conditioned_status \<Rightarrow> conditioned_status" where
  "clearConditions s = s\<lparr>st_Conditions := map clearTransitionTime (st_Conditions s)\<rparr>"

definition stripVolatileStatusFields :: "capp_status \<Rightarrow> capp_status" where
  "stripVolatileStatusFields s =
     s\<lparr>cst_Conditions := map clearTransitionTime (cst_Conditions s),
       cst_LoggingStatus := (cst_LoggingStatus s)
         \<lparr>ls_Conditions := map clearTransitionTime (ls_Conditions (cst_LoggingStatus s))\<rparr>,
       cst_RouteStatus := (cst_RouteStatus s)
         \<lparr>rs_Certificate := clearConditions (rs_Certificate (cst_RouteStatus s)),
          rs_DNSRecord := clearConditions (rs_DNSRecord (cst_RouteStatus s))\<rparr>,
       cst_EventingStatus := map (\<lambda>e. e\<lparr>es_Condition := clearTransitionTime (es_Condition e)\<rparr>)
         (cst_EventingStatus s)\<rparr>"

text \<open>
  The status observed for \<open>capp\<close>, computed from the stored status \<open>old\<close>: the body of
  \<open>SyncStatus\<close> between the \<open>Get\<close> and the comparison.
\<close>

definition observeStatus ::
  "lib \<Rightarrow> client \<Rightarrow> capp \<Rightarrow> capp_status \<Rightarrow> (string \<rightharpoonup> resource_manager) \<Rightarrow> capp_config \<Rightarrow>
   go_error list \<Rightarrow> capp_status act" where
  "observeStatus l cl capp old managers cfg syncErrors =
     andThen (lift (requiredBy managers KnativeService capp)) (\<lambda>ksvcRequired.
     andThen (buildKnativeStatus l cl capp ksvcRequired) (\<lambda>kn.
     andThen (lift (requiredBy managers SyslogNGFlow capp)) (\<lambda>flowRequired.
     andThen (buildLoggingStatus l cl capp (cst_LoggingStatus old) flowRequired) (\<lambda>loggingStatus.
     andThen (lift (requiredBy managers DomainMapping capp)) (\<lambda>dmRequired.
     andThen (lift (requiredBy managers DNSRecord capp)) (\<lambda>dnsRequired.
     andThen (lift (requiredBy managers Certificate capp)) (\<lambda>certRequired.
     andThen (buildRouteStatus cl capp dmRequired dnsRequired certRequired cfg) (\<lambda>routeStatus.
     andThen (lift (requiredBy managers NfsPvc capp)) (\<lambda>nfsRequired.
     andThen (buildVolumesStatus cl capp nfsRequired) (\<lambda>volumesStatus.
     andThen (buildEventingStatus l cl capp) (\<lambda>eventingStatus.
     andThen now (\<lambda>t.
       buildCappConditions l
         (old\<lparr>cst_KnativeObjectStatus := fst kn, cst_RevisionInfo := snd kn,
              cst_LoggingStatus := loggingStatus, cst_RouteStatus := routeStatus,
              cst_VolumesStatus := volumesStatus, cst_EventingStatus := eventingStatus,
              cst_StateStatus :=
                CreateStateStatus t (cst_StateStatus old) (cs_State (Spec capp))\<rparr>)
         capp managers syncErrors))))))))))))"

definition SyncStatus ::
  "lib \<Rightarrow> client \<Rightarrow> capp \<Rightarrow> (string \<rightharpoonup> resource_manager) \<Rightarrow> capp_config \<Rightarrow> go_error list \<Rightarrow>
   unit act" where
  "SyncStatus l cl capp managers cfg syncErrors =
     andThen (kget (c_capps cl) (Namespace (Meta capp)) (Name (Meta capp))) (\<lambda>cappObject.
     andThen (observeStatus l cl capp (Status cappObject) managers cfg syncErrors) (\<lambda>status.
       if stripVolatileStatusFields (Status cappObject) = stripVolatileStatusFields status
       then ok ()
       else c_statusUpdate cl (cappObject\<lparr>Status := status\<rparr>)))"

end
