(* ===== verification/NfsPvcManager.thy ===== *)
theory NfsPvcManager
  imports ResourceManager
begin

text \<open>
  \<open>resourcemanagers/nfspvc.go\<close>: one NfsPvc for every NFS volume of a Capp.
\<close>

text \<open>The reasons of the events.\<close>

abbreviation eventNFSPVCCreationFailed :: string where "eventNFSPVCCreationFailed \<equiv> ''NfsPvcCreationFailed''"
abbreviation eventNFSPVCCreated :: string where "eventNFSPVCCreated \<equiv> ''NfsPvcCreated''"

definition nfs_prepareVolume :: "capp \<Rightarrow> nfs_volume \<Rightarrow> nfspvc" where
  "nfs_prepareVolume capp nfsVolume =
     \<lparr>TypeKind = [],
      Meta = newMeta (nfs_Name nfsVolume) (Namespace (Meta capp))
               (ManagedResourceLabels (Name (Meta capp))),
      Spec = \<lparr>np_Server = nfs_Server nfsVolume, np_Path = nfs_Path nfsVolume,
              np_AccessModes = [''ReadWriteMany''], np_Capacity = nfs_Capacity nfsVolume\<rparr>,
      Status = zeroNfsPvcStatus\<rparr>"

definition nfs_prepareResource :: "capp \<Rightarrow> nfspvc list" where
  "nfs_prepareResource capp = map (nfs_prepareVolume capp) (cs_NFSVolumes (Spec capp))"

definition getPreviousNFSPVCs :: "client \<Rightarrow> capp \<Rightarrow> nfspvc list act" where
  "getPreviousNFSPVCs cl capp = listManagedResources (c_nfspvcs cl) capp NfsPvc fmempty"

definition nfs_CleanUp :: "lib \<Rightarrow> client \<Rightarrow> capp \<Rightarrow> unit act" where
  "nfs_CleanUp l cl capp =
     andThen (getPreviousNFSPVCs cl capp) (\<lambda>nfsPvcs.
       deleteOwnedResources l (c_nfspvcs cl) capp nfsPvcs)"

definition nfs_IsRequired :: "capp \<Rightarrow> bool" where
  "nfs_IsRequired capp \<longleftrightarrow> length (cs_NFSVolumes (Spec capp)) > 0"

definition nfs_createOrUpdate :: "lib \<Rightarrow> client \<Rightarrow> capp \<Rightarrow> unit act" where
  "nfs_createOrUpdate l cl capp =
     forEach (\<lambda>nfspvc.
       handle (kget (c_nfspvcs cl) (Namespace (Meta nfspvc)) (Name (Meta nfspvc)))
         (\<lambda>err. if IsNotFound err
                then createManagedResource l (CreateResource (c_nfspvcs cl)) capp nfspvc
                       NfsPvc eventNFSPVCCreated eventNFSPVCCreationFailed
                else throw (wrap (''failed to get NFSPVC '' @ fmt_q (Name (Meta nfspvc))) err))
         (\<lambda>orig.
            andThen (lift (ensureOwnerReference l capp (orig\<lparr>Spec := Spec nfspvc\<rparr>) NfsPvc))
              (\<lambda>existingNFSPVC.
                 updateManagedResourceIfNeeded (UpdateResource (c_nfspvcs cl)) existingNFSPVC
                   (Spec orig) (Spec existingNFSPVC) (OwnerReferences (Meta orig)))))
       (nfs_prepareResource capp)"

definition nfs_Manage :: "lib \<Rightarrow> client \<Rightarrow> capp_config \<Rightarrow> capp \<Rightarrow> unit act" where
  "nfs_Manage l cl cfg capp =
     (if nfs_IsRequired capp then nfs_createOrUpdate l cl capp else nfs_CleanUp l cl capp)"

section \<open>Settling\<close>

definition nfs_plan :: "nfspvc \<Rightarrow> (nfspvc_spec, nfspvc_status) upsert_plan" where
  "nfs_plan d =
     \<lparr>up_merge = (\<lambda>_. Spec d), up_kind = NfsPvc, up_created = eventNFSPVCCreated,
      up_failed = eventNFSPVCCreationFailed,
      up_getMsg = ''failed to get NFSPVC '' @ fmt_q (Name (Meta d)),
      up_after = ok (), up_wrap = (\<lambda>r m. m)\<rparr>"

definition nfs_settled :: "lib \<Rightarrow> capp_config \<Rightarrow> capp \<Rightarrow> world \<Rightarrow> bool" where
  "nfs_settled l cfg capp w \<longleftrightarrow>
     (if nfs_IsRequired capp
      then (\<forall>d \<in> set (nfs_prepareResource capp).
              in_place l capp d (up_merge (nfs_plan d)) (nfspvcs w))
      else (\<forall>r. \<not> managed_by capp fmempty (nfspvcs w) r))"

text \<open>Volumes of one Capp with the same name would fight over one NfsPvc.\<close>

definition nfs_calm :: "capp_config \<Rightarrow> capp \<Rightarrow> world \<Rightarrow> bool" where
  "nfs_calm cfg capp w \<longleftrightarrow>
     (if nfs_IsRequired capp
      then distinct (map nfs_Name (cs_NFSVolumes (Spec capp)))
        \<and> (\<forall>d \<in> set (nfs_prepareResource capp). \<forall>r.
             tlookup (nfspvcs w) (key_of d) = Some r \<longrightarrow> \<not> terminating r)
      else (\<forall>r. managed_by capp fmempty (nfspvcs w) r \<longrightarrow> Finalizers (Meta r) = []))"

definition nfs_api :: "client \<Rightarrow> bool" where
  "nfs_api cl \<longleftrightarrow> kind_api (c_nfspvcs cl) nfspvcs nfspvcs_update"

lemma nfs_plan_ok: "plan_ok (nfs_plan d) d"
  by (rule plan_ok_simpleI) (simp_all add: nfs_plan_def)

lemma nfs_prepare_ns:
  "d \<in> set (nfs_prepareResource capp) \<Longrightarrow> Namespace (Meta d) = Namespace (Meta capp)"
  by (auto simp: nfs_prepareResource_def nfs_prepareVolume_def newMeta_def)

lemma nfs_keys:
  "map key_of (nfs_prepareResource capp) =
     map (NamespacedName (Namespace (Meta capp))) (map nfs_Name (cs_NFSVolumes (Spec capp)))"
  by (simp add: nfs_prepareResource_def nfs_prepareVolume_def newMeta_def key_of_def)

lemma nfs_keys_distinct:
  "distinct (map nfs_Name (cs_NFSVolumes (Spec capp))) \<Longrightarrow>
     distinct (map key_of (nfs_prepareResource capp))"
  unfolding nfs_keys by (subst distinct_map) (simp add: inj_on_def)

lemma nfs_createOrUpdate_upserts:
  "nfs_createOrUpdate l cl capp =
     forEach (\<lambda>d. upsert l (c_nfspvcs cl) capp d (nfs_plan d)) (nfs_prepareResource capp)"
proof -
  have "(\<lambda>nfspvc.
       handle (kget (c_nfspvcs cl) (Namespace (Meta nfspvc)) (Name (Meta nfspvc)))
         (\<lambda>err. if IsNotFound err
                then createManagedResource l (CreateResource (c_nfspvcs cl)) capp nfspvc
                       ''NfsPvc'' ''NfsPvcCreated'' ''NfsPvcCreationFailed''
                else throw (wrap (''failed to get NFSPVC '' @ fmt_q (Name (Meta nfspvc))) err))
         (\<lambda>orig.
            andThen (lift (ensureOwnerReference l capp (orig\<lparr>Spec := Spec nfspvc\<rparr>) ''NfsPvc''))
              (\<lambda>existingNFSPVC.
                 updateManagedResourceIfNeeded (UpdateResource (c_nfspvcs cl)) existingNFSPVC
                   (Spec orig) (Spec existingNFSPVC) (OwnerReferences (Meta orig)))))
     = (\<lambda>d. upsert l (c_nfspvcs cl) capp d (nfs_plan d))"
    by (rule ext, rule ext)
      (auto simp: upsert_def nfs_plan_def andThen_def handle_def split: prod.splits result.splits)
  then show ?thesis unfolding nfs_createOrUpdate_def by (rule arg_cong)
qed

lemma nfs_CleanUp_listed:
  "nfs_CleanUp l cl capp = cleanUpListed l (c_nfspvcs cl) capp ''NfsPvc'' fmempty"
  by (simp add: nfs_CleanUp_def getPreviousNFSPVCs_def cleanUpListed_def)

lemma nfs_createOrUpdate_settles:
  assumes "nfs_api cl" "owner_refs_lib l" "nfs_IsRequired capp" "nfs_calm cfg capp w"
  shows "\<exists>t ev. nfs_createOrUpdate l cl capp w = (Ok (), nfspvcs_update (\<lambda>_. t) (w\<lparr>events := ev\<rparr>))
     \<and> (\<forall>d \<in> set (nfs_prepareResource capp). in_place l capp d (up_merge (nfs_plan d)) t)
     \<and> (\<forall>k. k \<notin> key_of ` set (nfs_prepareResource capp) \<longrightarrow>
           tlookup t k = tlookup (nfspvcs w) k)"
  unfolding nfs_createOrUpdate_upserts
  by (rule kind_api.upsert_all_settles [OF assms(1) [unfolded nfs_api_def] assms(2)])
    (use assms(3,4) in \<open>auto simp: nfs_calm_def nfs_plan_ok nfs_prepare_ns
        intro: nfs_keys_distinct\<close>)

interpretation nfs_mgr: settling_manager nfs_Manage nfs_api "\<lambda>t. nfspvcs_update (\<lambda>_. t)"
  nfspvcs nfs_calm nfs_settled
proof (unfold_locales, goal_cases)
  case (6 cl l c g w)
  show ?case
  proof (cases "nfs_IsRequired c")
    case True
    with nfs_createOrUpdate_settles [OF 6(1,2) True 6(4)] show ?thesis
      by (simp add: nfs_Manage_def nfs_settled_def) blast
  next
    case False
    with 6 obtain t where "nfs_CleanUp l cl c w = (Ok (), nfspvcs_update (\<lambda>_. t) w)"
        "\<forall>r. \<not> managed_by c fmempty t r"
      using kind_api.cleanUpListed_settles [of "c_nfspvcs cl" nfspvcs nfspvcs_update
          c "fmempty" w l "''NfsPvc''"]
      by (auto simp: nfs_api_def nfs_calm_def nfs_CleanUp_listed)
    with False show ?thesis
      by (intro exI [of _ t] exI [of _ "events w"]) (simp add: nfs_Manage_def nfs_settled_def)
  qed
next
  case (7 cl c l g w)
  show ?case
  proof (cases "nfs_IsRequired c")
    case True
    with 7 have "nfs_createOrUpdate l cl c w = (Ok (), w)"
      unfolding nfs_createOrUpdate_upserts
      by (intro kind_api.upsert_all_stable [OF 7(1) [unfolded nfs_api_def]])
        (simp add: nfs_settled_def nfs_plan_ok)
    with True show ?thesis by (intro exI [of _ "events w"]) (simp add: nfs_Manage_def)
  next
    case False
    with 7 kind_api.cleanUpListed_stable [of "c_nfspvcs cl" nfspvcs nfspvcs_update
        c fmempty w l "''NfsPvc''"] show ?thesis
      by (intro exI [of _ "events w"])
        (simp add: nfs_Manage_def nfs_api_def nfs_settled_def nfs_CleanUp_listed)
  qed
qed (simp_all add: nfs_settled_def)

definition nfs_cleaned :: "lib \<Rightarrow> capp \<Rightarrow> world \<Rightarrow> bool" where
  "nfs_cleaned l capp w \<longleftrightarrow> listed_cleaned l capp fmempty (nfspvcs w)"

interpretation nfs_mgr: cleaning_manager nfs_Manage nfs_api "\<lambda>t. nfspvcs_update (\<lambda>_. t)"
  nfspvcs nfs_calm nfs_settled nfs_CleanUp nfs_cleaned
proof
  show "\<exists>v. nfs_CleanUp l cl c w = (Ok (), nfspvcs_update (\<lambda>_. v) w)
          \<and> nfs_cleaned l c (nfspvcs_update (\<lambda>_. v) w)"
    if "nfs_api cl" "owner_refs_lib l" for cl l c w
    using kind_api.cleanUpListed_cleans [OF that(1) [unfolded nfs_api_def] that(2)]
    by (simp add: nfs_CleanUp_listed nfs_cleaned_def)
qed

end
