(* ===== verification/CertificateManager.thy ===== *)
theory CertificateManager
  imports ResourceManager
begin

text \<open>
  \<open>resourcemanagers/certificate.go\<close>: the cert-manager Certificate of a Capp with a host name
  and TLS.
\<close>

text \<open>The reasons of the events.\<close>

abbreviation eventCappCertificateCreationFailed :: string where "eventCappCertificateCreationFailed \<equiv> ''CertificateCreationFailed''"
abbreviation eventCappCertificateCreated :: string where "eventCappCertificateCreated \<equiv> ''CertificateCreated''"

definition PrivateKeySize :: i64 where "PrivateKeySize = 4096"
definition maxCommonNameLength :: nat where "maxCommonNameLength = 64"
definition certificateUIDSecretLabelKey :: string where
  "certificateUIDSecretLabelKey = ''networking.internal.knative.dev/certificate-uid''"

definition cert_prepareResource :: "capp_config \<Rightarrow> capp \<Rightarrow> certificate" where
  "cert_prepareResource cfg capp =
     (let dnsConfig = cfg_DNSConfig (Spec cfg);
          resourceName = GenerateResourceName (rt_Hostname (cs_RouteSpec (Spec capp)))
                           (dns_Zone dnsConfig);
          secretName = generateTLSSecretName resourceName
      in \<lparr>TypeKind = [],
          Meta = newMeta resourceName (Namespace (Meta capp))
                   (ManagedResourceLabels (Name (Meta capp))),
          Spec = \<lparr>cert_CommonName =
                    take (min (length resourceName) maxCommonNameLength) resourceName,
                  cert_DNSNames = [resourceName],
                  cert_PrivateKey = Some \<lparr>pk_Algorithm = ''RSA'', pk_Encoding = ''PKCS1'',
                                          pk_Size = PrivateKeySize\<rparr>,
                  cert_IsCA = False,
                  cert_IssuerRef = \<lparr>ir_Name = ir_Name (dns_IssuerRef dnsConfig),
                                    ir_Kind = ir_Kind (dns_IssuerRef dnsConfig),
                                    ir_Group = ir_Group (dns_IssuerRef dnsConfig)\<rparr>,
                  cert_SecretName = secretName,
                  cert_SecretTemplateLabels =
                    fmap_of_list [(certificateUIDSecretLabelKey, [])],
                  cert_rest = []\<rparr>,
          Status = zeroConditioned\<rparr>)"

definition getPreviousCertificates :: "client \<Rightarrow> capp \<Rightarrow> certificate list act" where
  "getPreviousCertificates cl capp =
     listManagedResources (c_certificates cl) capp Certificate fmempty"

definition cert_CleanUp :: "lib \<Rightarrow> client \<Rightarrow> capp \<Rightarrow> unit act" where
  "cert_CleanUp l cl capp =
     andThen (getPreviousCertificates cl capp) (\<lambda>certificates.
       deleteOwnedResources l (c_certificates cl) capp certificates)"

definition cert_IsRequired :: "capp \<Rightarrow> bool" where
  "cert_IsRequired capp \<longleftrightarrow>
     rt_TlsEnabled (cs_RouteSpec (Spec capp)) \<and> rt_Hostname (cs_RouteSpec (Spec capp)) \<noteq> []"

definition cert_createOrUpdate :: "lib \<Rightarrow> client \<Rightarrow> capp_config \<Rightarrow> capp \<Rightarrow> unit act" where
  "cert_createOrUpdate l cl cfg capp =
     (let certificateFromCapp = cert_prepareResource cfg capp in
      handle (kget (c_certificates cl) (Namespace (Meta capp)) (Name (Meta certificateFromCapp)))
        (\<lambda>err. if IsNotFound err
               then createManagedResource l (CreateResource (c_certificates cl)) capp
                      certificateFromCapp Certificate eventCappCertificateCreated
                      eventCappCertificateCreationFailed
               else throw (wrap (''failed to get Certificate ''
                                 @ fmt_q (Name (Meta certificateFromCapp))) err))
        (\<lambda>orig.
           andThen (lift (ensureOwnerReference l capp
                            (orig\<lparr>Spec := Spec certificateFromCapp\<rparr>) Certificate))
             (\<lambda>certificate.
                wrapErr (''update Certificate '' @ fmt_q (Name (Meta certificate)))
                  (updateManagedResourceIfNeeded (UpdateResource (c_certificates cl)) certificate
                     (Spec orig) (Spec certificate) (OwnerReferences (Meta orig))))))"

definition cert_Manage :: "lib \<Rightarrow> client \<Rightarrow> capp_config \<Rightarrow> capp \<Rightarrow> unit act" where
  "cert_Manage l cl cfg capp =
     (if cert_IsRequired capp then cert_createOrUpdate l cl cfg capp else cert_CleanUp l cl capp)"

section \<open>Settling\<close>

definition cert_plan :: "capp_config \<Rightarrow> capp \<Rightarrow> (certificate_spec, conditioned_status) upsert_plan"
where
  "cert_plan cfg capp =
     \<lparr>up_merge = (\<lambda>_. Spec (cert_prepareResource cfg capp)), up_kind = Certificate,
      up_created = eventCappCertificateCreated, up_failed = eventCappCertificateCreationFailed,
      up_getMsg = ''failed to get Certificate ''
        @ fmt_q (Name (Meta (cert_prepareResource cfg capp))),
      up_after = ok (),
      up_wrap = (\<lambda>r. wrapErr (''update Certificate '' @ fmt_q (Name (Meta r))))\<rparr>"

definition cert_settled :: "lib \<Rightarrow> capp_config \<Rightarrow> capp \<Rightarrow> world \<Rightarrow> bool" where
  "cert_settled l cfg capp w \<longleftrightarrow>
     single_settled (cert_IsRequired capp) l capp (cert_prepareResource cfg capp)
       (up_merge (cert_plan cfg capp)) fmempty (certificates w)"

definition cert_calm :: "capp_config \<Rightarrow> capp \<Rightarrow> world \<Rightarrow> bool" where
  "cert_calm cfg capp w \<longleftrightarrow>
     single_calm (cert_IsRequired capp) capp (cert_prepareResource cfg capp) fmempty
       (certificates w)"

definition cert_api :: "client \<Rightarrow> bool" where
  "cert_api cl \<longleftrightarrow> kind_api (c_certificates cl) certificates certificates_update"

lemma cert_plan_ok: "plan_ok (cert_plan cfg capp) (cert_prepareResource cfg capp)"
  by (rule plan_ok_simpleI) (simp_all add: cert_plan_def)

lemma cert_prepare_ns [simp]:
  "Namespace (Meta (cert_prepareResource cfg capp)) = Namespace (Meta capp)"
  by (simp add: cert_prepareResource_def Let_def newMeta_def)

lemma cert_createOrUpdate_upsert:
  "cert_createOrUpdate l cl cfg capp =
     upsert l (c_certificates cl) capp (cert_prepareResource cfg capp) (cert_plan cfg capp)"
  by (rule ext)
    (auto simp: cert_createOrUpdate_def upsert_def cert_plan_def Let_def andThen_def handle_def
      split: prod.splits result.splits)

lemma cert_Manage_single:
  "cert_Manage l cl cfg capp =
     manageSingle (cert_IsRequired capp) l (c_certificates cl) capp (cert_prepareResource cfg capp)
       (cert_plan cfg capp) fmempty"
  by (simp add: cert_Manage_def manageSingle_def cert_createOrUpdate_upsert cert_CleanUp_def
      getPreviousCertificates_def cleanUpListed_def cert_plan_def)

interpretation cert_mgr: settling_manager cert_Manage cert_api "\<lambda>t. certificates_update (\<lambda>_. t)"
  certificates cert_calm cert_settled
proof (unfold_locales, goal_cases)
  case (6 cl l c g w)
  then show ?case
    using kind_api.manageSingle_settles [of "c_certificates cl" certificates certificates_update
        l c "cert_plan g c" "cert_prepareResource g c" "cert_IsRequired c" fmempty w] cert_plan_ok
    by (simp add: cert_Manage_single cert_api_def cert_calm_def cert_settled_def)
next
  case (7 cl c l g w)
  then show ?case
    using kind_api.manageSingle_stable [of "c_certificates cl" certificates certificates_update
        "cert_plan g c" "cert_prepareResource g c" "cert_IsRequired c" l c fmempty w] cert_plan_ok
    by (intro exI [of _ "events w"]) (simp add: cert_Manage_single cert_api_def cert_settled_def)
qed (simp_all add: cert_settled_def)

lemma cert_CleanUp_listed:
  "cert_CleanUp l cl capp = cleanUpListed l (c_certificates cl) capp ''Certificate'' fmempty"
  by (simp add: cert_CleanUp_def getPreviousCertificates_def cleanUpListed_def)

definition cert_cleaned :: "lib \<Rightarrow> capp \<Rightarrow> world \<Rightarrow> bool" where
  "cert_cleaned l capp w \<longleftrightarrow> listed_cleaned l capp fmempty (certificates w)"

interpretation cert_mgr: cleaning_manager cert_Manage cert_api "\<lambda>t. certificates_update (\<lambda>_. t)"
  certificates cert_calm cert_settled cert_CleanUp cert_cleaned
proof
  show "\<exists>v. cert_CleanUp l cl c w = (Ok (), certificates_update (\<lambda>_. v) w)
          \<and> cert_cleaned l c (certificates_update (\<lambda>_. v) w)"
    if "cert_api cl" "owner_refs_lib l" for cl l c w
    using kind_api.cleanUpListed_cleans [OF that(1) [unfolded cert_api_def] that(2)]
    by (simp add: cert_CleanUp_listed cert_cleaned_def)
qed

end
