(* ===== verification/DomainMappingManager.thy ===== *)
theory DomainMappingManager
  imports ResourceManager
begin

text \<open>
  \<open>resourcemanagers/domainmapping.go\<close>: the Knative DomainMapping of a Capp with a host name,
  which refers to the TLS secret once that secret exists. Cleaning up removes the mappings
  and the TLS secrets that go with them, so the manager owns two tables.
\<close>

text \<open>The reasons of the events.\<close>

abbreviation eventCappDomainMappingCreationFailed :: string where "eventCappDomainMappingCreationFailed \<equiv> ''DomainMappingCreationFailed''"
abbreviation eventCappDomainMappingCreated :: string where "eventCappDomainMappingCreated \<equiv> ''DomainMappingCreated''"


definition dm_prepareResource :: "client \<Rightarrow> capp_config \<Rightarrow> capp \<Rightarrow> domain_mapping act" where
  "dm_prepareResource cl cfg capp =
     (let dnsConfig = cfg_DNSConfig (Spec cfg);
          resourceName = GenerateResourceName (rt_Hostname (cs_RouteSpec (Spec capp)))
                           (dns_Zone dnsConfig);
          secretName = generateTLSSecretName resourceName;
          knativeDomainMapping =
            \<lparr>TypeKind = [],
             Meta = newMeta resourceName (Namespace (Meta capp))
                      (ManagedResourceLabels (Name (Meta capp))),
             Spec = \<lparr>dm_Ref = \<lparr>kr_APIVersion = servingAPIVersion, kr_Kind = knativeServiceKind,
                                kr_Name = Name (Meta capp), kr_Namespace = []\<rparr>,
                     dm_TLS = None\<rparr>,
             Status = zeroConditioned\<rparr>
      in if rt_TlsEnabled (cs_RouteSpec (Spec capp))
         then handle (kget (c_secrets cl) (Namespace (Meta capp)) secretName)
                (\<lambda>err. if \<not> IsNotFound err
                       then throw (wrap (''failed to get tlsSecret '' @ secretName
                                          @ '' for DomainMapping'') err)
                       else ok knativeDomainMapping)
                (\<lambda>_. ok (knativeDomainMapping\<lparr>Spec :=
                        (Spec knativeDomainMapping)\<lparr>dm_TLS := Some secretName\<rparr>\<rparr>))
         else ok knativeDomainMapping)"

definition getPreviousDomainMappings :: "client \<Rightarrow> capp \<Rightarrow> domain_mapping list act" where
  "getPreviousDomainMappings cl capp =
     listManagedResources (c_domainmappings cl) capp DomainMapping fmempty"

text \<open>The object the code builds to delete a mapping by name.\<close>

definition bareDomainMapping :: "string \<Rightarrow> string \<Rightarrow> domain_mapping" where
  "bareDomainMapping n ns =
     \<lparr>TypeKind = [], Meta = newMeta n ns fmempty,
      Spec = \<lparr>dm_Ref = \<lparr>kr_APIVersion = [], kr_Kind = [], kr_Name = [], kr_Namespace = []\<rparr>,
              dm_TLS = None\<rparr>,
      Status = zeroConditioned\<rparr>"

definition dm_cleanUpItem :: "lib \<Rightarrow> client \<Rightarrow> capp \<Rightarrow> domain_mapping \<Rightarrow> unit act" where
  "dm_cleanUpItem l cl capp item =
     andThen (ownedByDeleted l capp (Meta item)) (\<lambda>ownedByCapp.
     andThen (if \<not> ownedByCapp
              then ignoreNotFound (DeleteResource (c_domainmappings cl)
                     (bareDomainMapping (Name (Meta item)) (Namespace (Meta item))))
              else ok ()) (\<lambda>_.
       handle (kget (c_secrets cl) (Namespace (Meta item)) (generateTLSSecretName (Name (Meta item))))
         (\<lambda>err. if \<not> IsNotFound err then throw err else ok ())
         (\<lambda>secret. DeleteResource (c_secrets cl) secret)))"

definition dm_CleanUp :: "lib \<Rightarrow> client \<Rightarrow> capp \<Rightarrow> unit act" where
  "dm_CleanUp l cl capp =
     andThen (getPreviousDomainMappings cl capp) (\<lambda>domainMappings.
       forEach (dm_cleanUpItem l cl capp) domainMappings)"

definition dm_IsRequired :: "capp \<Rightarrow> bool" where
  "dm_IsRequired capp \<longleftrightarrow> rt_Hostname (cs_RouteSpec (Spec capp)) \<noteq> []"

definition dm_createOrUpdate :: "lib \<Rightarrow> client \<Rightarrow> capp_config \<Rightarrow> capp \<Rightarrow> unit act" where
  "dm_createOrUpdate l cl cfg capp =
     andThen (wrapErr ''failed to prepare DomainMapping'' (dm_prepareResource cl cfg capp))
       (\<lambda>fromCapp.
       handle (kget (c_domainmappings cl) (Namespace (Meta capp)) (Name (Meta fromCapp)))
         (\<lambda>err. if IsNotFound err
                then createManagedResource l (CreateResource (c_domainmappings cl)) capp fromCapp
                       DomainMapping eventCappDomainMappingCreated eventCappDomainMappingCreationFailed
                else throw (wrap (''failed to get DomainMapping '' @ fmt_q (Name (Meta fromCapp)))
                              err))
         (\<lambda>orig.
            andThen (lift (ensureOwnerReference l capp (orig\<lparr>Spec := Spec fromCapp\<rparr>)
                             DomainMapping))
              (\<lambda>domainMapping.
                 updateManagedResourceIfNeeded (UpdateResource (c_domainmappings cl)) domainMapping
                   (Spec orig) (Spec domainMapping) (OwnerReferences (Meta orig)))))"

definition dm_Manage :: "lib \<Rightarrow> client \<Rightarrow> capp_config \<Rightarrow> capp \<Rightarrow> unit act" where
  "dm_Manage l cl cfg capp =
     (if dm_IsRequired capp then dm_createOrUpdate l cl cfg capp else dm_CleanUp l cl capp)"

section \<open>What is desired, given whether the TLS secret exists\<close>

definition tls_key :: "string \<Rightarrow> string \<Rightarrow> key" where
  "tls_key ns n = NamespacedName ns (generateTLSSecretName n)"

definition dm_desired :: "capp_config \<Rightarrow> capp \<Rightarrow> world \<Rightarrow> domain_mapping" where
  "dm_desired cfg capp w =
     (let n = GenerateResourceName (rt_Hostname (cs_RouteSpec (Spec capp)))
                (dns_Zone (cfg_DNSConfig (Spec cfg)))
      in \<lparr>TypeKind = [],
          Meta = newMeta n (Namespace (Meta capp)) (ManagedResourceLabels (Name (Meta capp))),
          Spec = \<lparr>dm_Ref = \<lparr>kr_APIVersion = servingAPIVersion, kr_Kind = knativeServiceKind,
                             kr_Name = Name (Meta capp), kr_Namespace = []\<rparr>,
                  dm_TLS = (if rt_TlsEnabled (cs_RouteSpec (Spec capp))
                               \<and> tlookup (secrets w) (tls_key (Namespace (Meta capp)) n) \<noteq> None
                            then Some (generateTLSSecretName n) else None)\<rparr>,
          Status = zeroConditioned\<rparr>)"

definition dm_plan :: "domain_mapping \<Rightarrow> (domain_mapping_spec, conditioned_status) upsert_plan" where
  "dm_plan d =
     \<lparr>up_merge = (\<lambda>_. Spec d), up_kind = DomainMapping, up_created = eventCappDomainMappingCreated,
      up_failed = eventCappDomainMappingCreationFailed,
      up_getMsg = ''failed to get DomainMapping '' @ fmt_q (Name (Meta d)),
      up_after = ok (), up_wrap = (\<lambda>r m. m)\<rparr>"

definition dm_api :: "client \<Rightarrow> bool" where
  "dm_api cl \<longleftrightarrow> kind_api (c_domainmappings cl) domainmappings domainmappings_update
     \<and> kind_api (c_secrets cl) secrets secrets_update"

type_synonym dm_view =
  "(domain_mapping_spec, conditioned_status) table \<times> (secret_data, unit) table"

definition dm_put :: "dm_view \<Rightarrow> world \<Rightarrow> world" where
  "dm_put v w = w\<lparr>domainmappings := fst v, secrets := snd v\<rparr>"

definition dm_settled :: "lib \<Rightarrow> capp_config \<Rightarrow> capp \<Rightarrow> world \<Rightarrow> bool" where
  "dm_settled l cfg capp w \<longleftrightarrow>
     single_settled (dm_IsRequired capp) l capp (dm_desired cfg capp w)
       (up_merge (dm_plan (dm_desired cfg capp w))) fmempty (domainmappings w)"

definition dm_calm :: "capp_config \<Rightarrow> capp \<Rightarrow> world \<Rightarrow> bool" where
  "dm_calm cfg capp w \<longleftrightarrow>
     single_calm (dm_IsRequired capp) capp (dm_desired cfg capp w) fmempty (domainmappings w)"

lemma dm_plan_ok: "plan_ok (dm_plan d) d"
  by (rule plan_ok_simpleI) (simp_all add: dm_plan_def)

lemma dm_desired_ns [simp]: "Namespace (Meta (dm_desired cfg capp w)) = Namespace (Meta capp)"
  by (simp add: dm_desired_def Let_def newMeta_def)

lemma dm_prepareResource_run:
  assumes "dm_api cl"
  shows "dm_prepareResource cl cfg capp w = (Ok (dm_desired cfg capp w), w)"
proof -
  let ?n = "GenerateResourceName (rt_Hostname (cs_RouteSpec (Spec capp)))
    (dns_Zone (cfg_DNSConfig (Spec cfg)))"
  have api: "kind_api (c_secrets cl) secrets secrets_update" using assms by (simp add: dm_api_def)
  show ?thesis
  proof (cases rule: kind_api.get_cases [OF api, of w "Namespace (Meta capp)"
      "generateTLSSecretName ?n"])
    case (1 r)
    then show ?thesis
      by (simp add: dm_prepareResource_def dm_desired_def Let_def tls_key_def handle_Ok)
  next
    case (2 e)
    then show ?thesis
      by (simp add: dm_prepareResource_def dm_desired_def Let_def tls_key_def handle_Err)
  qed
qed

lemma dm_createOrUpdate_upsert:
  assumes "dm_api cl"
  shows "dm_createOrUpdate l cl cfg capp w =
     upsert l (c_domainmappings cl) capp (dm_desired cfg capp w) (dm_plan (dm_desired cfg capp w)) w"
  by (auto simp: dm_createOrUpdate_def upsert_def dm_plan_def andThen_def handle_def wrapErr_def
      dm_prepareResource_run [OF assms] split: prod.splits result.splits)

section \<open>Cleaning up mappings and their secrets\<close>

definition secret_dropped ::
  "(secret_data, unit) table \<Rightarrow> (secret_data, unit) table \<Rightarrow> key \<Rightarrow> bool" where
  "secret_dropped s s' k \<longleftrightarrow>
     (case tlookup s k of None \<Rightarrow> tlookup s' k = None | Some x \<Rightarrow> removed s' x)"

definition dm_dropped :: "lib \<Rightarrow> capp \<Rightarrow> world \<Rightarrow> world \<Rightarrow> domain_mapping \<Rightarrow> bool" where
  "dm_dropped l capp w w' r \<longleftrightarrow>
     (if kept_for_gc l capp (Meta r) then tlookup (domainmappings w') (key_of r) = Some r
      else removed (domainmappings w') r)
     \<and> secret_dropped (secrets w) (secrets w') (tls_key (Namespace (Meta r)) (Name (Meta r)))"

definition dm_tls_key :: "domain_mapping \<Rightarrow> key" where
  "dm_tls_key r = tls_key (Namespace (Meta r)) (Name (Meta r))"

lemma dm_tls_key_inj: "dm_tls_key r = dm_tls_key r' \<longleftrightarrow> key_of r = key_of r'"
  by (simp add: dm_tls_key_def tls_key_def generateTLSSecretName_def key_of_def)

lemma dm_put_view [simp]:
  "domainmappings (dm_put v w) = fst v" "secrets (dm_put v w) = snd v"
  "dm_put v (dm_put u w) = dm_put v w" "dm_put (domainmappings w, secrets w) w = w"
  "dm_put v (events_update h w) = events_update h (dm_put v w)"
  by (simp_all add: dm_put_def)

lemma secret_step:
  assumes api: "kind_api (c_secrets cl) secrets secrets_update"
  shows "\<exists>s. handle (kget (c_secrets cl) ns (generateTLSSecretName n))
           (\<lambda>err. if \<not> IsNotFound err then throw err else ok ())
           (\<lambda>secret. DeleteResource (c_secrets cl) secret) w = (Ok (), w\<lparr>secrets := s\<rparr>)
     \<and> secret_dropped (secrets w) s (tls_key ns n)
     \<and> (\<forall>k. k \<noteq> tls_key ns n \<longrightarrow> tlookup s k = tlookup (secrets w) k)"
proof (cases rule: kind_api.get_cases [OF api, of w ns "generateTLSSecretName n"])
  case (1 r)
  then have r: "tlookup (secrets w) (key_of r) = Some r" by simp
  obtain s where "kdelete (c_secrets cl) r w = (Ok (), secrets_update (\<lambda>_. s) w)" "removed s r"
      "\<forall>k. k \<noteq> key_of r \<longrightarrow> tlookup s k = tlookup (secrets w) k"
    using kind_api.delete_removed [OF api r] by blast
  with 1 show ?thesis
    by (intro exI [of _ s]) (simp add: handle_Ok DeleteResource_def secret_dropped_def tls_key_def)
next
  case (2 e)
  then show ?thesis
    by (intro exI [of _ "secrets w"]) (simp add: handle_Err secret_dropped_def tls_key_def)
qed

lemma removed_cong:
  "tlookup t (key_of r) = tlookup t' (key_of r) \<Longrightarrow> removed t r = removed t' r"
  by (simp add: removed_def)

lemma secret_dropped_cong:
  "tlookup s k = tlookup s1 k \<Longrightarrow> tlookup s' k = tlookup s'' k \<Longrightarrow>
     secret_dropped s s' k = secret_dropped s1 s'' k"
  by (auto simp: secret_dropped_def removed_def dest: tlookup_Some_key split: option.split)

lemma dm_dropped_cong:
  assumes "tlookup (domainmappings w') (key_of r) = tlookup (domainmappings w'') (key_of r)"
    and "tlookup (secrets w') (dm_tls_key r) = tlookup (secrets w'') (dm_tls_key r)"
    and "tlookup (secrets w) (dm_tls_key r) = tlookup (secrets w1) (dm_tls_key r)"
  shows "dm_dropped l capp w w' r = dm_dropped l capp w1 w'' r"
  using assms(1) removed_cong [OF assms(1)] secret_dropped_cong [OF assms(3,2)]
  by (simp add: dm_dropped_def dm_tls_key_def)

lemma dm_cleanUpItem_effect:
  assumes api: "dm_api cl" and own: "owners_readable l capp"
    and r: "tlookup (domainmappings w) (key_of r) = Some r"
  shows "\<exists>v. dm_cleanUpItem l cl capp r w = (Ok (), dm_put v w)
     \<and> dm_dropped l capp w (dm_put v w) r
     \<and> (\<forall>k. k \<noteq> key_of r \<longrightarrow> tlookup (fst v) k = tlookup (domainmappings w) k)
     \<and> (\<forall>k. k \<noteq> dm_tls_key r \<longrightarrow> tlookup (snd v) k = tlookup (secrets w) k)"
proof -
  have dapi: "kind_api (c_domainmappings cl) domainmappings domainmappings_update"
    and sapi: "kind_api (c_secrets cl) secrets secrets_update" using api by (simp_all add: dm_api_def)
  let ?bare = "bareDomainMapping (Name (Meta r)) (Namespace (Meta r))"
  have kb: "key_of ?bare = key_of r" by (simp add: bareDomainMapping_def newMeta_def key_of_def)
  have "\<exists>t. (if \<not> kept_for_gc l capp (Meta r)
          then ignoreNotFound (DeleteResource (c_domainmappings cl) ?bare) else ok ()) w
        = (Ok (), w\<lparr>domainmappings := t\<rparr>)
      \<and> (if kept_for_gc l capp (Meta r) then tlookup t (key_of r) = Some r else removed t r)
      \<and> (\<forall>k. k \<noteq> key_of r \<longrightarrow> tlookup t k = tlookup (domainmappings w) k)"
  proof (cases "kept_for_gc l capp (Meta r)")
    case True
    with r show ?thesis by (intro exI [of _ "domainmappings w"]) simp
  next
    case False
    obtain t where "kdelete (c_domainmappings cl) ?bare w = (Ok (), w\<lparr>domainmappings := t\<rparr>)"
        "removed t r" "\<forall>k. k \<noteq> key_of r \<longrightarrow> tlookup t k = tlookup (domainmappings w) k"
      using kind_api.delete_key [OF dapi, of w ?bare r] r unfolding kb by auto
    with False show ?thesis
      by (intro exI [of _ t]) (simp add: DeleteResource_def ignoreNotFound_Ok)
  qed
  then obtain t where t: "(if \<not> kept_for_gc l capp (Meta r)
          then ignoreNotFound (DeleteResource (c_domainmappings cl) ?bare) else ok ()) w
        = (Ok (), w\<lparr>domainmappings := t\<rparr>)"
      "if kept_for_gc l capp (Meta r) then tlookup t (key_of r) = Some r else removed t r"
      "\<forall>k. k \<noteq> key_of r \<longrightarrow> tlookup t k = tlookup (domainmappings w) k" by blast
  obtain s where s: "handle (kget (c_secrets cl) (Namespace (Meta r))
          (generateTLSSecretName (Name (Meta r))))
        (\<lambda>err. if \<not> IsNotFound err then throw err else ok ())
        (\<lambda>secret. DeleteResource (c_secrets cl) secret) (w\<lparr>domainmappings := t\<rparr>)
        = (Ok (), w\<lparr>domainmappings := t, secrets := s\<rparr>)"
      "secret_dropped (secrets w) s (dm_tls_key r)"
      "\<forall>k. k \<noteq> dm_tls_key r \<longrightarrow> tlookup s k = tlookup (secrets w) k"
    using secret_step [OF sapi, of "Namespace (Meta r)" "Name (Meta r)" "w\<lparr>domainmappings := t\<rparr>"]
    by (auto simp: dm_tls_key_def)
  have "dm_cleanUpItem l cl capp r w = (Ok (), dm_put (t, s) w)"
    unfolding dm_cleanUpItem_def
    by (rule andThen_eqI, rule ownedByDeleted_run [OF own], rule andThen_eqI, rule t(1))
      (simp add: s(1) dm_put_def)
  with t(2,3) s(2,3) show ?thesis
    by (intro exI [of _ "(t, s)"]) (simp add: dm_dropped_def dm_tls_key_def)
qed

lemma dm_cleanUpItems_effect:
  assumes api: "dm_api cl" and own: "owners_readable l capp"
    and "distinct (map key_of rs)"
    and "\<And>r. r \<in> set rs \<Longrightarrow> tlookup (domainmappings w) (key_of r) = Some r"
  shows "\<exists>v. forEach (dm_cleanUpItem l cl capp) rs w = (Ok (), dm_put v w)
     \<and> (\<forall>r \<in> set rs. dm_dropped l capp w (dm_put v w) r)
     \<and> (\<forall>k. k \<notin> key_of ` set rs \<longrightarrow> tlookup (fst v) k = tlookup (domainmappings w) k)
     \<and> (\<forall>k. k \<notin> dm_tls_key ` set rs \<longrightarrow> tlookup (snd v) k = tlookup (secrets w) k)"
  using assms(3,4)
proof (induction rs arbitrary: w)
  case Nil
  show ?case by (intro exI [of _ "(domainmappings w, secrets w)"]) simp
next
  case (Cons r rs)
  have nr: "key_of r \<notin> key_of ` set rs" and dr: "distinct (map key_of rs)"
    using Cons.prems(1) by simp_all
  have nt: "dm_tls_key r \<notin> dm_tls_key ` set rs" using nr by (auto simp: dm_tls_key_inj)
  have r: "tlookup (domainmappings w) (key_of r) = Some r" using Cons.prems(2) by simp
  obtain v where v: "dm_cleanUpItem l cl capp r w = (Ok (), dm_put v w)"
      "dm_dropped l capp w (dm_put v w) r"
      "\<forall>k. k \<noteq> key_of r \<longrightarrow> tlookup (fst v) k = tlookup (domainmappings w) k"
      "\<forall>k. k \<noteq> dm_tls_key r \<longrightarrow> tlookup (snd v) k = tlookup (secrets w) k"
    using dm_cleanUpItem_effect [OF api own r] by blast
  have lk: "tlookup (domainmappings (dm_put v w)) (key_of x) = Some x" if "x \<in> set rs" for x
  proof -
    have "key_of x \<noteq> key_of r" using nr that by (metis imageI)
    with v(3) Cons.prems(2) [of x] that show ?thesis by simp
  qed
  obtain u where u: "forEach (dm_cleanUpItem l cl capp) rs (dm_put v w) = (Ok (), dm_put u w)"
      "\<forall>r \<in> set rs. dm_dropped l capp (dm_put v w) (dm_put u w) r"
      "\<forall>k. k \<notin> key_of ` set rs \<longrightarrow> tlookup (fst u) k = tlookup (fst v) k"
      "\<forall>k. k \<notin> dm_tls_key ` set rs \<longrightarrow> tlookup (snd u) k = tlookup (snd v) k"
    using Cons.IH [OF dr lk] by auto
  have run: "forEach (dm_cleanUpItem l cl capp) (r # rs) w = (Ok (), dm_put u w)"
    using v(1) u(1) by (simp add: andThen_Ok)
  have "dm_dropped l capp w (dm_put u w) x" if "x \<in> set rs" for x
  proof -
    have "dm_tls_key x \<noteq> dm_tls_key r" using nt that by (metis imageI)
    with v(4) have "tlookup (secrets w) (dm_tls_key x) = tlookup (secrets (dm_put v w)) (dm_tls_key x)"
      by simp
    with u(2) that show ?thesis
      using dm_dropped_cong [of "dm_put u w" x "dm_put u w" w "dm_put v w"] by blast
  qed
  moreover have "dm_dropped l capp w (dm_put u w) r"
    using v(2) u(3,4) nr nt dm_dropped_cong [of "dm_put u w" r "dm_put v w" w w] by simp
  ultimately show ?case using run u(3,4) v(3,4) by (intro exI [of _ u]) simp
qed

lemma dm_CleanUp_effect:
  assumes api: "dm_api cl" and own: "owners_readable l capp"
  shows "\<exists>v. dm_CleanUp l cl capp w = (Ok (), dm_put v w)
     \<and> (\<forall>r. managed_by capp fmempty (domainmappings w) r \<longrightarrow> dm_dropped l capp w (dm_put v w) r)
     \<and> (\<forall>k. (\<nexists>r. managed_by capp fmempty (domainmappings w) r \<and> key_of r = k) \<longrightarrow>
           tlookup (fst v) k = tlookup (domainmappings w) k)
     \<and> (\<forall>k. (\<nexists>r. managed_by capp fmempty (domainmappings w) r \<and> dm_tls_key r = k) \<longrightarrow>
           tlookup (snd v) k = tlookup (secrets w) k)"
proof -
  have dapi: "kind_api (c_domainmappings cl) domainmappings domainmappings_update"
    using api by (simp add: dm_api_def)
  obtain rs where rs: "listManagedResources (c_domainmappings cl) capp ''DomainMapping'' fmempty w
        = (Ok rs, w)"
      "distinct (map key_of rs)" "set rs = {r. managed_by capp fmempty (domainmappings w) r}"
    using kind_api.listManagedResources_effect [OF dapi] by blast
  have lk: "tlookup (domainmappings w) (key_of r) = Some r" if "r \<in> set rs" for r
    using that rs(3) by (simp add: managed_by_def)
  obtain v where v: "forEach (dm_cleanUpItem l cl capp) rs w = (Ok (), dm_put v w)"
     "\<forall>r \<in> set rs. dm_dropped l capp w (dm_put v w) r"
     "\<forall>k. k \<notin> key_of ` set rs \<longrightarrow> tlookup (fst v) k = tlookup (domainmappings w) k"
     "\<forall>k. k \<notin> dm_tls_key ` set rs \<longrightarrow> tlookup (snd v) k = tlookup (secrets w) k"
    using dm_cleanUpItems_effect [OF api own rs(2) lk] by auto
  have "dm_CleanUp l cl capp w = (Ok (), dm_put v w)"
    unfolding dm_CleanUp_def getPreviousDomainMappings_def
    by (rule andThen_eqI) (rule rs(1), rule v(1))
  moreover have "tlookup (fst v) k = tlookup (domainmappings w) k"
    if "\<nexists>r. managed_by capp fmempty (domainmappings w) r \<and> key_of r = k" for k
    using v(3) that rs(3) by (metis imageE mem_Collect_eq)
  moreover have "tlookup (snd v) k = tlookup (secrets w) k"
    if "\<nexists>r. managed_by capp fmempty (domainmappings w) r \<and> dm_tls_key r = k" for k
    using v(4) that rs(3) by (metis imageE mem_Collect_eq)
  ultimately show ?thesis using v(2) rs(3) by (intro exI [of _ v]) simp
qed

lemma dm_CleanUp_settles:
  assumes api: "dm_api cl" and live: "DeletionTimestamp (Meta capp) = None"
    and calm: "\<And>r. managed_by capp fmempty (domainmappings w) r \<Longrightarrow> Finalizers (Meta r) = []"
  shows "\<exists>v. dm_CleanUp l cl capp w = (Ok (), dm_put v w) \<and> (\<forall>r. \<not> managed_by capp fmempty (fst v) r)"
proof -
  from live have own: "owners_readable l capp" by (simp add: owners_readable_def)
  obtain v where v: "dm_CleanUp l cl capp w = (Ok (), dm_put v w)"
      "\<forall>r. managed_by capp fmempty (domainmappings w) r \<longrightarrow> dm_dropped l capp w (dm_put v w) r"
      "\<forall>k. (\<nexists>r. managed_by capp fmempty (domainmappings w) r \<and> key_of r = k) \<longrightarrow>
           tlookup (fst v) k = tlookup (domainmappings w) k"
    using dm_CleanUp_effect [OF api own, of w] by blast
  have gone: "tlookup (fst v) (key_of r) = None" if "managed_by capp fmempty (domainmappings w) r" for r
    using v(2) calm [OF that] that live
    by (auto simp: dm_dropped_def kept_for_gc_def removed_def split: option.splits)
  have "\<not> managed_by capp fmempty (fst v) r" for r
  proof
    assume m: "managed_by capp fmempty (fst v) r"
    then have s: "tlookup (fst v) (key_of r) = Some r" by (simp add: managed_by_def)
    show False
    proof (cases "\<exists>x. managed_by capp fmempty (domainmappings w) x \<and> key_of x = key_of r")
      case True
      with gone s show False by (metis option.distinct(1))
    next
      case False
      with v(3) s have "tlookup (domainmappings w) (key_of r) = Some r" by simp
      with m have "managed_by capp fmempty (domainmappings w) r" by (simp add: managed_by_def)
      with False show False by blast
    qed
  qed
  with v(1) show ?thesis by (intro exI [of _ v]) simp
qed

lemma dm_CleanUp_stable:
  assumes api: "dm_api cl" and none: "\<And>r. \<not> managed_by capp fmempty (domainmappings w) r"
  shows "dm_CleanUp l cl capp w = (Ok (), w)"
proof -
  have dapi: "kind_api (c_domainmappings cl) domainmappings domainmappings_update"
    using api by (simp add: dm_api_def)
  obtain rs where rs: "listManagedResources (c_domainmappings cl) capp ''DomainMapping'' fmempty w
        = (Ok rs, w)" "set rs = {r. managed_by capp fmempty (domainmappings w) r}"
    using kind_api.listManagedResources_effect [OF dapi] by blast
  with none have "rs = []" by simp
  with rs(1) show ?thesis by (simp add: dm_CleanUp_def getPreviousDomainMappings_def andThen_Ok)
qed

interpretation dm_mgr: settling_manager dm_Manage dm_api dm_put
  "\<lambda>w. (domainmappings w, secrets w)" dm_calm dm_settled
proof (unfold_locales, goal_cases)
  case (6 cl l c g w)
  have dapi: "kind_api (c_domainmappings cl) domainmappings domainmappings_update"
    using 6 by (simp add: dm_api_def)
  show ?case
  proof (cases "dm_IsRequired c")
    case True
    let ?d = "dm_desired g c w"
    have calm: "\<And>r. tlookup (domainmappings w) (key_of ?d) = Some r \<Longrightarrow> \<not> terminating r"
      using 6(4) True by (simp add: dm_calm_def single_calm_def)
    from kind_api.upsert_settles [OF dapi 6(2) dm_desired_ns dm_plan_ok, of w g c w, OF calm]
    obtain t ev where t: "upsert l (c_domainmappings cl) c ?d (dm_plan ?d) w
          = (Ok (), w\<lparr>events := ev, domainmappings := t\<rparr>)"
        "in_place l c ?d (up_merge (dm_plan ?d)) t" by auto
    have put: "dm_put (t, secrets w) (w\<lparr>events := ev\<rparr>) = w\<lparr>events := ev, domainmappings := t\<rparr>"
      by (simp add: dm_put_def)
    have same: "dm_desired g c (w\<lparr>events := ev, domainmappings := t\<rparr>) = ?d"
      by (simp add: dm_desired_def)
    have "dm_settled l g c (w\<lparr>events := ev, domainmappings := t\<rparr>)"
      using t(2) True unfolding dm_settled_def single_settled_def same by simp
    moreover have "dm_Manage l cl g c w = (Ok (), w\<lparr>events := ev, domainmappings := t\<rparr>)"
      using t(1) True by (simp add: dm_Manage_def dm_createOrUpdate_upsert [OF 6(1)])
    ultimately show ?thesis
      by (intro exI [of _ "(t, secrets w)"] exI [of _ ev]) (simp only: put)
  next
    case False
    with 6(4) have "\<And>r. managed_by c fmempty (domainmappings w) r \<Longrightarrow> Finalizers (Meta r) = []"
      by (simp add: dm_calm_def single_calm_def)
    from dm_CleanUp_settles [OF 6(1,3) this] obtain v where
      "dm_CleanUp l cl c w = (Ok (), dm_put v w)" "\<forall>r. \<not> managed_by c fmempty (fst v) r" by blast
    with False show ?thesis
      by (intro exI [of _ v] exI [of _ "events w"])
        (simp add: dm_Manage_def dm_settled_def single_settled_def)
  qed
next
  case (7 cl c l g w)
  have dapi: "kind_api (c_domainmappings cl) domainmappings domainmappings_update"
    using 7 by (simp add: dm_api_def)
  show ?case
  proof (cases "dm_IsRequired c")
    case True
    with 7 kind_api.upsert_stable [OF dapi dm_plan_ok] show ?thesis
      by (intro exI [of _ "events w"])
        (simp add: dm_Manage_def dm_createOrUpdate_upsert dm_settled_def single_settled_def)
  next
    case False
    with 7 dm_CleanUp_stable [OF 7(1)] show ?thesis
      by (intro exI [of _ "events w"]) (simp add: dm_Manage_def dm_settled_def single_settled_def)
  qed
qed (simp_all add: dm_settled_def dm_desired_def)

definition dm_cleaned :: "lib \<Rightarrow> capp \<Rightarrow> world \<Rightarrow> bool" where
  "dm_cleaned l capp w \<longleftrightarrow> listed_cleaned l capp fmempty (domainmappings w)"

lemma dm_CleanUp_cleans:
  assumes "dm_api cl" "owner_refs_lib l"
  shows "\<exists>v. dm_CleanUp l cl capp w = (Ok (), dm_put v w) \<and> dm_cleaned l capp (dm_put v w)"
proof -
  obtain v where v: "dm_CleanUp l cl capp w = (Ok (), dm_put v w)"
      "\<forall>r. managed_by capp fmempty (domainmappings w) r \<longrightarrow> dm_dropped l capp w (dm_put v w) r"
      "\<forall>k. (\<nexists>r. managed_by capp fmempty (domainmappings w) r \<and> key_of r = k) \<longrightarrow>
           tlookup (fst v) k = tlookup (domainmappings w) k"
    using dm_CleanUp_effect [OF assms(1) owner_refs_lib_readable [OF assms(2)], of capp w] by blast
  have "\<not> left_over l capp r" if m: "managed_by capp fmempty (fst v) r" for r
  proof (cases "\<exists>x. managed_by capp fmempty (domainmappings w) x \<and> key_of x = key_of r")
    case True
    then obtain x where x: "managed_by capp fmempty (domainmappings w) x" "key_of x = key_of r"
      by blast
    from m have r: "tlookup (fst v) (key_of x) = Some r" by (simp add: managed_by_def x(2))
    from v(2) x(1) have "dm_dropped l capp w (dm_put v w) x" by blast
    with r removed_not_left_over [of "fst v" x r l capp] show ?thesis
      by (auto simp: dm_dropped_def left_over_def split: if_splits)
  next
    case False
    with v(3) m have "managed_by capp fmempty (domainmappings w) r" by (simp add: managed_by_def)
    with False show ?thesis by blast
  qed
  with v(1) show ?thesis
    by (intro exI [of _ v]) (simp add: dm_cleaned_def listed_cleaned_def)
qed

interpretation dm_mgr: cleaning_manager dm_Manage dm_api dm_put
  "\<lambda>w. (domainmappings w, secrets w)" dm_calm dm_settled dm_CleanUp dm_cleaned
  by unfold_locales (rule dm_CleanUp_cleans)

end
