(* ===== verification/DnsRecordManager.thy ===== *)
theory DnsRecordManager
  imports ResourceManager
begin

text \<open>
  \<open>resourcemanagers/dnsrecord.go\<close>: the CNAMERecord of a Capp with a host name. Preparing it
  can panic, since \<open>GenerateRecordName\<close> slices the host name. An existing record keeps the
  fields of its spec other than \<open>ForProvider\<close> and \<open>ProviderConfigReference\<close>.
\<close>

text \<open>The reasons of the events.\<close>

abbreviation eventCappDNSRecordCreationFailed :: string where "eventCappDNSRecordCreationFailed \<equiv> ''DNSRecordCreationFailed''"
abbreviation eventCappDNSRecordCreated :: string where "eventCappDNSRecordCreated \<equiv> ''DNSRecordCreated''"

definition ClusterProviderConfigKind :: string where
  "ClusterProviderConfigKind = ''ClusterProviderConfig''"

definition dns_prepareResource :: "capp_config \<Rightarrow> capp \<Rightarrow> cname_record result" where
  "dns_prepareResource cfg capp =
     (let dnsConfig = cfg_DNSConfig (Spec cfg);
          hostname = rt_Hostname (cs_RouteSpec (Spec capp));
          resourceName = GenerateResourceName hostname (dns_Zone dnsConfig)
      in case GenerateRecordName hostname (dns_Zone dnsConfig) of
           Ok recordName \<Rightarrow>
             Ok \<lparr>TypeKind = [],
                 Meta = newMeta resourceName (Namespace (Meta capp))
                   (MergeMaps (ManagedResourceLabels (Name (Meta capp)))
                      (fmap_of_list [(CappNamespaceKey, Namespace (Meta capp))])),
                 Spec = \<lparr>cn_ForProvider = \<lparr>fp_Name = Some recordName,
                                           fp_Zone = Some (dns_Zone dnsConfig),
                                           fp_Cname = Some (dns_CNAME dnsConfig), fp_rest = []\<rparr>,
                         cn_ProviderConfigReference =
                           Some \<lparr>pr_Name = dns_Provider dnsConfig, pr_Kind = ClusterProviderConfigKind\<rparr>,
                         cn_rest = []\<rparr>,
                 Status = zeroConditioned\<rparr>
         | Err e \<Rightarrow> Err e
         | Panic p \<Rightarrow> Panic p)"

definition getPreviousDNSRecords :: "client \<Rightarrow> capp \<Rightarrow> cname_record list act" where
  "getPreviousDNSRecords cl capp =
     listManagedResources (c_cnamerecords cl) capp DNSRecord
       (fmap_of_list [(CappNamespaceKey, Namespace (Meta capp))])"

definition dns_CleanUp :: "lib \<Rightarrow> client \<Rightarrow> capp \<Rightarrow> unit act" where
  "dns_CleanUp l cl capp =
     andThen (getPreviousDNSRecords cl capp) (\<lambda>dnsRecords.
       deleteOwnedResources l (c_cnamerecords cl) capp dnsRecords)"

definition dns_IsRequired :: "capp \<Rightarrow> bool" where
  "dns_IsRequired capp \<longleftrightarrow> rt_Hostname (cs_RouteSpec (Spec capp)) \<noteq> []"

definition dnsRecordNeedsUpdate :: "lib \<Rightarrow> cname_record \<Rightarrow> cname_record \<Rightarrow> capp \<Rightarrow> bool result"
where
  "dnsRecordNeedsUpdate l current desired capp =
     (if cn_ForProvider (Spec current) \<noteq> cn_ForProvider (Spec desired)
         \<or> cn_ProviderConfigReference (Spec current) \<noteq> cn_ProviderConfigReference (Spec desired)
      then Ok True
      else (case l_HasOwnerReference l (OwnerReferences (Meta current)) capp of
              Ok b \<Rightarrow> Ok (\<not> b) | Err e \<Rightarrow> Err e | Panic p \<Rightarrow> Panic p))"

definition dns_createOrUpdate :: "lib \<Rightarrow> client \<Rightarrow> capp_config \<Rightarrow> capp \<Rightarrow> unit act" where
  "dns_createOrUpdate l cl cfg capp =
     andThen (lift (dns_prepareResource cfg capp)) (\<lambda>fromCapp.
       handle (kget (c_cnamerecords cl) (Namespace (Meta capp)) (Name (Meta fromCapp)))
         (\<lambda>err. if IsNotFound err
                then createManagedResource l (CreateResource (c_cnamerecords cl)) capp fromCapp
                       DNSRecord eventCappDNSRecordCreated eventCappDNSRecordCreationFailed
                else throw (wrap (''failed to get DNSRecord '' @ fmt_q (Name (Meta fromCapp))) err))
         (\<lambda>orig.
            andThen (lift (dnsRecordNeedsUpdate l orig fromCapp capp)) (\<lambda>needs.
              if \<not> needs then ok ()
              else
                andThen (lift (ensureOwnerReference l capp orig DNSRecord)) (\<lambda>dnsRecord.
                  let dnsRecord = dnsRecord\<lparr>Spec := (Spec dnsRecord)
                        \<lparr>cn_ForProvider := cn_ForProvider (Spec fromCapp),
                         cn_ProviderConfigReference := cn_ProviderConfigReference (Spec fromCapp)\<rparr>\<rparr>
                  in if \<not> managedResourceNeedsUpdate (Spec orig) (Spec dnsRecord)
                            (OwnerReferences (Meta orig)) (OwnerReferences (Meta dnsRecord))
                     then ok ()
                     else UpdateResource (c_cnamerecords cl) dnsRecord))))"

definition dns_Manage :: "lib \<Rightarrow> client \<Rightarrow> capp_config \<Rightarrow> capp \<Rightarrow> unit act" where
  "dns_Manage l cl cfg capp =
     (if dns_IsRequired capp then dns_createOrUpdate l cl cfg capp else dns_CleanUp l cl capp)"

section \<open>Settling\<close>

definition dns_extra :: "capp \<Rightarrow> strmap" where
  "dns_extra capp = fmap_of_list [(CappNamespaceKey, Namespace (Meta capp))]"

definition dns_merge :: "cname_record \<Rightarrow> cname_spec \<Rightarrow> cname_spec" where
  "dns_merge d s =
     s\<lparr>cn_ForProvider := cn_ForProvider (Spec d),
       cn_ProviderConfigReference := cn_ProviderConfigReference (Spec d)\<rparr>"

definition dns_plan :: "cname_record \<Rightarrow> (cname_spec, conditioned_status) upsert_plan" where
  "dns_plan d =
     \<lparr>up_merge = dns_merge d, up_kind = DNSRecord, up_created = eventCappDNSRecordCreated,
      up_failed = eventCappDNSRecordCreationFailed,
      up_getMsg = ''failed to get DNSRecord '' @ fmt_q (Name (Meta d)),
      up_after = ok (), up_wrap = (\<lambda>r m. m)\<rparr>"

text \<open>The record is there with the wanted fields and an owner reference to the Capp.\<close>

definition dns_there :: "lib \<Rightarrow> capp \<Rightarrow> cname_record \<Rightarrow> (cname_spec, conditioned_status) table \<Rightarrow> bool"
where
  "dns_there l capp d t \<longleftrightarrow>
     (case tlookup t (key_of d) of
        None \<Rightarrow> False
      | Some r \<Rightarrow> dns_merge d (Spec r) = Spec r
          \<and> l_HasOwnerReference l (OwnerReferences (Meta r)) capp = Ok True)"

definition dns_settled :: "lib \<Rightarrow> capp_config \<Rightarrow> capp \<Rightarrow> world \<Rightarrow> bool" where
  "dns_settled l cfg capp w \<longleftrightarrow>
     (if dns_IsRequired capp
      then (case dns_prepareResource cfg capp of
              Ok d \<Rightarrow> dns_there l capp d (cnamerecords w) | Err e \<Rightarrow> False | Panic p \<Rightarrow> False)
      else (\<forall>r. \<not> managed_by capp (dns_extra capp) (cnamerecords w) r))"

definition dns_calm :: "capp_config \<Rightarrow> capp \<Rightarrow> world \<Rightarrow> bool" where
  "dns_calm cfg capp w \<longleftrightarrow>
     (if dns_IsRequired capp
      then (case dns_prepareResource cfg capp of
              Ok d \<Rightarrow> (\<forall>r. tlookup (cnamerecords w) (key_of d) = Some r \<longrightarrow> \<not> terminating r)
            | Err e \<Rightarrow> False | Panic p \<Rightarrow> False)
      else (\<forall>r. managed_by capp (dns_extra capp) (cnamerecords w) r \<longrightarrow> Finalizers (Meta r) = []))"

definition dns_api :: "client \<Rightarrow> bool" where
  "dns_api cl \<longleftrightarrow> kind_api (c_cnamerecords cl) cnamerecords cnamerecords_update"

lemma dns_plan_ok: "plan_ok (dns_plan d) d"
  unfolding plan_ok_def
proof (intro conjI allI impI)
  show "\<exists>ev. up_after (dns_plan d) w = (Ok (), w\<lparr>events := ev\<rparr>)" for w
    by (intro exI [of _ "events w"]) (simp add: dns_plan_def)
qed (simp_all add: dns_plan_def dns_merge_def)

lemma dns_prepare_meta:
  "dns_prepareResource cfg capp = Ok d \<Longrightarrow>
     Namespace (Meta d) = Namespace (Meta capp)
     \<and> Name (Meta d) = GenerateResourceName (rt_Hostname (cs_RouteSpec (Spec capp)))
                        (dns_Zone (cfg_DNSConfig (Spec cfg)))"
  by (auto simp: dns_prepareResource_def Let_def newMeta_def split: result.splits)

lemma dns_merge_fixed:
  "dns_merge d s = s \<longleftrightarrow>
     cn_ForProvider s = cn_ForProvider (Spec d)
     \<and> cn_ProviderConfigReference s = cn_ProviderConfigReference (Spec d)"
  by (cases s) (auto simp: dns_merge_def)

lemma Meta_Spec_update:
  "Spec_update f (Meta_update g r) = Meta_update g (Spec_update f (r :: cname_record))"
  by simp

text \<open>
  Where the record is missing or an update is due, \<open>createOrUpdate\<close> has the common shape.
\<close>

lemma dns_createOrUpdate_upsert:
  assumes d: "dns_prepareResource cfg capp = Ok d"
    and due: "\<And>r w'. kget (c_cnamerecords cl) (Namespace (Meta d)) (Name (Meta d)) w = (Ok r, w') \<Longrightarrow>
      dnsRecordNeedsUpdate l r d capp = Ok True"
  shows "dns_createOrUpdate l cl cfg capp w = upsert l (c_cnamerecords cl) capp d (dns_plan d) w"
proof -
  have ns: "Namespace (Meta d) = Namespace (Meta capp)" using dns_prepare_meta [OF d] by simp
  obtain x w' where get: "kget (c_cnamerecords cl) (Namespace (Meta d)) (Name (Meta d)) w = (x, w')"
    by (metis surj_pair)
  show ?thesis
  proof (cases x)
    case (Ok r)
    with get due have need: "dnsRecordNeedsUpdate l r d capp = Ok True" by simp
    show ?thesis
    proof (cases "l_SetOwnerReference l capp (Meta r)")
      case (Ok refs)
      with get \<open>x = Ok r\<close> need d ns show ?thesis
        by (simp add: dns_createOrUpdate_def upsert_def dns_plan_def dns_merge_def andThen_def
            handle_def ensureOwnerReference_def updateManagedResourceIfNeeded_def Let_def
            Meta_Spec_update)
    qed (use get \<open>x = Ok r\<close> need d ns in \<open>simp_all add: dns_createOrUpdate_def upsert_def
        dns_plan_def andThen_def handle_def ensureOwnerReference_def\<close>)
  next
    case (Err e)
    with get d ns show ?thesis
      by (auto simp: dns_createOrUpdate_def upsert_def dns_plan_def andThen_def handle_def
          split: prod.splits result.splits)
  qed (use get d ns in \<open>simp add: dns_createOrUpdate_def upsert_def andThen_def handle_def\<close>)
qed

lemma dns_createOrUpdate_there:
  assumes d: "dns_prepareResource cfg capp = Ok d"
    and api: "dns_api cl" and there: "dns_there l capp d (cnamerecords w)"
  shows "dns_createOrUpdate l cl cfg capp w = (Ok (), w)"
proof -
  from there obtain r where r: "tlookup (cnamerecords w) (key_of d) = Some r"
      "dns_merge d (Spec r) = Spec r"
      "l_HasOwnerReference l (OwnerReferences (Meta r)) capp = Ok True"
    by (auto simp: dns_there_def split: option.splits)
  have "kget (c_cnamerecords cl) (Namespace (Meta capp)) (Name (Meta d)) w = (Ok r, w)"
    using kind_api.get_found [OF api [unfolded dns_api_def]] r(1) dns_prepare_meta [OF d]
    by (simp add: key_of_def)
  with d r(2,3) show ?thesis
    by (simp add: dns_createOrUpdate_def andThen_def handle_def dnsRecordNeedsUpdate_def
        dns_merge_fixed)
qed

lemma dns_createOrUpdate_settles:
  assumes d: "dns_prepareResource cfg capp = Ok d" and api: "dns_api cl" and lib: "owner_refs_lib l"
    and calm: "\<And>r. tlookup (cnamerecords w) (key_of d) = Some r \<Longrightarrow> \<not> terminating r"
  shows "\<exists>t ev. dns_createOrUpdate l cl cfg capp w
           = (Ok (), cnamerecords_update (\<lambda>_. t) (w\<lparr>events := ev\<rparr>)) \<and> dns_there l capp d t"
proof (cases "dns_there l capp d (cnamerecords w)")
  case True
  then show ?thesis using dns_createOrUpdate_there [OF d api True]
    by (intro exI [of _ "cnamerecords w"] exI [of _ "events w"]) simp
next
  case False
  note kapi = api [unfolded dns_api_def]
  have due: "dnsRecordNeedsUpdate l r d capp = Ok True"
    if "kget (c_cnamerecords cl) (Namespace (Meta d)) (Name (Meta d)) w = (Ok r, w')" for r w'
  proof -
    have "tlookup (cnamerecords w) (key_of d) = Some r"
      using kind_api.get_Ok_stored [OF kapi that] by (simp add: key_of_def)
    with False lib show ?thesis
      by (auto simp: dns_there_def dnsRecordNeedsUpdate_def dns_merge_fixed owner_refs_lib_def
          split: result.splits) (metis result.distinct result.inject(1))+
  qed
  have ns: "Namespace (Meta d) = Namespace (Meta capp)" using dns_prepare_meta [OF d] by simp
  have merge: "up_merge (dns_plan d) = dns_merge d" by (simp add: dns_plan_def)
  have "\<exists>t ev. upsert l (c_cnamerecords cl) capp d (dns_plan d) w
        = (Ok (), cnamerecords_update (\<lambda>_. t) (w\<lparr>events := ev\<rparr>))
      \<and> in_place l capp d (up_merge (dns_plan d)) t
      \<and> (\<forall>k. k \<noteq> key_of d \<longrightarrow> tlookup t k = tlookup (cnamerecords w) k)"
    by (rule kind_api.upsert_settles [OF kapi lib ns dns_plan_ok]) (rule calm)
  then obtain t ev where t: "upsert l (c_cnamerecords cl) capp d (dns_plan d) w
        = (Ok (), cnamerecords_update (\<lambda>_. t) (w\<lparr>events := ev\<rparr>))"
      "in_place l capp d (dns_merge d) t"
    unfolding merge by (elim exE conjE) (rule that)
  from t(2) have "dns_there l capp d t"
    by (auto simp: in_place_def dns_there_def owned_by_def split: option.splits)
  with t(1) dns_createOrUpdate_upsert [OF d due] show ?thesis by auto
qed

lemma dns_CleanUp_listed:
  "dns_CleanUp l cl capp = cleanUpListed l (c_cnamerecords cl) capp ''DNSRecord'' (dns_extra capp)"
  by (simp add: dns_CleanUp_def getPreviousDNSRecords_def cleanUpListed_def dns_extra_def)

interpretation dns_mgr: settling_manager dns_Manage dns_api "\<lambda>t. cnamerecords_update (\<lambda>_. t)"
  cnamerecords dns_calm dns_settled
proof (unfold_locales, goal_cases)
  case (6 cl l c g w)
  show ?case
  proof (cases "dns_IsRequired c")
    case True
    with 6 obtain d where d: "dns_prepareResource g c = Ok d"
        "\<And>r. tlookup (cnamerecords w) (key_of d) = Some r \<Longrightarrow> \<not> terminating r"
      by (auto simp: dns_calm_def split: result.splits)
    from dns_createOrUpdate_settles [OF d(1) 6(1,2) d(2)] True d(1) show ?thesis
      by (simp add: dns_Manage_def dns_settled_def)
  next
    case False
    with 6 obtain t where "dns_CleanUp l cl c w = (Ok (), cnamerecords_update (\<lambda>_. t) w)"
        "\<forall>r. \<not> managed_by c (dns_extra c) t r"
      using kind_api.cleanUpListed_settles [of "c_cnamerecords cl" cnamerecords cnamerecords_update
          c "dns_extra c" w l "''DNSRecord''"]
      by (auto simp: dns_api_def dns_calm_def dns_CleanUp_listed)
    with False show ?thesis
      by (intro exI [of _ t] exI [of _ "events w"]) (simp add: dns_Manage_def dns_settled_def)
  qed
next
  case (7 cl c l g w)
  show ?case
  proof (cases "dns_IsRequired c")
    case True
    with 7 obtain d where "dns_prepareResource g c = Ok d" "dns_there l c d (cnamerecords w)"
      by (auto simp: dns_settled_def split: result.splits)
    from dns_createOrUpdate_there [OF this(1) 7(1) this(2)] True show ?thesis
      by (intro exI [of _ "events w"]) (simp add: dns_Manage_def)
  next
    case False
    with 7 kind_api.cleanUpListed_stable [of "c_cnamerecords cl" cnamerecords cnamerecords_update
        c "dns_extra c" w l "''DNSRecord''"] show ?thesis
      by (intro exI [of _ "events w"])
        (simp add: dns_Manage_def dns_api_def dns_settled_def dns_CleanUp_listed)
  qed
qed (simp_all add: dns_settled_def split: result.splits)

definition dns_cleaned :: "lib \<Rightarrow> capp \<Rightarrow> world \<Rightarrow> bool" where
  "dns_cleaned l capp w \<longleftrightarrow> listed_cleaned l capp (dns_extra capp) (cnamerecords w)"

interpretation dns_mgr: cleaning_manager dns_Manage dns_api "\<lambda>t. cnamerecords_update (\<lambda>_. t)"
  cnamerecords dns_calm dns_settled dns_CleanUp dns_cleaned
proof
  show "\<exists>v. dns_CleanUp l cl c w = (Ok (), cnamerecords_update (\<lambda>_. v) w)
          \<and> dns_cleaned l c (cnamerecords_update (\<lambda>_. v) w)"
    if "dns_api cl" "owner_refs_lib l" for cl l c w
    using kind_api.cleanUpListed_cleans [OF that(1) [unfolded dns_api_def] that(2)]
    by (simp add: dns_CleanUp_listed dns_cleaned_def)
qed

end
