(* ===== verification/CappController.thy ===== *)
theory CappController
  imports CappStatus KnativeServiceManager NfsPvcManager SyslogNGManagers CertificateManager
    DomainMappingManager DnsRecordManager EventSourceManagers WatchEvents
begin

text \<open>
  \<open>controllers/controller.go\<close> and \<open>controllers/finalizer.go\<close>: the reconciler of Capps. It runs
  the nine managers in a fixed order, collects their errors, writes the status and decides
  whether to requeue; a Capp that is being deleted is cleaned up in the reverse order before
  its finalizer is removed.
\<close>

section \<open>finalizer.go\<close>

definition cappCleanupFinalizer :: string where "cappCleanupFinalizer = ''dana.io/capp-cleanup''"

definition setFinalizers :: "capp \<Rightarrow> string list \<Rightarrow> capp" where
  "setFinalizers capp fs = capp\<lparr>Meta := (Meta capp)\<lparr>Finalizers := fs\<rparr>\<rparr>"

definition removeFinalizer :: "lib \<Rightarrow> client \<Rightarrow> capp \<Rightarrow> unit act" where
  "removeFinalizer l cl capp =
     UpdateResource (c_capps cl)
       (setFinalizers capp (l_RemoveFinalizer l (Finalizers (Meta capp)) cappCleanupFinalizer))"

definition finalizeCapp :: "capp \<Rightarrow> resource_manager_entry list \<Rightarrow> unit act" where
  "finalizeCapp capp managers =
     forEach (\<lambda>entry. rm_CleanUp (rme_Manager entry) capp) (rev managers)"

definition handleResourceDeletion ::
  "lib \<Rightarrow> client \<Rightarrow> capp \<Rightarrow> resource_manager_entry list \<Rightarrow> bool act" where
  "handleResourceDeletion l cl capp managers =
     (if DeletionTimestamp (Meta capp) \<noteq> None
         \<and> l_ContainsFinalizer l (Finalizers (Meta capp)) cappCleanupFinalizer
      then andThen (finalizeCapp capp managers) (\<lambda>_.
             andThen (removeFinalizer l cl capp) (\<lambda>_. ok True))
      else ok False)"

definition ensureFinalizer :: "lib \<Rightarrow> client \<Rightarrow> capp \<Rightarrow> unit act" where
  "ensureFinalizer l cl capp =
     (if \<not> l_ContainsFinalizer l (Finalizers (Meta capp)) cappCleanupFinalizer
      then UpdateResource (c_capps cl)
             (setFinalizers capp (l_AddFinalizer l (Finalizers (Meta capp)) cappCleanupFinalizer))
      else ok ())"

section \<open>controller.go: reconciling\<close>

record reconcile_result =
  RequeueAfter :: i64

definition RequeueTime :: i64 where "RequeueTime = 5 * Second"

definition resourceManagers :: "lib \<Rightarrow> client \<Rightarrow> capp_config \<Rightarrow> resource_manager_entry list" where
  "resourceManagers l cl cfg =
     [\<lparr>rme_Name = KnativeService, rme_Manager =
         \<lparr>rm_Manage = ksvc_Manage l cl cfg, rm_CleanUp = ksvc_CleanUp l cl,
          rm_IsRequired = ksvc_IsRequired\<rparr>\<rparr>,
      \<lparr>rme_Name = NfsPvc, rme_Manager =
         \<lparr>rm_Manage = nfs_Manage l cl cfg, rm_CleanUp = nfs_CleanUp l cl,
          rm_IsRequired = nfs_IsRequired\<rparr>\<rparr>,
      \<lparr>rme_Name = SyslogNGOutput, rme_Manager =
         \<lparr>rm_Manage = output_Manage l cl, rm_CleanUp = output_CleanUp l cl,
          rm_IsRequired = output_IsRequired\<rparr>\<rparr>,
      \<lparr>rme_Name = SyslogNGFlow, rme_Manager =
         \<lparr>rm_Manage = flow_Manage l cl, rm_CleanUp = flow_CleanUp l cl,
          rm_IsRequired = flow_IsRequired\<rparr>\<rparr>,
      \<lparr>rme_Name = Certificate, rme_Manager =
         \<lparr>rm_Manage = cert_Manage l cl cfg, rm_CleanUp = cert_CleanUp l cl,
          rm_IsRequired = cert_IsRequired\<rparr>\<rparr>,
      \<lparr>rme_Name = DomainMapping, rme_Manager =
         \<lparr>rm_Manage = dm_Manage l cl cfg, rm_CleanUp = dm_CleanUp l cl,
          rm_IsRequired = dm_IsRequired\<rparr>\<rparr>,
      \<lparr>rme_Name = DNSRecord, rme_Manager =
         \<lparr>rm_Manage = dns_Manage l cl cfg, rm_CleanUp = dns_CleanUp l cl,
          rm_IsRequired = dns_IsRequired\<rparr>\<rparr>,
      \<lparr>rme_Name = PingSource, rme_Manager =
         \<lparr>rm_Manage = ping_Manage l cl cfg, rm_CleanUp = ping_CleanUp l cl,
          rm_IsRequired = ping_IsRequired\<rparr>\<rparr>,
      \<lparr>rme_Name = KafkaSource, rme_Manager =
         \<lparr>rm_Manage = kafka_Manage l cl cfg, rm_CleanUp = kafka_CleanUp l cl,
          rm_IsRequired = kafka_IsRequired\<rparr>\<rparr>]"

text \<open>The loop of \<open>SyncApplication\<close>, which gives the errors the managers returned.\<close>

fun manageAll :: "resource_manager_entry list \<Rightarrow> capp \<Rightarrow> go_error list act" where
  "manageAll [] capp = ok []"
| "manageAll (entry # es) capp =
     handle (rm_Manage (rme_Manager entry) capp)
       (\<lambda>err. andThen (manageAll es capp) (\<lambda>errs. ok (wrap (rme_Name entry) err # errs)))
       (\<lambda>_. manageAll es capp)"

text \<open>
  \<open>utilerrors.NewAggregate\<close>: nil for no error, else an error that has the given ones as its
  members and no status reason of its own.
\<close>

definition NewAggregate :: "lib \<Rightarrow> go_error list \<Rightarrow> go_error option" where
  "NewAggregate l errs =
     (if errs = [] then None else Some (GoError (l_AggregateText l errs) None (Some errs)))"

definition SyncApplication ::
  "lib \<Rightarrow> client \<Rightarrow> capp \<Rightarrow> resource_manager_entry list \<Rightarrow> capp_config \<Rightarrow> unit act" where
  "SyncApplication l cl capp managers cfg =
     andThen (manageAll managers capp) (\<lambda>syncErrors.
     andThen (SyncStatus l cl capp (ManagerMap managers) cfg syncErrors) (\<lambda>_.
       case NewAggregate l syncErrors of None \<Rightarrow> ok () | Some err \<Rightarrow> throw err))"

definition hasConflictError :: "go_error \<Rightarrow> bool" where
  "hasConflictError err \<longleftrightarrow>
     (if IsConflict err then True
      else (case err_items err of
              Some errs \<Rightarrow> if errs = [] then False else list_all IsConflict errs
            | None \<Rightarrow> False))"

definition Reconcile :: "lib \<Rightarrow> client \<Rightarrow> key \<Rightarrow> reconcile_result act" where
  "Reconcile l cl req =
     handle (kget (c_capps cl) (nn_Namespace req) (nn_Name req))
       (\<lambda>err. if IsNotFound err then ok \<lparr>RequeueAfter = 0\<rparr>
              else throw (wrap ''failed to get Capp'' err))
       (\<lambda>capp.
     andThen (wrapErr ''failed to get CappConfig'' (GetCappConfig cl)) (\<lambda>cappConfig.
       let managers = resourceManagers l cl cappConfig in
     andThen (wrapErr ''failed to handle Capp deletion''
                (handleResourceDeletion l cl capp managers)) (\<lambda>deleted.
       if deleted then ok \<lparr>RequeueAfter = 0\<rparr>
       else
     andThen (wrapErr ''failed to ensure finalizer in Capp'' (ensureFinalizer l cl capp)) (\<lambda>_.
     handle (SyncApplication l cl capp managers cappConfig)
       (\<lambda>err. if hasConflictError err then ok \<lparr>RequeueAfter = RequeueTime\<rparr>
              else throw (wrap ''failed to sync Capp'' err))
       (\<lambda>_. ok \<lparr>RequeueAfter = 0\<rparr>)))))"

section \<open>controller.go: watches\<close>

definition knativeServiceWatchPredicate :: "watch_lib \<Rightarrow> knative_service watch_event \<Rightarrow> bool" where
  "knativeServiceWatchPredicate wl e \<longleftrightarrow>
     generationChanged wl e
     \<or> updateFunc (\<lambda>old new.
          ks_LatestReadyRevisionName (Status old) \<noteq> ks_LatestReadyRevisionName (Status new)
          \<or> ks_LatestCreatedRevisionName (Status old) \<noteq> ks_LatestCreatedRevisionName (Status new)) e"

record condition_pair =
  cp_Type :: string
  cp_Status :: string

definition conditionPairs :: "condition list \<Rightarrow> condition_pair list" where
  "conditionPairs cs = map (\<lambda>c. \<lparr>cp_Type = cond_Type c, cp_Status = cond_Status c\<rparr>) cs"

fun findCondition :: "string \<Rightarrow> condition_pair list \<Rightarrow> string" where
  "findCondition condType [] = []"
| "findCondition condType (c # cs) =
     (if cp_Type c = condType then cp_Status c else findCondition condType cs)"

definition conditionStatusChanged ::
  "condition_pair list \<Rightarrow> condition_pair list \<Rightarrow> string \<Rightarrow> bool" where
  "conditionStatusChanged oldConds newConds condType \<longleftrightarrow>
     findCondition condType oldConds \<noteq> findCondition condType newConds"

definition readyChanged ::
  "('sp, conditioned_status) resource \<Rightarrow> ('sp, conditioned_status) resource \<Rightarrow> bool" where
  "readyChanged old new \<longleftrightarrow>
     conditionStatusChanged (conditionPairs (st_Conditions (Status old)))
       (conditionPairs (st_Conditions (Status new))) ''Ready''"

definition pingSourceWatchPredicate :: "watch_lib \<Rightarrow> ping_source watch_event \<Rightarrow> bool" where
  "pingSourceWatchPredicate wl e \<longleftrightarrow> generationChanged wl e \<or> updateFunc readyChanged e"

definition kafkaSourceWatchPredicate :: "watch_lib \<Rightarrow> kafka_source watch_event \<Rightarrow> bool" where
  "kafkaSourceWatchPredicate wl e \<longleftrightarrow> generationChanged wl e \<or> updateFunc readyChanged e"

definition domainMappingWatchPredicate :: "watch_lib \<Rightarrow> domain_mapping watch_event \<Rightarrow> bool" where
  "domainMappingWatchPredicate wl e \<longleftrightarrow> generationChanged wl e \<or> updateFunc readyChanged e"

definition certificateConditions :: "condition list \<Rightarrow> condition_pair list" where
  "certificateConditions cs = map (\<lambda>c. \<lparr>cp_Type = cond_Type c, cp_Status = cond_Status c\<rparr>) cs"

definition certificateWatchPredicate :: "watch_lib \<Rightarrow> certificate watch_event \<Rightarrow> bool" where
  "certificateWatchPredicate wl e \<longleftrightarrow>
     generationChanged wl e
     \<or> updateFunc (\<lambda>old new.
          conditionStatusChanged (certificateConditions (st_Conditions (Status old)))
            (certificateConditions (st_Conditions (Status new))) ''Ready'') e"

text \<open>Crossplane's \<open>GetCondition\<close> answers an unknown status for a missing condition.\<close>

definition cnameConditionStatus :: "cname_record \<Rightarrow> string \<Rightarrow> string" where
  "cnameConditionStatus r type =
     (case GetCondition (st_Conditions (Status r)) type of
        Some c \<Rightarrow> cond_Status c | None \<Rightarrow> ''Unknown'')"

definition cnameRecordConditionChanged :: "cname_record \<Rightarrow> cname_record \<Rightarrow> string \<Rightarrow> bool" where
  "cnameRecordConditionChanged old new conditionType \<longleftrightarrow>
     cnameConditionStatus old conditionType \<noteq> cnameConditionStatus new conditionType"

definition cnameRecordWatchPredicate :: "cname_record watch_event \<Rightarrow> bool" where
  "cnameRecordWatchPredicate e \<longleftrightarrow>
     updateFunc (\<lambda>old new. cnameRecordConditionChanged old new ''Ready''
       \<or> cnameRecordConditionChanged old new ''Synced'') e"

definition findCappFromEvent :: "('sp, 'st) resource \<Rightarrow> key list" where
  "findCappFromEvent object = [NamespacedName (Namespace (Meta object)) (Name (Meta object))]"

definition findCappsForCappConfig :: "client \<Rightarrow> key list act" where
  "findCappsForCappConfig cl =
     handle (c_allCapps cl) (\<lambda>err. ok [])
       (\<lambda>items. ok (map (\<lambda>capp. NamespacedName (Namespace (Meta capp)) (Name (Meta capp))) items))"

definition findCappFromLabels :: "('sp, 'st) resource \<Rightarrow> key list" where
  "findCappFromLabels object =
     (case fmlookup (Labels (Meta object)) CappResourceKey of
        None \<Rightarrow> []
      | Some cappName \<Rightarrow>
          if cappName = [] then [] else [NamespacedName (Namespace (Meta object)) cappName])"

section \<open>controller.go: SetupWithManager\<close>

text \<open>
  The events of the kinds that are watched. The controller's own kind is enqueued under its
  own key; for the others \<open>EnqueueRequestsFromMapFunc\<close> maps the object of the event, and for
  an update both the old and the new one.
\<close>

datatype cluster_event =
  CappEvent "capp watch_event"
| ServiceEvent "knative_service watch_event"
| DomainMappingEvent "domain_mapping watch_event"
| CertificateEvent "certificate watch_event"
| CNAMERecordEvent "cname_record watch_event"
| SyslogNGOutputEvent "syslogng_output watch_event"
| SyslogNGFlowEvent "syslogng_flow watch_event"
| PingSourceEvent "ping_source watch_event"
| KafkaSourceEvent "kafka_source watch_event"
| CappConfigEvent "capp_config watch_event"
| OtherKindEvent

definition cappWatchPredicate :: "watch_lib \<Rightarrow> capp watch_event \<Rightarrow> bool" where
  "cappWatchPredicate wl e \<longleftrightarrow> generationChanged wl e \<or> annotationChanged wl e \<or> labelChanged wl e"

definition watch ::
  "watch_lib \<Rightarrow> ('o watch_event \<Rightarrow> bool) \<Rightarrow> ('o \<Rightarrow> key list) \<Rightarrow> 'o watch_event \<Rightarrow> key list" where
  "watch wl predicate mapFunc e =
     (if predicate e then wl_Enqueue wl (concat (map mapFunc (event_objects e))) else [])"

fun SetupWithManager :: "watch_lib \<Rightarrow> client \<Rightarrow> cluster_event \<Rightarrow> key list act" where
  "SetupWithManager wl cl (CappEvent e) =
     ok (if cappWatchPredicate wl e then [key_of (last (event_objects e))] else [])"
| "SetupWithManager wl cl (ServiceEvent e) =
     ok (watch wl (knativeServiceWatchPredicate wl) findCappFromEvent e)"
| "SetupWithManager wl cl (DomainMappingEvent e) =
     ok (watch wl (domainMappingWatchPredicate wl) findCappFromLabels e)"
| "SetupWithManager wl cl (CertificateEvent e) =
     ok (watch wl (certificateWatchPredicate wl) findCappFromLabels e)"
| "SetupWithManager wl cl (CNAMERecordEvent e) =
     ok (watch wl cnameRecordWatchPredicate findCappFromLabels e)"
| "SetupWithManager wl cl (SyslogNGOutputEvent e) = ok (watch wl (generationChanged wl) findCappFromEvent e)"
| "SetupWithManager wl cl (SyslogNGFlowEvent e) = ok (watch wl (generationChanged wl) findCappFromEvent e)"
| "SetupWithManager wl cl (PingSourceEvent e) =
     ok (watch wl (pingSourceWatchPredicate wl) findCappFromLabels e)"
| "SetupWithManager wl cl (KafkaSourceEvent e) =
     ok (watch wl (kafkaSourceWatchPredicate wl) findCappFromLabels e)"
| "SetupWithManager wl cl (CappConfigEvent e) =
     (if generationChanged wl e then findCappsForCappConfig cl else ok [])"
| "SetupWithManager wl cl OtherKindEvent = ok []"

end
