(* ===== verification/StatusSync.thy ===== *)
theory StatusSync
  imports CappStatus
begin

text \<open>
  Synchronising the status twice: reading the sub-statuses changes nothing, gives the same
  result on the same tables whatever order the lists come in, up to transition times, so the
  second \<open>SyncStatus\<close> finds nothing to write.
\<close>

section \<open>Readings that agree\<close>

text \<open>The tables that \<open>SyncStatus\<close> reads besides the Capps.\<close>

definition same_objects :: "world \<Rightarrow> world \<Rightarrow> bool" where
  "same_objects w w' \<longleftrightarrow>
     ksvcs w' = ksvcs w \<and> knrevisions w' = knrevisions w \<and> flows w' = flows w
     \<and> outputs w' = outputs w \<and> domainmappings w' = domainmappings w
     \<and> cnamerecords w' = cnamerecords w \<and> certificates w' = certificates w
     \<and> nfspvcs w' = nfspvcs w \<and> pingsources w' = pingsources w \<and> kafkasources w' = kafkasources w"

text \<open>\<open>agree R m w w'\<close>: run in the two worlds, \<open>m\<close> only reads and its results are related.\<close>

definition agree :: "('a \<Rightarrow> 'b \<Rightarrow> bool) \<Rightarrow> 'a act \<Rightarrow> 'b act \<Rightarrow> world \<Rightarrow> world \<Rightarrow> bool" where
  "agree R m m' w w' \<longleftrightarrow> (\<exists>x x'. m w = (Ok x, w) \<and> m' w' = (Ok x', w') \<and> R x x')"

lemma agreeI: "m w = (Ok x, w) \<Longrightarrow> m' w' = (Ok x', w') \<Longrightarrow> R x x' \<Longrightarrow> agree R m m' w w'"
  by (auto simp: agree_def)

lemma agree_ok: "R x x' \<Longrightarrow> agree R (ok x) (ok x') w w'"
  by (rule agreeI) simp_all

lemma agree_lift: "r = Ok x \<Longrightarrow> r' = Ok x' \<Longrightarrow> R x x' \<Longrightarrow> agree R (lift r) (lift r') w w'"
  by (rule agreeI) simp_all

lemma agree_andThen:
  assumes "agree R m m' w w'" and "\<And>x x'. R x x' \<Longrightarrow> agree S (f x) (f' x') w w'"
  shows "agree S (andThen m f) (andThen m' f') w w'"
  using assms by (auto simp: agree_def andThen_Ok)

lemma agree_wrapErr: "agree R m m' w w' \<Longrightarrow> agree R (wrapErr s m) (wrapErr s m') w w'"
  by (auto simp: agree_def)

lemma agree_now: "agree (\<lambda>_ _. True) now now w w'"
  by (simp add: agree_def now_def)

definition found_in ::
  "('sp, 'st) table \<Rightarrow> string \<Rightarrow> strmap \<Rightarrow> ('sp, 'st) resource set" where
  "found_in t ns sel =
     {r. tlookup t (key_of r) = Some r \<and> Namespace (Meta r) = ns \<and> selected sel (Meta r)}"

text \<open>Two lists of the same objects, each object once.\<close>

definition same_list ::
  "('sp, 'st) resource set \<Rightarrow> ('sp, 'st) resource list \<Rightarrow> ('sp, 'st) resource list \<Rightarrow> bool" where
  "same_list M rs rs' \<longleftrightarrow> set rs = M \<and> set rs' = M \<and> distinct rs \<and> distinct rs'"

context kind_api begin

lemma get_agrees:
  assumes tabs: "tab w' = tab w" and z: "R z z'"
    and f: "\<And>r. tlookup (tab w) (NamespacedName ns n) = Some r \<Longrightarrow> agree R (f r) (f' r) w w'"
  shows "agree R
     (handle (kget kc ns n) (\<lambda>err. if IsNotFound err then ok z else throw err) f)
     (handle (kget kc ns n) (\<lambda>err. if IsNotFound err then ok z' else throw err) f') w w'"
proof (cases "tlookup (tab w) (NamespacedName ns n)")
  case None
  then obtain e e' where "IsNotFound e" "kget kc ns n w = (Err e, w)"
      "IsNotFound e'" "kget kc ns n w' = (Err e', w')"
    using get_missing [of w ns n] get_missing [of w' ns n] tabs by auto
  with z show ?thesis by (intro agreeI) (simp_all add: handle_Err)
next
  case (Some r)
  then have "kget kc ns n w = (Ok r, w)" "kget kc ns n w' = (Ok r, w')"
    using get_found tabs by simp_all
  with f [OF Some] show ?thesis by (simp add: agree_def handle_Ok)
qed

lemma list_agrees:
  assumes "tab w' = tab w"
  shows "agree (same_list (found_in (tab w) ns sel)) (klist kc ns sel None) (klist kc ns sel None) w w'"
proof -
  obtain rs rs' where "klist kc ns sel None w = (Ok rs, w)" "distinct (map key_of rs)"
      "set rs = found_in (tab w) ns sel"
      "klist kc ns sel None w' = (Ok rs', w')" "distinct (map key_of rs')"
      "set rs' = found_in (tab w) ns sel"
    using list_all_selected [of ns sel w] list_all_selected [of ns sel w'] assms
    unfolding found_in_def by auto
  then show ?thesis
    by (intro agreeI [where x = rs and x' = rs']) (auto simp: same_list_def distinct_map)
qed

lemma list_limited_agrees:
  assumes "tab w' = tab w" and "card (found_in (tab w) ns sel) \<le> lim"
  shows "agree (same_list (found_in (tab w) ns sel))
     (klist kc ns sel (Some lim)) (klist kc ns sel (Some lim)) w w'"
proof -
  obtain rs rs' where "klist kc ns sel (Some lim) w = (Ok rs, w)" "distinct (map key_of rs)"
      "set rs = found_in (tab w) ns sel"
      "klist kc ns sel (Some lim) w' = (Ok rs', w')" "distinct (map key_of rs')"
      "set rs' = found_in (tab w) ns sel"
    using list_limited [of ns sel lim w] list_limited [of ns sel lim w'] assms
    unfolding found_in_def by auto
  then show ?thesis
    by (intro agreeI [where x = rs and x' = rs']) (auto simp: same_list_def distinct_map)
qed

end

section \<open>The sub-statuses\<close>

definition eventing_keys :: "capp \<Rightarrow> strmap" where
  "eventing_keys capp = fmap_of_list [(CappResourceKey, Name (Meta capp))]"

text \<open>
  The API works for every kind read, and what \<open>SyncStatus\<close> needs to read it all: the Capp's name
  is a label value, there is room in one page for its revisions, and no PingSource has the
  name of a KafkaSource.
\<close>

definition status_reads :: "lib \<Rightarrow> client \<Rightarrow> capp \<Rightarrow> world \<Rightarrow> bool" where
  "status_reads l cl c w \<longleftrightarrow>
     kind_api (c_ksvcs cl) ksvcs ksvcs_update \<and> kind_api (c_knrevisions cl) knrevisions knrevisions_update
     \<and> kind_api (c_flows cl) flows flows_update \<and> kind_api (c_outputs cl) outputs outputs_update
     \<and> kind_api (c_domainmappings cl) domainmappings domainmappings_update
     \<and> kind_api (c_cnamerecords cl) cnamerecords cnamerecords_update
     \<and> kind_api (c_certificates cl) certificates certificates_update
     \<and> kind_api (c_nfspvcs cl) nfspvcs nfspvcs_update
     \<and> kind_api (c_pingsources cl) pingsources pingsources_update
     \<and> kind_api (c_kafkasources cl) kafkasources kafkasources_update
     \<and> l_NewRequirement l KnativeLabelKey (Name (Meta c)) = None
     \<and> card (found_in (knrevisions w) (Namespace (Meta c))
               (fmap_of_list [(KnativeLabelKey, Name (Meta c))])) \<le> ClientListLimit
     \<and> (\<forall>p \<in> found_in (pingsources w) (Namespace (Meta c)) (eventing_keys c).
          \<forall>k \<in> found_in (kafkasources w) (Namespace (Meta c)) (eventing_keys c).
            Name (Meta p) \<noteq> Name (Meta k))"

lemma found_in_names:
  assumes "r \<in> found_in t ns sel" "r' \<in> found_in t ns sel" "Name (Meta r) = Name (Meta r')"
  shows "r = r'"
proof -
  from assms have "key_of r = key_of r'" by (simp add: found_in_def key_of_def)
  with assms(1,2) have "Some r = Some r'" unfolding found_in_def mem_Collect_eq by metis
  then show ?thesis by simp
qed

lemma buildRevisionsStatus_agrees:
  assumes reads: "status_reads l cl c w" and "sort_lib l" and same: "same_objects w w'"
  shows "agree (=) (buildRevisionsStatus l cl c) (buildRevisionsStatus l cl c) w w'"
proof -
  let ?M = "found_in (knrevisions w) (Namespace (Meta c)) (fmap_of_list [(KnativeLabelKey, Name (Meta c))])"
  have srt: "slice_sorted olderKnativeRevision (l_SortKnativeRevisions l)"
    using assms(2) by (simp add: sort_lib_def)
  have "l_SortKnativeRevisions l xs = l_SortKnativeRevisions l ys" if "same_list ?M xs ys" for xs ys
  proof (rule slice_sorted_unique [OF srt])
    show "olderKnativeRevision a b \<or> olderKnativeRevision b a"
      if "a \<in> set xs" "b \<in> set xs" "a \<noteq> b" for a b
    proof -
      have "Name (Meta a) \<noteq> Name (Meta b)"
        using found_in_names that \<open>same_list ?M xs ys\<close> by (metis same_list_def)
      then show ?thesis by (auto simp: olderKnativeRevision_def)
    qed
  qed (use that in \<open>simp_all add: same_list_def\<close>)
  then have "agree (=) (ok (map revisionInfoOf (l_SortKnativeRevisions l xs)))
      (ok (map revisionInfoOf (l_SortKnativeRevisions l ys))) w w'" if "same_list ?M xs ys" for xs ys
    using that by (intro agree_ok) simp
  moreover have "agree (same_list ?M)
      (klist (c_knrevisions cl) (Namespace (Meta c)) (fmap_of_list [(KnativeLabelKey, Name (Meta c))])
         (Some ClientListLimit))
      (klist (c_knrevisions cl) (Namespace (Meta c)) (fmap_of_list [(KnativeLabelKey, Name (Meta c))])
         (Some ClientListLimit)) w w'"
    using reads same unfolding status_reads_def same_objects_def
    by (intro kind_api.list_limited_agrees [of _ knrevisions knrevisions_update]) blast+
  ultimately have "agree (=)
      (andThen (klist (c_knrevisions cl) (Namespace (Meta c))
         (fmap_of_list [(KnativeLabelKey, Name (Meta c))]) (Some ClientListLimit))
         (\<lambda>items. ok (map revisionInfoOf (l_SortKnativeRevisions l items))))
      (andThen (klist (c_knrevisions cl) (Namespace (Meta c))
         (fmap_of_list [(KnativeLabelKey, Name (Meta c))]) (Some ClientListLimit))
         (\<lambda>items. ok (map revisionInfoOf (l_SortKnativeRevisions l items)))) w w'"
    by (rule agree_andThen [rotated])
  then show ?thesis using reads by (simp add: buildRevisionsStatus_def status_reads_def)
qed

lemma buildKnativeStatus_agrees:
  assumes "status_reads l cl c w" "sort_lib l" "same_objects w w'"
  shows "agree (=) (buildKnativeStatus l cl c b) (buildKnativeStatus l cl c b) w w'"
proof (cases b)
  case True
  have "agree (=)
     (handle (kget (c_ksvcs cl) (Namespace (Meta c)) (Name (Meta c)))
             (\<lambda>err. if IsNotFound err then ok (zeroServiceStatus, []) else throw err)
             (\<lambda>kservice. andThen (buildRevisionsStatus l cl c) (\<lambda>revisionsStatus.
                ok (Status kservice, revisionsStatus))))
     (handle (kget (c_ksvcs cl) (Namespace (Meta c)) (Name (Meta c)))
             (\<lambda>err. if IsNotFound err then ok (zeroServiceStatus, []) else throw err)
             (\<lambda>kservice. andThen (buildRevisionsStatus l cl c) (\<lambda>revisionsStatus.
                ok (Status kservice, revisionsStatus)))) w w'"
    using assms(1,3)
    by (intro kind_api.get_agrees [of _ ksvcs ksvcs_update]
        agree_andThen [OF buildRevisionsStatus_agrees [OF assms]] agree_ok)
      (auto simp: status_reads_def same_objects_def)
  with True show ?thesis by (simp add: buildKnativeStatus_def)
next
  case False
  then show ?thesis by (simp add: buildKnativeStatus_def agree_def)
qed

lemma statusOrZero_agrees:
  assumes "kind_api kc tab upd" "tab w' = tab w"
  shows "agree (=) (statusOrZero kc ns n b) (statusOrZero kc ns n b) w w'"
proof (cases b)
  case True
  have "agree (=)
      (handle (kget kc ns n) (\<lambda>err. if IsNotFound err then ok zeroConditioned else throw err)
         (\<lambda>r. ok (Status r)))
      (handle (kget kc ns n) (\<lambda>err. if IsNotFound err then ok zeroConditioned else throw err)
         (\<lambda>r. ok (Status r))) w w'"
    by (rule kind_api.get_agrees [OF assms]) (simp_all add: agree_ok)
  with True show ?thesis by (simp add: statusOrZero_def)
next
  case False
  then show ?thesis by (simp add: statusOrZero_def agree_def)
qed

lemma buildRouteStatus_agrees:
  assumes "status_reads l cl c w" "same_objects w w'"
  shows "agree (=) (buildRouteStatus cl c b1 b2 b3 g) (buildRouteStatus cl c b1 b2 b3 g) w w'"
proof -
  have "agree (=) (buildDomainMappingStatus cl c b1 g) (buildDomainMappingStatus cl c b1 g) w w'"
    "agree (=) (buildDNSRecordStatus cl c b2 g) (buildDNSRecordStatus cl c b2 g) w w'"
    "agree (=) (buildCertificateStatus cl c b3 g) (buildCertificateStatus cl c b3 g) w w'"
    unfolding buildDomainMappingStatus_def buildDNSRecordStatus_get buildCertificateStatus_def
    using assms
      statusOrZero_agrees [of "c_domainmappings cl" domainmappings domainmappings_update w' w]
      statusOrZero_agrees [of "c_cnamerecords cl" cnamerecords cnamerecords_update w' w]
      statusOrZero_agrees [of "c_certificates cl" certificates certificates_update w' w]
    by (simp_all add: status_reads_def same_objects_def)
  then show ?thesis unfolding buildRouteStatus_def
    by (intro agree_andThen [of "(=)"] agree_ok) auto
qed

lemma buildVolumesStatus_agrees:
  assumes "status_reads l cl c w" "same_objects w w'"
  shows "agree (=) (buildVolumesStatus cl c b) (buildVolumesStatus cl c b) w w'"
proof -
  have api: "kind_api (c_nfspvcs cl) nfspvcs nfspvcs_update" and tab: "nfspvcs w' = nfspvcs w"
    using assms by (simp_all add: status_reads_def same_objects_def)
  have "agree (=) (buildVolumesStatusOf cl c vs) (buildVolumesStatusOf cl c vs) w w'" for vs
  proof (induction vs)
    case Nil
    show ?case by (simp add: agree_def)
  next
    case (Cons v vs)
    show ?case unfolding buildVolumesStatusOf.simps
      by (intro agree_andThen [of "(=)"] kind_api.get_agrees [OF api] agree_ok Cons.IH)
        (simp_all add: tab)
  qed
  then show ?thesis by (simp add: buildVolumesStatus_def agree_def)
qed

definition stripLogging :: "logging_status \<Rightarrow> logging_status" where
  "stripLogging s = s\<lparr>ls_Conditions := map clearTransitionTime (ls_Conditions s)\<rparr>"

definition stripEvent :: "event_source_status \<Rightarrow> event_source_status" where
  "stripEvent e = e\<lparr>es_Condition := clearTransitionTime (es_Condition e)\<rparr>"

lemma set_condition_again:
  assumes "condition_lib l" and "cs' = cs \<or> cs' = l_SetStatusCondition l t cs c"
  shows "map clearTransitionTime (l_SetStatusCondition l t' cs' c)
    = map clearTransitionTime (l_SetStatusCondition l t cs c)"
  using assms unfolding condition_lib_def clearTransitionTime_def by metis

lemma find_map_invariant:
  "(\<And>x. P (f x) = P x) \<Longrightarrow> find P (map f xs) = map_option f (find P xs)"
  by (induction xs) simp_all

lemma clearTransitionTime_simps [simp]:
  "cond_Status (clearTransitionTime c) = cond_Status c"
  "cond_Message (clearTransitionTime c) = cond_Message c"
  "clearTransitionTime (clearTransitionTime c) = clearTransitionTime c"
  by (simp_all add: clearTransitionTime_def)

lemma loggingNotReady_strip: "loggingNotReady (stripLogging s) = loggingNotReady s"
  by (simp add: loggingNotReady_def stripLogging_def find_map_invariant split: option.split)

lemma eventingNotReady_strip: "eventingNotReady (map stripEvent es) = eventingNotReady es"
  by (simp add: eventingNotReady_def stripEvent_def find_map_invariant split: option.split)

definition logging_condition :: "logging_object_status \<Rightarrow> logging_object_status \<Rightarrow> condition" where
  "logging_condition f out =
     (let isLoggingHealthy = lo_ProblemsCount f = 0 \<and> lo_ProblemsCount out = 0
      in newCondition loggingReady (if isLoggingHealthy then ''True'' else ''False'')
           (if isLoggingHealthy then conditionReady else loggingResourceInvalid) [])"

text \<open>What \<open>buildLoggingStatus\<close> answers, in terms of the tables.\<close>

lemma buildLoggingStatus_run:
  assumes "status_reads l cl c w0" "same_objects w0 w"
  shows "buildLoggingStatus l cl c ex b w =
     (Ok (case (tlookup (flows w0) (key_of c), tlookup (outputs w0) (key_of c)) of
            (Some f, Some out) \<Rightarrow>
              if b then \<lparr>ls_SyslogNGFlow = Status f, ls_SyslogNGOutput = Status out,
                         ls_Conditions = l_SetStatusCondition l (clock w) (ls_Conditions ex)
                           (logging_condition (Status f) (Status out))\<rparr>
              else zeroLoggingStatus
          | _ \<Rightarrow> zeroLoggingStatus), w)"
proof (cases b)
  case True
  have fapi: "kind_api (c_flows cl) flows flows_update"
    and oapi: "kind_api (c_outputs cl) outputs outputs_update"
    and tabs: "flows w = flows w0" "outputs w = outputs w0"
    using assms by (simp_all add: status_reads_def same_objects_def)
  show ?thesis
  proof (cases rule: kind_api.get_cases [OF fapi, of w "Namespace (Meta c)" "Name (Meta c)"])
    case (1 f)
    note f = 1
    show ?thesis
    proof (cases rule: kind_api.get_cases [OF oapi, of w "Namespace (Meta c)" "Name (Meta c)"])
      case (1 out)
      with f True tabs show ?thesis
        by (cases ex)
          (simp add: buildLoggingStatus_def handle_Ok andThen_Ok now_def Let_def
            logging_condition_def key_of_def)
    next
      case (2 e)
      with f True tabs show ?thesis
        by (simp add: buildLoggingStatus_def handle_Ok handle_Err key_of_def)
    qed
  next
    case (2 e)
    with True tabs show ?thesis
      by (simp add: buildLoggingStatus_def handle_Err key_of_def)
  qed
next
  case False
  then show ?thesis by (simp add: buildLoggingStatus_def split: option.split)
qed

lemma buildLoggingStatus_again:
  assumes reads: "status_reads l cl c w" and same: "same_objects w w'" and lib: "condition_lib l"
    and first: "buildLoggingStatus l cl c ex b w = (Ok lg, w)" and ex': "ex' = ex \<or> ex' = lg"
  shows "\<exists>lg'. buildLoggingStatus l cl c ex' b w' = (Ok lg', w') \<and> stripLogging lg' = stripLogging lg"
proof -
  have ww: "same_objects w w" by (simp add: same_objects_def)
  note run = buildLoggingStatus_run [OF reads ww, of ex b] buildLoggingStatus_run [OF reads same, of ex' b]
  show ?thesis
  proof (cases "b \<and> tlookup (flows w) (key_of c) \<noteq> None \<and> tlookup (outputs w) (key_of c) \<noteq> None")
    case True
    then obtain f out where fo: "tlookup (flows w) (key_of c) = Some f"
        "tlookup (outputs w) (key_of c) = Some out" by blast
    let ?cond = "logging_condition (Status f) (Status out)"
    have lg: "lg = \<lparr>ls_SyslogNGFlow = Status f, ls_SyslogNGOutput = Status out,
        ls_Conditions = l_SetStatusCondition l (clock w) (ls_Conditions ex) ?cond\<rparr>"
      using first True fo run(1) by simp
    have "ls_Conditions ex' = ls_Conditions ex
        \<or> ls_Conditions ex' = l_SetStatusCondition l (clock w) (ls_Conditions ex) ?cond"
      using ex' lg by auto
    from set_condition_again [OF lib this, of "clock w'"] show ?thesis
      using run(2) True fo lg by (simp add: stripLogging_def)
  next
    case False
    then have "lg = zeroLoggingStatus" using first run(1) by (auto split: option.splits if_splits)
    with False run(2) show ?thesis by (auto split: option.splits)
  qed
qed

lemma stripEvent_sourceStatusOf:
  "stripEvent (sourceStatusOf t s) = stripEvent (sourceStatusOf t' s)"
  by (simp add: stripEvent_def sourceStatusOf_def newEventSourceStatus_def Let_def
      clearTransitionTime_def split: option.split)

lemma es_Name_simps [simp]:
  "es_Name (stripEvent e) = es_Name e" "es_Name (sourceStatusOf t s) = Name (Meta s)"
  by (simp_all add: stripEvent_def sourceStatusOf_def newEventSourceStatus_def Let_def)

text \<open>Statuses of the same sources, sorted by name, agree up to transition times.\<close>

lemma sorted_statuses_agree:
  assumes srt: "slice_sorted (\<lambda>a b. es_Name a < es_Name b) srt"
    and m: "mset (map stripEvent xs) = mset (map stripEvent ys)"
    and d: "\<And>a b. a \<in> set xs \<Longrightarrow> b \<in> set xs \<Longrightarrow> es_Name a = es_Name b \<Longrightarrow> a = b"
  shows "map stripEvent (srt xs) = map stripEvent (srt ys)"
proof (rule sorted_wrt_unique [of "\<lambda>x y. \<not> es_Name y < es_Name x"])
  have ms: "mset (srt zs) = mset zs" for zs using srt by (simp add: slice_sorted_def)
  then show "mset (map stripEvent (srt xs)) = mset (map stripEvent (srt ys))"
    using m by simp
  show "sorted_wrt (\<lambda>x y. \<not> es_Name y < es_Name x) (map stripEvent (srt zs))" for zs
    using srt by (simp add: slice_sorted_def sorted_wrt_map)
  then show "sorted_wrt (\<lambda>x y. \<not> es_Name y < es_Name x) (map stripEvent (srt ys))" .
  show "a = b" if "a \<in> set (map stripEvent (srt xs))" "b \<in> set (map stripEvent (srt xs))"
      "\<not> es_Name b < es_Name a" "\<not> es_Name a < es_Name b" for a b
  proof -
    from that slice_sorted_set [OF srt, of xs] obtain x y where
      "a = stripEvent x" "b = stripEvent y" "x \<in> set xs" "y \<in> set xs" by auto
    with that(3,4) d [of x y] show ?thesis by force
  qed
qed

lemma statuses_distinct:
  assumes reads: "status_reads l cl c w"
    and ps: "set ps = found_in (pingsources w) (Namespace (Meta c)) (eventing_keys c)"
    and ks: "set ks = found_in (kafkasources w) (Namespace (Meta c)) (eventing_keys c)"
    and a: "a \<in> set (map (sourceStatusOf t) ps @ map (sourceStatusOf t) ks)"
    and b: "b \<in> set (map (sourceStatusOf t) ps @ map (sourceStatusOf t) ks)"
    and n: "es_Name a = es_Name b"
  shows "a = b"
proof -
  have clash: "Name (Meta p) \<noteq> Name (Meta k)" if "p \<in> set ps" "k \<in> set ks" for p k
    using reads that ps ks by (simp add: status_reads_def)
  consider p p' where "p \<in> set ps" "p' \<in> set ps" "a = sourceStatusOf t p" "b = sourceStatusOf t p'"
    | k k' where "k \<in> set ks" "k' \<in> set ks" "a = sourceStatusOf t k" "b = sourceStatusOf t k'"
    | p k where "p \<in> set ps" "k \<in> set ks" "Name (Meta p) = Name (Meta k)"
    using a b n by auto
  then show ?thesis
  proof cases
    case (1 p p')
    have "p = p'" by (rule found_in_names) (use 1 n ps in simp_all)
    with 1 show ?thesis by simp
  next
    case (2 k k')
    have "k = k'" by (rule found_in_names) (use 2 n ks in simp_all)
    with 2 show ?thesis by simp
  next
    case (3 p k)
    with clash show ?thesis by blast
  qed
qed

lemma same_list_mset: "same_list M xs ys \<Longrightarrow> mset xs = mset ys"
  by (auto simp: same_list_def set_eq_iff_mset_eq_distinct)

lemma buildEventingStatus_agrees:
  assumes reads: "status_reads l cl c w" and srt: "sort_lib l" and same: "same_objects w w'"
  shows "agree (\<lambda>e e'. map stripEvent e' = map stripEvent e)
     (buildEventingStatus l cl c) (buildEventingStatus l cl c) w w'"
proof -
  have papi: "kind_api (c_pingsources cl) pingsources pingsources_update" "pingsources w' = pingsources w"
    and kapi: "kind_api (c_kafkasources cl) kafkasources kafkasources_update"
      "kafkasources w' = kafkasources w"
    using reads same by (simp_all add: status_reads_def same_objects_def)
  have esrt: "slice_sorted (\<lambda>a b. es_Name a < es_Name b) (l_SortEventSources l)"
    using srt by (simp add: sort_lib_def)
  let ?st = "\<lambda>t ps ks. map (sourceStatusOf t) ps @ map (sourceStatusOf t) ks"
  have strips: "mset (map stripEvent (?st t ps ks)) = mset (map stripEvent (?st t' ps' ks'))"
    if "mset ps = mset ps'" "mset ks = mset ks'" for t t' ps ps' ks ks'
  proof -
    have e: "(\<lambda>x. stripEvent (sourceStatusOf t x)) = (\<lambda>x. stripEvent (sourceStatusOf t' x))"
      by (rule ext) (rule stripEvent_sourceStatusOf)
    have e': "(\<lambda>x. stripEvent (sourceStatusOf t x)) = (\<lambda>x. stripEvent (sourceStatusOf t' x))"
      by (rule ext) (rule stripEvent_sourceStatusOf)
    show ?thesis using that by (simp add: image_mset.compositionality comp_def e e')
  qed
  show ?thesis
    unfolding buildEventingStatus_def listOwnedEventSources_def eventing_keys_def [symmetric]
  proof (intro agree_andThen [OF agree_wrapErr [OF kind_api.list_agrees [OF papi]]]
      agree_andThen [OF agree_wrapErr [OF kind_api.list_agrees [OF kapi]]] agree_andThen [OF agree_now])
    fix ps ps' ks ks' t t'
    assume p: "same_list (found_in (pingsources w) (Namespace (Meta c)) (eventing_keys c)) ps ps'"
      and k: "same_list (found_in (kafkasources w) (Namespace (Meta c)) (eventing_keys c)) ks ks'"
    have m: "mset (map stripEvent (?st t ps ks)) = mset (map stripEvent (?st t' ps' ks'))"
      by (rule strips) (use p k same_list_mset in blast)+
    have sets: "set ps = found_in (pingsources w) (Namespace (Meta c)) (eventing_keys c)"
      "set ks = found_in (kafkasources w) (Namespace (Meta c)) (eventing_keys c)"
      using p k by (simp_all add: same_list_def)
    have "map stripEvent (l_SortEventSources l (?st t ps ks))
        = map stripEvent (l_SortEventSources l (?st t' ps' ks'))"
      by (rule sorted_statuses_agree [OF esrt m]) (rule statuses_distinct [OF reads sets])
    moreover have "?st t ps ks = [] \<longleftrightarrow> ?st t' ps' ks' = []"
      using m by (metis list.map_disc_iff mset_zero_iff)
    ultimately show "agree (\<lambda>e e'. map stripEvent e' = map stripEvent e)
        (let statuses = ?st t ps ks in if statuses = [] then ok [] else ok (l_SortEventSources l statuses))
        (let statuses = ?st t' ps' ks' in if statuses = [] then ok [] else ok (l_SortEventSources l statuses))
        w w'"
      unfolding Let_def by (cases "?st t ps ks = []") (simp_all add: agree_def del: append_is_Nil_conv)
  qed
qed

section \<open>The whole status\<close>

definition status_names :: "string list" where
  "status_names = [''KnativeService'', ''SyslogNGFlow'', ''DomainMapping'', ''DNSRecord'',
     ''Certificate'', ''NfsPvc'', ''PingSource'', ''KafkaSource'']"

definition has_managers :: "(string \<rightharpoonup> resource_manager) \<Rightarrow> bool" where
  "has_managers M \<longleftrightarrow> (\<forall>n \<in> set status_names. M n \<noteq> None)"

lemma has_managers_required:
  "has_managers M \<Longrightarrow> n \<in> set status_names \<Longrightarrow> \<exists>b. requiredBy M n c = Ok b"
  by (auto simp: has_managers_def requiredBy_def split: option.split)

lemma readyCheck_Ok: "\<exists>b. r = Ok b \<Longrightarrow> \<exists>x. k = Ok x \<Longrightarrow> \<exists>x. readyCheck r nr k = Ok x"
  by (auto simp: readyCheck_def split: option.split)

lemma computeReadyCondition_Ok:
  assumes "has_managers M"
  shows "\<exists>cond. computeReadyCondition s c M errs = Ok cond"
proof -
  have r: "\<exists>b. requiredBy M n c = Ok b" if "n \<in> set status_names" for n
    using has_managers_required [OF assms that] .
  have e: "\<exists>b. rbind (requiredBy M ''PingSource'' c) (\<lambda>b. if b then Ok True else requiredBy M ''KafkaSource'' c) = Ok b"
    using r [of "''PingSource''"] r [of "''KafkaSource''"] by (auto simp: status_names_def)
  have k: "\<exists>x. (case knativeNotReady (cst_KnativeObjectStatus s) of
      Some (reason, msg) \<Rightarrow> Ok (readyFalse reason msg)
    | None \<Rightarrow> Ok (newCondition CappConditionReady ''True'' CappReadyReasonReady ''Capp is ready'')) = Ok x"
    by (simp split: option.split)
  show ?thesis unfolding computeReadyCondition_def
    by (auto intro!: readyCheck_Ok r e k simp: status_names_def)
qed

lemma certificateNotReady_strip:
  assumes "clearConditions (rs_Certificate r') = clearConditions (rs_Certificate r)"
  shows "certificateNotReady r' = certificateNotReady r"
proof -
  have "certificateNotReady (r\<lparr>rs_Certificate := clearConditions (rs_Certificate r)\<rparr>)
      = certificateNotReady r" for r
    by (simp add: certificateNotReady_def clearConditions_def find_map_invariant
        clearTransitionTime_def split: option.split)
  moreover have "certificateNotReady (r'\<lparr>rs_Certificate := x\<rparr>)
      = certificateNotReady (r\<lparr>rs_Certificate := x\<rparr>)" for x
    by (simp add: certificateNotReady_def)
  ultimately show ?thesis using assms by metis
qed

lemma computeReadyCondition_strip:
  assumes "stripLogging (cst_LoggingStatus s') = stripLogging (cst_LoggingStatus s)"
    and "map stripEvent (cst_EventingStatus s') = map stripEvent (cst_EventingStatus s)"
    and "rs_DomainMapping (cst_RouteStatus s') = rs_DomainMapping (cst_RouteStatus s)"
    and "clearConditions (rs_Certificate (cst_RouteStatus s'))
      = clearConditions (rs_Certificate (cst_RouteStatus s))"
    and "cst_VolumesStatus s' = cst_VolumesStatus s"
    and "cst_KnativeObjectStatus s' = cst_KnativeObjectStatus s"
  shows "computeReadyCondition s' c M errs = computeReadyCondition s c M errs"
proof -
  have "loggingNotReady (cst_LoggingStatus s') = loggingNotReady (cst_LoggingStatus s)"
    using assms(1) loggingNotReady_strip by metis
  moreover have "eventingNotReady (cst_EventingStatus s') = eventingNotReady (cst_EventingStatus s)"
    using assms(2) eventingNotReady_strip by metis
  moreover have "domainMappingNotReady (cst_RouteStatus s') = domainMappingNotReady (cst_RouteStatus s)"
    using assms(3) by (simp add: domainMappingNotReady_def)
  ultimately show ?thesis using assms(5,6) certificateNotReady_strip [OF assms(4)]
    by (simp add: computeReadyCondition_def)
qed

text \<open>The status assembled from the sub-statuses.\<close>

definition assembled ::
  "time \<Rightarrow> capp \<Rightarrow> capp_status \<Rightarrow> service_status \<times> revision_info list \<Rightarrow> logging_status \<Rightarrow>
   route_status \<Rightarrow> nfs_volume_status list \<Rightarrow> event_source_status list \<Rightarrow> capp_status" where
  "assembled t c old kn lg rt vol ev =
     old\<lparr>cst_KnativeObjectStatus := fst kn, cst_RevisionInfo := snd kn, cst_LoggingStatus := lg,
         cst_RouteStatus := rt, cst_VolumesStatus := vol, cst_EventingStatus := ev,
         cst_StateStatus := CreateStateStatus t (cst_StateStatus old) (cs_State (Spec c))\<rparr>"

definition required :: "(string \<rightharpoonup> resource_manager) \<Rightarrow> string \<Rightarrow> capp \<Rightarrow> bool" where
  "required M n c = (case M n of Some m \<Rightarrow> rm_IsRequired m c | None \<Rightarrow> False)"

lemma requiredBy_required:
  "has_managers M \<Longrightarrow> n \<in> set status_names \<Longrightarrow> requiredBy M n c = Ok (required M n c)"
  by (auto simp: has_managers_def requiredBy_def required_def split: option.split)

lemma observeStatus_run:
  assumes M: "has_managers M"
    and kn: "buildKnativeStatus l cl c (required M ''KnativeService'' c) w = (Ok kn, w)"
    and lg: "buildLoggingStatus l cl c (cst_LoggingStatus old) (required M ''SyslogNGFlow'' c) w
              = (Ok lg, w)"
    and rt: "buildRouteStatus cl c (required M ''DomainMapping'' c) (required M ''DNSRecord'' c)
               (required M ''Certificate'' c) g w = (Ok rt, w)"
    and vol: "buildVolumesStatus cl c (required M ''NfsPvc'' c) w = (Ok vol, w)"
    and ev: "buildEventingStatus l cl c w = (Ok ev, w)"
    and cond: "computeReadyCondition (assembled (clock w) c old kn lg rt vol ev) c M errs = Ok cond"
  shows "observeStatus l cl c old M g errs w =
     (Ok ((assembled (clock w) c old kn lg rt vol ev)
            \<lparr>cst_Conditions := l_SetStatusCondition l (clock w) (cst_Conditions old) cond\<rparr>), w)"
proof -
  have r: "requiredBy M n c = Ok (required M n c)" if "n \<in> set status_names" for n
    using requiredBy_required [OF M that] .
  have "cst_Conditions (assembled (clock w) c old kn lg rt vol ev) = cst_Conditions old"
    by (simp add: assembled_def)
  then show ?thesis
    using cond
    by (simp add: observeStatus_def r status_names_def kn lg rt vol ev andThen_Ok now_def
        buildCappConditions_def flip: assembled_def)
qed

lemma stripVolatile_iff:
  "stripVolatileStatusFields s' = stripVolatileStatusFields s \<longleftrightarrow>
     cst_KnativeObjectStatus s' = cst_KnativeObjectStatus s \<and> cst_RevisionInfo s' = cst_RevisionInfo s
     \<and> cst_StateStatus s' = cst_StateStatus s
     \<and> stripLogging (cst_LoggingStatus s') = stripLogging (cst_LoggingStatus s)
     \<and> rs_DomainMapping (cst_RouteStatus s') = rs_DomainMapping (cst_RouteStatus s)
     \<and> clearConditions (rs_DNSRecord (cst_RouteStatus s')) = clearConditions (rs_DNSRecord (cst_RouteStatus s))
     \<and> clearConditions (rs_Certificate (cst_RouteStatus s'))
         = clearConditions (rs_Certificate (cst_RouteStatus s))
     \<and> cst_VolumesStatus s' = cst_VolumesStatus s
     \<and> map stripEvent (cst_EventingStatus s') = map stripEvent (cst_EventingStatus s)
     \<and> map clearTransitionTime (cst_Conditions s') = map clearTransitionTime (cst_Conditions s)"
  by (cases s; cases s'; cases "cst_RouteStatus s"; cases "cst_RouteStatus s'")
    (auto simp: stripVolatileStatusFields_def stripLogging_def stripEvent_def [abs_def])

lemma CreateStateStatus_again:
  "st \<noteq> [] \<Longrightarrow> CreateStateStatus t' (CreateStateStatus t s st) st = CreateStateStatus t s st"
  by (simp add: CreateStateStatus_def)

definition sync_libs :: "lib \<Rightarrow> bool" where
  "sync_libs l \<longleftrightarrow> sort_lib l \<and> condition_lib l"

lemma observeStatus_twice:
  assumes reads: "status_reads l cl c w" and libs: "sync_libs l" and same: "same_objects w w'"
    and M: "has_managers M" and st: "cs_State (Spec c) \<noteq> []"
  shows "\<exists>S cond. observeStatus l cl c old M g errs w = (Ok S, w)
     \<and> computeReadyCondition S c M errs = Ok cond
     \<and> cst_Conditions S = l_SetStatusCondition l (clock w) (cst_Conditions old) cond
     \<and> (\<forall>old'. old' = S \<or> old' = old \<and> cst_StateStatus S = cst_StateStatus old \<longrightarrow>
          (\<exists>S'. observeStatus l cl c old' M g errs w' = (Ok S', w')
             \<and> stripVolatileStatusFields S' = stripVolatileStatusFields S))"
proof -
  have srt: "sort_lib l" and cl: "condition_lib l" using libs by (simp_all add: sync_libs_def)
  have ww: "same_objects w w" by (simp add: same_objects_def)
  obtain kn where kn: "buildKnativeStatus l cl c (required M ''KnativeService'' c) w = (Ok kn, w)"
      "buildKnativeStatus l cl c (required M ''KnativeService'' c) w' = (Ok kn, w')"
    using buildKnativeStatus_agrees [OF reads srt same] unfolding agree_def by blast
  obtain rt where rt: "buildRouteStatus cl c (required M ''DomainMapping'' c)
        (required M ''DNSRecord'' c) (required M ''Certificate'' c) g w = (Ok rt, w)"
      "buildRouteStatus cl c (required M ''DomainMapping'' c)
        (required M ''DNSRecord'' c) (required M ''Certificate'' c) g w' = (Ok rt, w')"
    using buildRouteStatus_agrees [OF reads same] unfolding agree_def by blast
  obtain vol where vol: "buildVolumesStatus cl c (required M ''NfsPvc'' c) w = (Ok vol, w)"
      "buildVolumesStatus cl c (required M ''NfsPvc'' c) w' = (Ok vol, w')"
    using buildVolumesStatus_agrees [OF reads same] unfolding agree_def by blast
  obtain ev ev' where ev: "buildEventingStatus l cl c w = (Ok ev, w)"
      "buildEventingStatus l cl c w' = (Ok ev', w')" "map stripEvent ev' = map stripEvent ev"
    using buildEventingStatus_agrees [OF reads srt same] by (auto simp: agree_def)
  obtain lg where lg: "buildLoggingStatus l cl c (cst_LoggingStatus old)
        (required M ''SyslogNGFlow'' c) w = (Ok lg, w)"
    using buildLoggingStatus_run [OF reads ww] by blast
  let ?A = "assembled (clock w) c old kn lg rt vol ev"
  obtain cond where cond: "computeReadyCondition ?A c M errs = Ok cond"
    using computeReadyCondition_Ok [OF M] by blast
  let ?S = "?A\<lparr>cst_Conditions := l_SetStatusCondition l (clock w) (cst_Conditions old) cond\<rparr>"
  have S: "observeStatus l cl c old M g errs w = (Ok ?S, w)"
    by (rule observeStatus_run [OF M kn(1) lg rt(1) vol(1) ev(1) cond])
  have "computeReadyCondition ?S c M errs = Ok cond"
    using computeReadyCondition_strip [of ?S ?A] cond by simp
  moreover have "\<exists>S'. observeStatus l cl c old' M g errs w' = (Ok S', w')
      \<and> stripVolatileStatusFields S' = stripVolatileStatusFields ?S"
    if old': "old' = ?S \<or> old' = old \<and> cst_StateStatus ?S = cst_StateStatus old" for old'
  proof -
    have "cst_LoggingStatus old' = cst_LoggingStatus old \<or> cst_LoggingStatus old' = lg"
      using old' by (auto simp: assembled_def)
    then obtain lg' where lg': "buildLoggingStatus l cl c (cst_LoggingStatus old')
          (required M ''SyslogNGFlow'' c) w' = (Ok lg', w')" "stripLogging lg' = stripLogging lg"
      using buildLoggingStatus_again [OF reads same cl lg] by blast
    let ?A' = "assembled (clock w') c old' kn lg' rt vol ev'"
    have cond': "computeReadyCondition ?A' c M errs = Ok cond"
      using computeReadyCondition_strip [of ?A' ?A] cond lg'(2) ev(3) by (simp add: assembled_def)
    have "cst_StateStatus old' = cst_StateStatus ?S" using old' by auto
    then have state: "cst_StateStatus ?A' = cst_StateStatus ?S"
      using CreateStateStatus_again [OF st] by (simp add: assembled_def)
    have conds: "map clearTransitionTime (l_SetStatusCondition l (clock w') (cst_Conditions old') cond)
        = map clearTransitionTime (l_SetStatusCondition l (clock w) (cst_Conditions old) cond)"
      using old' by (intro set_condition_again [OF cl]) (auto simp: assembled_def)
    show ?thesis
      using observeStatus_run [OF M kn(2) lg'(1) rt(2) vol(2) ev(2) cond'] state conds lg'(2) ev(3)
      by (intro exI conjI) (assumption, simp add: stripVolatile_iff assembled_def)
  qed
  ultimately show ?thesis using S by (intro exI [of _ ?S] exI [of _ cond]) simp
qed

section \<open>SyncStatus\<close>

text \<open>
  The status subresource: an update with the stored resource version replaces the status and
  nothing else, and the server gives the object a new resource version.
\<close>

definition status_only :: "('sp, 'st) resource \<Rightarrow> ('sp, 'st) resource \<Rightarrow> bool" where
  "status_only r0 r \<longleftrightarrow>
     Spec r = Spec r0 \<and> Meta r = (Meta r0)\<lparr>ResourceVersion := ResourceVersion (Meta r)\<rparr>"

lemma status_only_refl: "status_only r r"
  by (simp add: status_only_def)

lemma status_onlyD:
  assumes "status_only r0 r"
  shows "Spec r = Spec r0" "Name (Meta r) = Name (Meta r0)" "Namespace (Meta r) = Namespace (Meta r0)"
    "UID (Meta r) = UID (Meta r0)" "Labels (Meta r) = Labels (Meta r0)"
    "Annotations (Meta r) = Annotations (Meta r0)" "Finalizers (Meta r) = Finalizers (Meta r0)"
    "DeletionTimestamp (Meta r) = DeletionTimestamp (Meta r0)" "key_of r = key_of r0"
proof -
  have m: "Meta r = (Meta r0)\<lparr>ResourceVersion := ResourceVersion (Meta r)\<rparr>" and s: "Spec r = Spec r0"
    using assms by (simp_all add: status_only_def)
  show "Spec r = Spec r0" by (rule s)
  show "Name (Meta r) = Name (Meta r0)" "Namespace (Meta r) = Namespace (Meta r0)"
    "UID (Meta r) = UID (Meta r0)" "Labels (Meta r) = Labels (Meta r0)"
    "Annotations (Meta r) = Annotations (Meta r0)" "Finalizers (Meta r) = Finalizers (Meta r0)"
    "DeletionTimestamp (Meta r) = DeletionTimestamp (Meta r0)" "key_of r = key_of r0"
    unfolding key_of_def by (subst m, simp)+
qed

definition status_api :: "client \<Rightarrow> bool" where
  "status_api cl \<longleftrightarrow> kind_api (c_capps cl) capps capps_update \<and>
     (\<forall>w r r0. tlookup (capps w) (key_of r) = Some r0 \<longrightarrow>
        ResourceVersion (Meta r) = ResourceVersion (Meta r0) \<longrightarrow>
        (\<exists>t r'. c_statusUpdate cl r w = (Ok (), w\<lparr>capps := t\<rparr>)
           \<and> tlookup t = (tlookup (capps w))(key_of r \<mapsto> r')
           \<and> status_only r0 r' \<and> Status r' = Status r))"

lemma status_apiD:
  assumes "status_api cl" "tlookup (capps w) (key_of r) = Some r0"
    and "ResourceVersion (Meta r) = ResourceVersion (Meta r0)"
  shows "\<exists>t r'. c_statusUpdate cl r w = (Ok (), w\<lparr>capps := t\<rparr>)
           \<and> tlookup t = (tlookup (capps w))(key_of r \<mapsto> r')
           \<and> status_only r0 r' \<and> Status r' = Status r"
  using assms unfolding status_api_def by blast

lemma mem_status_api: "status_api mem_client"
  unfolding status_api_def
proof (intro conjI allI impI)
  show "kind_api (c_capps mem_client) capps capps_update"
    using mem_capps.kind_api_axioms by simp
next
  fix w :: world and r r0 :: capp
  assume r0: "tlookup (capps w) (key_of r) = Some r0"
    and rv: "ResourceVersion (Meta r) = ResourceVersion (Meta r0)"
  have k: "key_of (r0\<lparr>Status := Status r\<rparr>) = key_of r"
    using tlookup_Some_key [OF r0] by (simp add: key_of_def)
  show "\<exists>t r'. c_statusUpdate mem_client r w = (Ok (), w\<lparr>capps := t\<rparr>)
           \<and> tlookup t = (tlookup (capps w))(key_of r \<mapsto> r')
           \<and> status_only r0 r' \<and> Status r' = Status r"
    using r0 rv k tlookup_put [of "r0\<lparr>Status := Status r\<rparr>" "capps w"]
    by (intro exI [of _ "tput (r0\<lparr>Status := Status r\<rparr>) (capps w)"]
        exI [of _ "r0\<lparr>Status := Status r\<rparr>"])
      (simp add: mem_client_def status_only_def)
qed

lemma SyncStatus_again:
  assumes api: "status_api cl" and reads: "status_reads l cl c w" and libs: "sync_libs l"
    and M: "has_managers M" and st: "cs_State (Spec c) \<noteq> []"
    and c0: "tlookup (capps w) (key_of c) = Some c0"
  shows "\<exists>t c1 cond. SyncStatus l cl c M g errs w = (Ok (), w\<lparr>capps := t\<rparr>)
     \<and> tlookup t = (tlookup (capps w))(key_of c \<mapsto> c1) \<and> status_only c0 c1
     \<and> computeReadyCondition (Status c1) c M errs = Ok cond
     \<and> (\<exists>x \<in> set (cst_Conditions (Status c1)). cond_Type x = cond_Type cond
          \<and> cond_Status x = cond_Status cond \<and> cond_Reason x = cond_Reason cond
          \<and> cond_Message x = cond_Message cond)
     \<and> (\<forall>ck ev. SyncStatus l cl c M g errs (w\<lparr>capps := t, clock := ck, events := ev\<rparr>)
           = (Ok (), w\<lparr>capps := t, clock := ck, events := ev\<rparr>))"
proof -
  have capi: "kind_api (c_capps cl) capps capps_update" using api by (simp add: status_api_def)
  have get: "kget (c_capps cl) (Namespace (Meta c)) (Name (Meta c)) w = (Ok c0, w)"
    using kind_api.get_found [OF capi] c0 by (simp add: key_of_def)
  let ?again = "\<lambda>t ck ev. w\<lparr>capps := t, clock := ck, events := ev\<rparr>"
  have same: "same_objects w (?again t ck ev)" for t ck ev by (simp add: same_objects_def)
  obtain S cond where S: "observeStatus l cl c (Status c0) M g errs w = (Ok S, w)"
      "computeReadyCondition S c M errs = Ok cond"
      "cst_Conditions S = l_SetStatusCondition l (clock w) (cst_Conditions (Status c0)) cond"
    using observeStatus_twice [OF reads libs same M st] by blast
  have again: "\<exists>S'. observeStatus l cl c old' M g errs (?again t ck ev) = (Ok S', ?again t ck ev)
      \<and> stripVolatileStatusFields S' = stripVolatileStatusFields S"
    if "old' = S \<or> old' = Status c0 \<and> cst_StateStatus S = cst_StateStatus (Status c0)"
    for old' t ck ev
    using observeStatus_twice [OF reads libs same [where t = t and ck = ck and ev = ev] M st, of "Status c0" g errs] S(1) that
    by auto
  have has: "\<exists>x \<in> set (cst_Conditions S). cond_Type x = cond_Type cond
      \<and> cond_Status x = cond_Status cond \<and> cond_Reason x = cond_Reason cond
      \<and> cond_Message x = cond_Message cond"
    using libs unfolding S(3) sync_libs_def condition_lib_def by blast
  show ?thesis
  proof (cases "stripVolatileStatusFields (Status c0) = stripVolatileStatusFields S")
    case True
    then have eqs: "cst_StateStatus S = cst_StateStatus (Status c0)"
        "map clearTransitionTime (cst_Conditions (Status c0)) = map clearTransitionTime (cst_Conditions S)"
        "computeReadyCondition (Status c0) c M errs = Ok cond"
      using S(2) computeReadyCondition_strip [of "Status c0" S]
      by (simp_all add: stripVolatile_iff)
    have "SyncStatus l cl c M g errs w = (Ok (), w\<lparr>capps := capps w\<rparr>)"
      using True S(1) get by (simp add: SyncStatus_def andThen_Ok)
    moreover have "SyncStatus l cl c M g errs (?again (capps w) ck ev) = (Ok (), ?again (capps w) ck ev)"
      for ck ev
    proof -
      have "kget (c_capps cl) (Namespace (Meta c)) (Name (Meta c)) (?again (capps w) ck ev)
          = (Ok c0, ?again (capps w) ck ev)"
        using kind_api.get_found [OF capi, of "?again (capps w) ck ev"] c0 by (simp add: key_of_def)
      with again [where old' = "Status c0" and t = "capps w" and ck = ck and ev = ev] eqs(1) True show ?thesis
        by (auto simp: SyncStatus_def andThen_Ok)
    qed
    moreover have "\<exists>x \<in> set (cst_Conditions (Status c0)). cond_Type x = cond_Type cond
        \<and> cond_Status x = cond_Status cond \<and> cond_Reason x = cond_Reason cond
        \<and> cond_Message x = cond_Message cond"
    proof -
      obtain x where x: "x \<in> set (cst_Conditions S)" "cond_Type x = cond_Type cond"
          "cond_Status x = cond_Status cond" "cond_Reason x = cond_Reason cond"
          "cond_Message x = cond_Message cond" using has by blast
      then have "clearTransitionTime x \<in> clearTransitionTime ` set (cst_Conditions (Status c0))"
        using eqs(2) by (metis image_eqI image_set)
      then obtain y where y: "y \<in> set (cst_Conditions (Status c0))"
          "clearTransitionTime x = clearTransitionTime y" by blast
      have "cond_Type x = cond_Type y \<and> cond_Status x = cond_Status y
          \<and> cond_Reason x = cond_Reason y \<and> cond_Message x = cond_Message y"
        using arg_cong [OF y(2), of cond_Type] arg_cong [OF y(2), of cond_Status]
          arg_cong [OF y(2), of cond_Reason] arg_cong [OF y(2), of cond_Message]
        by (simp add: clearTransitionTime_def)
      with x y(1) show ?thesis by (intro bexI [of _ y]) simp_all
    qed
    moreover have "tlookup (capps w) = (tlookup (capps w))(key_of c \<mapsto> c0)"
      using c0 by (simp add: fun_upd_idem)
    ultimately show ?thesis using eqs(3)
      by (intro exI [of _ "capps w"] exI [of _ c0] exI [of _ cond]) (simp add: status_only_def)
  next
    case False
    have k: "key_of (c0\<lparr>Status := S\<rparr>) = key_of c"
      using tlookup_Some_key [OF c0] by (simp add: key_of_def)
    have "\<exists>t r'. c_statusUpdate cl (c0\<lparr>Status := S\<rparr>) w = (Ok (), w\<lparr>capps := t\<rparr>)
        \<and> tlookup t = (tlookup (capps w))(key_of c \<mapsto> r') \<and> status_only c0 r' \<and> Status r' = S"
      using status_apiD [OF api, of w "c0\<lparr>Status := S\<rparr>" c0] c0 k by simp
    then obtain t c1 where t: "c_statusUpdate cl (c0\<lparr>Status := S\<rparr>) w = (Ok (), w\<lparr>capps := t\<rparr>)"
        "tlookup t = (tlookup (capps w))(key_of c \<mapsto> c1)" "status_only c0 c1" "Status c1 = S"
      by blast
    have "SyncStatus l cl c M g errs w = (Ok (), w\<lparr>capps := t\<rparr>)"
      using False S(1) get t(1) by (simp add: SyncStatus_def andThen_Ok)
    moreover have "SyncStatus l cl c M g errs (?again t ck ev) = (Ok (), ?again t ck ev)" for ck ev
    proof -
      have "kget (c_capps cl) (Namespace (Meta c)) (Name (Meta c)) (?again t ck ev)
          = (Ok c1, ?again t ck ev)"
        using kind_api.get_found [OF capi, of "?again t ck ev"] t(2) by (simp add: key_of_def)
      with again [where old' = S and t = t and ck = ck and ev = ev] t(4) show ?thesis
        by (auto simp: SyncStatus_def andThen_Ok)
    qed
    ultimately show ?thesis using t S(2) has
      by (intro exI [of _ t] exI [of _ c1] exI [of _ cond]) simp
  qed
qed

end
