(* ===== verification/CappSync.thy ===== *)
theory CappSync
  imports CappController StatusSync
begin

text \<open>
  The reconciler as a whole: the nine managers own different tables, so that each finds the
  world as calm as it was after the others have run, and none undoes what another settled.
  One pass over the managers settles all of them, a second one changes no object, and the
  pass of the finalizer leaves nothing behind.
\<close>

section \<open>The managers, in the order of the reconciler\<close>

datatype manager_kind =
  MKnativeService | MNfsPvc | MSyslogNGOutput | MSyslogNGFlow | MCertificate | MDomainMapping
  | MDNSRecord | MPingSource | MKafkaSource

definition manager_kinds :: "manager_kind list" where
  "manager_kinds =
     [MKnativeService, MNfsPvc, MSyslogNGOutput, MSyslogNGFlow, MCertificate, MDomainMapping,
      MDNSRecord, MPingSource, MKafkaSource]"

fun entry_of :: "lib \<Rightarrow> client \<Rightarrow> capp_config \<Rightarrow> manager_kind \<Rightarrow> resource_manager_entry" where
  "entry_of l cl cfg MKnativeService = resourceManagers l cl cfg ! 0"
| "entry_of l cl cfg MNfsPvc = resourceManagers l cl cfg ! 1"
| "entry_of l cl cfg MSyslogNGOutput = resourceManagers l cl cfg ! 2"
| "entry_of l cl cfg MSyslogNGFlow = resourceManagers l cl cfg ! 3"
| "entry_of l cl cfg MCertificate = resourceManagers l cl cfg ! 4"
| "entry_of l cl cfg MDomainMapping = resourceManagers l cl cfg ! 5"
| "entry_of l cl cfg MDNSRecord = resourceManagers l cl cfg ! 6"
| "entry_of l cl cfg MPingSource = resourceManagers l cl cfg ! 7"
| "entry_of l cl cfg MKafkaSource = resourceManagers l cl cfg ! 8"

lemma resourceManagers_kinds:
  "resourceManagers l cl cfg = map (entry_of l cl cfg) manager_kinds"
  by (simp add: manager_kinds_def resourceManagers_def)

lemma manager_kinds_all: "set manager_kinds = UNIV" "distinct manager_kinds"
proof -
  have "k \<in> set manager_kinds" for k by (cases k) (simp_all add: manager_kinds_def)
  then show "set manager_kinds = UNIV" by blast
  show "distinct manager_kinds" by (simp add: manager_kinds_def)
qed

fun settled_at :: "manager_kind \<Rightarrow> lib \<Rightarrow> capp_config \<Rightarrow> capp \<Rightarrow> world \<Rightarrow> bool" where
  "settled_at MKnativeService = ksvc_settled"
| "settled_at MNfsPvc = nfs_settled"
| "settled_at MSyslogNGOutput = output_settled"
| "settled_at MSyslogNGFlow = flow_settled"
| "settled_at MCertificate = cert_settled"
| "settled_at MDomainMapping = dm_settled"
| "settled_at MDNSRecord = dns_settled"
| "settled_at MPingSource = ping_settled"
| "settled_at MKafkaSource = kafka_settled"

fun calm_at :: "manager_kind \<Rightarrow> capp_config \<Rightarrow> capp \<Rightarrow> world \<Rightarrow> bool" where
  "calm_at MKnativeService = ksvc_calm"
| "calm_at MNfsPvc = nfs_calm"
| "calm_at MSyslogNGOutput = output_calm"
| "calm_at MSyslogNGFlow = flow_calm"
| "calm_at MCertificate = cert_calm"
| "calm_at MDomainMapping = dm_calm"
| "calm_at MDNSRecord = dns_calm"
| "calm_at MPingSource = ping_calm"
| "calm_at MKafkaSource = kafka_calm"

fun cleaned_at :: "manager_kind \<Rightarrow> lib \<Rightarrow> capp \<Rightarrow> world \<Rightarrow> bool" where
  "cleaned_at MKnativeService = ksvc_cleaned"
| "cleaned_at MNfsPvc = nfs_cleaned"
| "cleaned_at MSyslogNGOutput = output_cleaned"
| "cleaned_at MSyslogNGFlow = flow_cleaned"
| "cleaned_at MCertificate = cert_cleaned"
| "cleaned_at MDomainMapping = dm_cleaned"
| "cleaned_at MDNSRecord = dns_cleaned"
| "cleaned_at MPingSource = ping_cleaned"
| "cleaned_at MKafkaSource = kafka_cleaned"

text \<open>\<open>moves k w w'\<close>: only the tables of manager \<open>k\<close> and the events differ.\<close>

fun moves :: "manager_kind \<Rightarrow> world \<Rightarrow> world \<Rightarrow> bool" where
  "moves MKnativeService w w' \<longleftrightarrow> (\<exists>t ev. w' = w\<lparr>events := ev, ksvcs := t\<rparr>)"
| "moves MNfsPvc w w' \<longleftrightarrow> (\<exists>t ev. w' = w\<lparr>events := ev, nfspvcs := t\<rparr>)"
| "moves MSyslogNGOutput w w' \<longleftrightarrow> (\<exists>t ev. w' = w\<lparr>events := ev, outputs := t\<rparr>)"
| "moves MSyslogNGFlow w w' \<longleftrightarrow> (\<exists>t ev. w' = w\<lparr>events := ev, flows := t\<rparr>)"
| "moves MCertificate w w' \<longleftrightarrow> (\<exists>t ev. w' = w\<lparr>events := ev, certificates := t\<rparr>)"
| "moves MDomainMapping w w' \<longleftrightarrow> (\<exists>v ev. w' = dm_put v (w\<lparr>events := ev\<rparr>))"
| "moves MDNSRecord w w' \<longleftrightarrow> (\<exists>t ev. w' = w\<lparr>events := ev, cnamerecords := t\<rparr>)"
| "moves MPingSource w w' \<longleftrightarrow> (\<exists>t ev. w' = w\<lparr>events := ev, pingsources := t\<rparr>)"
| "moves MKafkaSource w w' \<longleftrightarrow> (\<exists>t ev. w' = w\<lparr>events := ev, kafkasources := t\<rparr>)"

lemmas calm_defs = ksvc_calm_def nfs_calm_def output_calm_def flow_calm_def cert_calm_def
  dm_calm_def dns_calm_def ping_calm_def kafka_calm_def

lemmas settled_defs = ksvc_settled_def nfs_settled_def output_settled_def flow_settled_def
  cert_settled_def dm_settled_def dns_settled_def ping_settled_def kafka_settled_def

lemmas cleaned_defs = ksvc_cleaned_def nfs_cleaned_def output_cleaned_def flow_cleaned_def
  cert_cleaned_def dm_cleaned_def dns_cleaned_def ping_cleaned_def kafka_cleaned_def

text \<open>A manager's three predicates look at its own tables only.\<close>

lemma moves_calm:
  assumes "moves k w w'" "j \<noteq> k" shows "calm_at j g c w' = calm_at j g c w"
  using assms
  by (cases j; cases k)
    (auto simp: calm_defs dm_put_def dm_desired_def cong: conj_cong split: result.split)

lemma moves_settled:
  assumes "moves k w w'" "j \<noteq> k" shows "settled_at j l g c w' = settled_at j l g c w"
  using assms
  by (cases j; cases k)
    (auto simp: settled_defs dm_put_def dm_desired_def cong: conj_cong split: result.split)

lemma moves_cleaned:
  assumes "moves k w w'" "j \<noteq> k" shows "cleaned_at j l c w' = cleaned_at j l c w"
  using assms by (cases j; cases k) (auto simp: cleaned_defs dm_put_def)

text \<open>What no manager touches.\<close>

definition outside :: "world \<Rightarrow> world \<Rightarrow> bool" where
  "outside w w' \<longleftrightarrow> capps w' = capps w \<and> cappconfigs w' = cappconfigs w
     \<and> capprevisions w' = capprevisions w \<and> knrevisions w' = knrevisions w \<and> clock w' = clock w"

lemma outside_refl: "outside w w"
  and outside_trans: "outside w w1 \<Longrightarrow> outside w1 w' \<Longrightarrow> outside w w'"
  by (simp_all add: outside_def)

lemma moves_outside: "moves k w w' \<Longrightarrow> outside w w'"
  by (cases k) (auto simp: outside_def dm_put_def)

section \<open>One pass of the managers\<close>

text \<open>The API works for every kind the managers use.\<close>

definition managers_api :: "client \<Rightarrow> bool" where
  "managers_api cl \<longleftrightarrow> ksvc_api cl \<and> nfs_api cl \<and> output_api cl \<and> flow_api cl \<and> cert_api cl
     \<and> dm_api cl \<and> dns_api cl \<and> ping_api cl \<and> kafka_api cl"

definition all_calm :: "capp_config \<Rightarrow> capp \<Rightarrow> world \<Rightarrow> bool" where
  "all_calm g c w \<longleftrightarrow> (\<forall>k. calm_at k g c w)"

definition all_settled :: "lib \<Rightarrow> capp_config \<Rightarrow> capp \<Rightarrow> world \<Rightarrow> bool" where
  "all_settled l g c w \<longleftrightarrow> (\<forall>k. settled_at k l g c w)"

definition all_cleaned :: "lib \<Rightarrow> capp \<Rightarrow> world \<Rightarrow> bool" where
  "all_cleaned l c w \<longleftrightarrow> (\<forall>k. cleaned_at k l c w)"

lemma entry_settles:
  assumes api: "managers_api cl" and lib: "owner_refs_lib l"
    and live: "DeletionTimestamp (Meta c) = None" and calm: "calm_at k g c w"
  shows "\<exists>w'. rm_Manage (rme_Manager (entry_of l cl g k)) c w = (Ok (), w')
     \<and> settled_at k l g c w' \<and> moves k w w'"
  using api calm
    ksvc_mgr.settles [OF _ lib live, of cl g w] nfs_mgr.settles [OF _ lib live, of cl g w]
    output_mgr.settles [OF _ lib live, of cl g w] flow_mgr.settles [OF _ lib live, of cl g w]
    cert_mgr.settles [OF _ lib live, of cl g w] dm_mgr.settles [OF _ lib live, of cl g w]
    dns_mgr.settles [OF _ lib live, of cl g w] ping_mgr.settles [OF _ lib live, of cl g w]
    kafka_mgr.settles [OF _ lib live, of cl g w]
  by (cases k) (simp_all add: managers_api_def resourceManagers_def, blast+)

lemma entry_stable:
  assumes api: "managers_api cl" and live: "DeletionTimestamp (Meta c) = None"
    and settled: "settled_at k l g c w"
  shows "\<exists>ev. rm_Manage (rme_Manager (entry_of l cl g k)) c w = (Ok (), w\<lparr>events := ev\<rparr>)"
  using api settled
    ksvc_mgr.stable [OF _ live, of cl l g w] nfs_mgr.stable [OF _ live, of cl l g w]
    output_mgr.stable [OF _ live, of cl l g w] flow_mgr.stable [OF _ live, of cl l g w]
    cert_mgr.stable [OF _ live, of cl l g w] dm_mgr.stable [OF _ live, of cl l g w]
    dns_mgr.stable [OF _ live, of cl l g w] ping_mgr.stable [OF _ live, of cl l g w]
    kafka_mgr.stable [OF _ live, of cl l g w]
  by (cases k) (simp_all add: managers_api_def resourceManagers_def)

lemma moves_put:
  shows "moves MKnativeService w (ksvcs_update (\<lambda>_. t0) w)"
  and "moves MNfsPvc w (nfspvcs_update (\<lambda>_. t1) w)"
  and "moves MSyslogNGOutput w (outputs_update (\<lambda>_. t2) w)"
  and "moves MSyslogNGFlow w (flows_update (\<lambda>_. t3) w)"
  and "moves MCertificate w (certificates_update (\<lambda>_. t4) w)"
  and "moves MDNSRecord w (cnamerecords_update (\<lambda>_. t5) w)"
  and "moves MPingSource w (pingsources_update (\<lambda>_. t6) w)"
  and "moves MKafkaSource w (kafkasources_update (\<lambda>_. t7) w)"
  by (simp_all, (rule exI, rule exI [of _ "events w"], simp)+)

lemma moves_dm_put: "moves MDomainMapping w (dm_put v w)"
  unfolding moves.simps by (rule exI [of _ v], rule exI [of _ "events w"]) simp

lemma entry_cleans:
  assumes api: "managers_api cl" and lib: "owner_refs_lib l"
  shows "\<exists>w'. rm_CleanUp (rme_Manager (entry_of l cl g k)) c w = (Ok (), w')
     \<and> cleaned_at k l c w' \<and> moves k w w'"
  using api
    ksvc_mgr.cleans [OF _ lib, of cl c w] nfs_mgr.cleans [OF _ lib, of cl c w]
    output_mgr.cleans [OF _ lib, of cl c w] flow_mgr.cleans [OF _ lib, of cl c w]
    cert_mgr.cleans [OF _ lib, of cl c w] dm_mgr.cleans [OF _ lib, of cl c w]
    dns_mgr.cleans [OF _ lib, of cl c w] ping_mgr.cleans [OF _ lib, of cl c w]
    kafka_mgr.cleans [OF _ lib, of cl c w]
  by (cases k)
    (simp_all add: managers_api_def resourceManagers_def del: moves.simps,
     (metis moves_put moves_dm_put)+)

text \<open>Each manager settles its own objects; the others' stay as they were.\<close>

lemma manageAll_settles:
  assumes api: "managers_api cl" and lib: "owner_refs_lib l"
    and live: "DeletionTimestamp (Meta c) = None"
    and "distinct ks" and "\<And>k. k \<in> set ks \<Longrightarrow> calm_at k g c w"
  shows "\<exists>w'. manageAll (map (entry_of l cl g) ks) c w = (Ok [], w')
     \<and> (\<forall>k \<in> set ks. settled_at k l g c w') \<and> outside w w'
     \<and> (\<forall>j. j \<notin> set ks \<longrightarrow> settled_at j l g c w' = settled_at j l g c w)"
  using assms(4,5)
proof (induction ks arbitrary: w)
  case Nil
  then show ?case by (simp add: outside_refl)
next
  case (Cons k ks)
  have ck: "calm_at k g c w" using Cons.prems(2) by simp
  obtain w1 where w1: "rm_Manage (rme_Manager (entry_of l cl g k)) c w = (Ok (), w1)"
      "settled_at k l g c w1" "moves k w w1"
    using entry_settles [OF api lib live ck] by blast
  have "calm_at j g c w1" if "j \<in> set ks" for j
    using moves_calm [OF w1(3), of j] Cons.prems that by auto
  with Cons.IH [of w1] Cons.prems(1) obtain w' where
    w': "manageAll (map (entry_of l cl g) ks) c w1 = (Ok [], w')"
      "\<forall>k \<in> set ks. settled_at k l g c w'" "outside w1 w'"
      "\<forall>j. j \<notin> set ks \<longrightarrow> settled_at j l g c w' = settled_at j l g c w1"
    by auto
  have "manageAll (map (entry_of l cl g) (k # ks)) c w = (Ok [], w')"
    using w1(1) w'(1) by (simp add: handle_Ok)
  moreover have "settled_at j l g c w' = settled_at j l g c w" if "j \<notin> set (k # ks)" for j
    using w'(4) that moves_settled [OF w1(3), of j] by auto
  ultimately show ?case
    using w' w1(2) Cons.prems(1) outside_trans [OF moves_outside [OF w1(3)] w'(3)]
    by (intro exI [of _ w']) auto
qed

lemma settled_at_events [simp]:
  "settled_at k l g c (w\<lparr>events := ev\<rparr>) = settled_at k l g c w"
  by (cases k)
    (simp_all add: ksvc_mgr.settled_events nfs_mgr.settled_events output_mgr.settled_events
      flow_mgr.settled_events cert_mgr.settled_events dm_mgr.settled_events
      dns_mgr.settled_events ping_mgr.settled_events kafka_mgr.settled_events)

lemma manageAll_stable:
  assumes api: "managers_api cl" and live: "DeletionTimestamp (Meta c) = None"
    and "\<And>k. k \<in> set ks \<Longrightarrow> settled_at k l g c w"
  shows "\<exists>ev. manageAll (map (entry_of l cl g) ks) c w = (Ok [], w\<lparr>events := ev\<rparr>)"
  using assms(3)
proof (induction ks arbitrary: w)
  case Nil
  show ?case by (intro exI [of _ "events w"]) simp
next
  case (Cons k ks)
  have sk: "settled_at k l g c w" using Cons.prems by simp
  obtain ev where ev: "rm_Manage (rme_Manager (entry_of l cl g k)) c w = (Ok (), w\<lparr>events := ev\<rparr>)"
    using entry_stable [OF api live sk] by blast
  have "\<And>j. j \<in> set ks \<Longrightarrow> settled_at j l g c (w\<lparr>events := ev\<rparr>)" using Cons.prems by simp
  from Cons.IH [OF this] obtain ev' where
    "manageAll (map (entry_of l cl g) ks) c (w\<lparr>events := ev\<rparr>) = (Ok [], w\<lparr>events := ev'\<rparr>)" by auto
  with ev show ?case by (intro exI [of _ ev']) (simp add: handle_Ok)
qed

section \<open>The pass of the finalizer\<close>

lemma cleanAll_cleans:
  assumes api: "managers_api cl" and lib: "owner_refs_lib l" and "distinct ks"
  shows "\<exists>w'. forEach (\<lambda>e. rm_CleanUp (rme_Manager e) c) (map (entry_of l cl g) ks) w = (Ok (), w')
     \<and> (\<forall>k \<in> set ks. cleaned_at k l c w') \<and> outside w w'
     \<and> (\<forall>j. j \<notin> set ks \<longrightarrow> cleaned_at j l c w' = cleaned_at j l c w)"
  using assms(3)
proof (induction ks arbitrary: w)
  case Nil
  then show ?case by (simp add: outside_refl)
next
  case (Cons k ks)
  obtain w1 where w1: "rm_CleanUp (rme_Manager (entry_of l cl g k)) c w = (Ok (), w1)"
      "cleaned_at k l c w1" "moves k w w1"
    using entry_cleans [OF api lib] by blast
  obtain w' where w': "forEach (\<lambda>e. rm_CleanUp (rme_Manager e) c) (map (entry_of l cl g) ks) w1
        = (Ok (), w')"
      "\<forall>k \<in> set ks. cleaned_at k l c w'"
      "\<forall>j. j \<notin> set ks \<longrightarrow> cleaned_at j l c w' = cleaned_at j l c w1" "outside w1 w'"
    using Cons.IH [of w1] Cons.prems by auto
  have "forEach (\<lambda>e. rm_CleanUp (rme_Manager e) c) (map (entry_of l cl g) (k # ks)) w = (Ok (), w')"
    using w1(1) w'(1) by (simp add: andThen_Ok)
  moreover have "cleaned_at j l c w' = cleaned_at j l c w" if "j \<notin> set (k # ks)" for j
    using w'(3) that moves_cleaned [OF w1(3), of j] by auto
  ultimately show ?case
    using w' w1(2) Cons.prems outside_trans [OF moves_outside [OF w1(3)] w'(4)]
    by (intro exI [of _ w']) auto
qed

lemma finalizeCapp_cleans:
  assumes "managers_api cl" and "owner_refs_lib l"
  shows "\<exists>w'. finalizeCapp c (resourceManagers l cl g) w = (Ok (), w') \<and> all_cleaned l c w'
     \<and> outside w w'"
proof -
  have "distinct (rev manager_kinds)" using manager_kinds_all by simp
  from cleanAll_cleans [OF assms this, of c g w] show ?thesis
    by (auto simp: finalizeCapp_def resourceManagers_kinds all_cleaned_def rev_map
        manager_kinds_all)
qed

section \<open>A whole reconciliation\<close>

lemma resourceManagers_has: "has_managers (ManagerMap (resourceManagers l cl g))"
  by (simp add: has_managers_def status_names_def ManagerMap_def resourceManagers_def)

text \<open>
  The sources of the Capp have different names, and each is of one type: what the validator
  and the API's own validation ensure.
\<close>

definition sources_clear :: "capp \<Rightarrow> bool" where
  "sources_clear c \<longleftrightarrow> distinct (map src_Name (cs_Sources (Spec c)))
     \<and> (\<forall>s \<in> set (cs_Sources (Spec c)). src_Ping s = None \<or> src_Kafka s = None)"

lemma found_in_managed: "r \<in> found_in t (Namespace (Meta c)) (eventing_keys c) \<longleftrightarrow> managed_by c fmempty t r"
  by (auto simp: found_in_def managed_by_def eventing_keys_def)

lemma ping_settled_names:
  assumes "ping_settled l g c w" "managed_by c fmempty (pingsources w) r"
  shows "\<exists>s \<in> set (cs_Sources (Spec c)). src_Ping s \<noteq> None
     \<and> Name (Meta r) = Name (Meta c) @ ''-'' @ src_Name s"
proof -
  have "ping_IsRequired c" and "Name (Meta r) \<in> set (map (\<lambda>d. Name (Meta d)) (ping_desired c))"
    using assms by (auto simp: ping_settled_def sources_settled_def split: if_splits)
  then have "Name (Meta r) \<in> set (ping_desiredNames c)"
    unfolding ping_desiredNames_wanted ping_desired_def by simp
  then show ?thesis by (auto simp: ping_desiredNames_def)
qed

lemma kafka_settled_names:
  assumes "kafka_settled l g c w" "managed_by c fmempty (kafkasources w) r"
  shows "\<exists>s \<in> set (cs_Sources (Spec c)). src_Kafka s \<noteq> None
     \<and> Name (Meta r) = Name (Meta c) @ ''-'' @ src_Name s"
proof -
  have "kafka_IsRequired c" and "Name (Meta r) \<in> set (map (\<lambda>d. Name (Meta d)) (kafka_desired c))"
    using assms by (auto simp: kafka_settled_def sources_settled_def split: if_splits)
  then have "Name (Meta r) \<in> set (kafka_desiredNames c)"
    unfolding kafka_desiredNames_wanted kafka_desired_def by simp
  then show ?thesis by (auto simp: kafka_desiredNames_def)
qed

lemma settled_sources_disjoint:
  assumes settled: "all_settled l g c w" and clear: "sources_clear c"
    and p: "managed_by c fmempty (pingsources w) p" and k: "managed_by c fmempty (kafkasources w) k"
  shows "Name (Meta p) \<noteq> Name (Meta k)"
proof
  assume eq: "Name (Meta p) = Name (Meta k)"
  have "ping_settled l g c w" "kafka_settled l g c w"
    using settled [unfolded all_settled_def, rule_format, of MPingSource]
      settled [unfolded all_settled_def, rule_format, of MKafkaSource] by simp_all
  from ping_settled_names [OF this(1) p] kafka_settled_names [OF this(2) k] eq
  obtain s s' where s: "s \<in> set (cs_Sources (Spec c))" "s' \<in> set (cs_Sources (Spec c))"
      "src_Ping s \<noteq> None" "src_Kafka s' \<noteq> None" "src_Name s = src_Name s'" by auto
  with clear have "s = s'" by (auto simp: sources_clear_def distinct_map inj_on_def)
  with s clear show False by (auto simp: sources_clear_def)
qed

text \<open>What the API must offer for reading the status, and the bounds that must hold.\<close>

definition reconcile_api :: "lib \<Rightarrow> client \<Rightarrow> capp \<Rightarrow> world \<Rightarrow> bool" where
  "reconcile_api l cl c w \<longleftrightarrow>
     managers_api cl \<and> status_api cl
     \<and> kind_api (c_cappconfigs cl) cappconfigs cappconfigs_update
     \<and> kind_api (c_knrevisions cl) knrevisions knrevisions_update
     \<and> l_NewRequirement l KnativeLabelKey (Name (Meta c)) = None
     \<and> card (found_in (knrevisions w) (Namespace (Meta c))
               (fmap_of_list [(KnativeLabelKey, Name (Meta c))])) \<le> CappStatus.ClientListLimit"

definition reconcile_lib :: "lib \<Rightarrow> bool" where
  "reconcile_lib l \<longleftrightarrow> owner_refs_lib l \<and> sync_libs l"

lemma settled_status_reads:
  assumes api: "reconcile_api l cl c w" and "outside w w'" and settled: "all_settled l g c w'"
    and clear: "sources_clear c"
  shows "status_reads l cl c w'"
  using assms settled_sources_disjoint [OF settled clear]
  by (simp add: status_reads_def reconcile_api_def managers_api_def ksvc_api_def nfs_api_def
      output_api_def flow_api_def cert_api_def dm_api_def dns_api_def ping_api_def kafka_api_def
      outside_def found_in_managed)

lemma settled_at_capps [simp]:
  "settled_at k l g c (w\<lparr>capps := t\<rparr>) = settled_at k l g c w"
  by (cases k) (simp_all add: settled_defs dm_desired_def cong: conj_cong split: result.split)

lemma cleaned_at_capps [simp]:
  "cleaned_at k l c (w\<lparr>capps := t\<rparr>) = cleaned_at k l c w"
  by (cases k) (simp_all add: cleaned_defs)

lemma SyncApplication_settles:
  assumes api: "reconcile_api l cl c w" and lib: "reconcile_lib l"
    and live: "DeletionTimestamp (Meta c) = None" and calm: "all_calm g c w"
    and clear: "sources_clear c" and st: "cs_State (Spec c) \<noteq> []"
    and c0: "tlookup (capps w) (key_of c) = Some c0"
  shows "\<exists>w' c1. SyncApplication l cl c (resourceManagers l cl g) g w = (Ok (), w')
     \<and> all_settled l g c w' \<and> tlookup (capps w') (key_of c) = Some c1 \<and> status_only c0 c1
     \<and> cappconfigs w' = cappconfigs w \<and> knrevisions w' = knrevisions w
     \<and> (\<exists>cond. computeReadyCondition (Status c1) c (ManagerMap (resourceManagers l cl g)) [] = Ok cond
          \<and> (\<exists>x \<in> set (cst_Conditions (Status c1)). cond_Type x = cond_Type cond
             \<and> cond_Status x = cond_Status cond \<and> cond_Reason x = cond_Reason cond
             \<and> cond_Message x = cond_Message cond))
     \<and> (\<forall>ev. SyncStatus l cl c (ManagerMap (resourceManagers l cl g)) g [] (w'\<lparr>events := ev\<rparr>)
              = (Ok (), w'\<lparr>events := ev\<rparr>))"
proof -
  let ?ms = "resourceManagers l cl g"
  have mapi: "managers_api cl" and olib: "owner_refs_lib l"
    and sapi: "status_api cl" and slib: "sync_libs l"
    using api lib by (simp_all add: reconcile_api_def reconcile_lib_def)
  obtain w1 where w1: "manageAll ?ms c w = (Ok [], w1)" "all_settled l g c w1" "outside w w1"
    using manageAll_settles [OF mapi olib live manager_kinds_all(2), of g w] calm
    by (auto simp: resourceManagers_kinds all_settled_def all_calm_def manager_kinds_all)
  have "tlookup (capps w1) (key_of c) = Some c0" using c0 w1(3) by (simp add: outside_def)
  from SyncStatus_again [OF sapi settled_status_reads [OF api w1(3,2) clear] slib
      resourceManagers_has st this, of l cl g g "[]"]
  obtain t c1 where t: "SyncStatus l cl c (ManagerMap ?ms) g [] w1 = (Ok (), w1\<lparr>capps := t\<rparr>)"
      "\<And>ck ev. SyncStatus l cl c (ManagerMap ?ms) g [] (w1\<lparr>capps := t, clock := ck, events := ev\<rparr>)
         = (Ok (), w1\<lparr>capps := t, clock := ck, events := ev\<rparr>)"
      "tlookup t = (tlookup (capps w1))(key_of c \<mapsto> c1)" "status_only c0 c1"
      "\<exists>cond. computeReadyCondition (Status c1) c (ManagerMap ?ms) [] = Ok cond
          \<and> (\<exists>x \<in> set (cst_Conditions (Status c1)). cond_Type x = cond_Type cond
             \<and> cond_Status x = cond_Status cond \<and> cond_Reason x = cond_Reason cond
             \<and> cond_Message x = cond_Message cond)" by blast
  let ?w = "w1\<lparr>capps := t\<rparr>"
  have settled: "all_settled l g c ?w" using w1(2) by (simp add: all_settled_def)
  have first: "SyncApplication l cl c ?ms g w = (Ok (), ?w)"
    using w1(1) t(1) by (simp add: SyncApplication_def andThen_Ok NewAggregate_def)
  have "SyncStatus l cl c (ManagerMap ?ms) g [] (?w\<lparr>events := ev\<rparr>) = (Ok (), ?w\<lparr>events := ev\<rparr>)" for ev
    using t(2) [where ck = "clock w1" and ev = ev] by simp
  with first settled show ?thesis
    using t(3-5) w1(3) by (intro exI [of _ ?w] exI [of _ c1]) (auto simp: outside_def)
qed

end
