(* ===== verification/CappReconcile.thy ===== *)
theory CappReconcile
  imports CappSync SampleWorld
begin

text \<open>
  \<open>Reconcile\<close> as a whole: with the API at hand and the objects calm, one run settles
  everything and reports it in the status, the next one changes nothing but the events, and
  the run on a Capp that is being deleted leaves no object of its behind and takes the
  finalizer off.
\<close>

section \<open>What a new status leaves alone\<close>

text \<open>
  The owner references that the library sets and finds identify the owner by name, namespace
  and UID.
\<close>

definition owner_identity_lib :: "lib \<Rightarrow> bool" where
  "owner_identity_lib l \<longleftrightarrow>
     (\<forall>c c'. Name (Meta c') = Name (Meta c) \<longrightarrow> Namespace (Meta c') = Namespace (Meta c) \<longrightarrow>
        UID (Meta c') = UID (Meta c) \<longrightarrow>
        l_SetOwnerReference l c' = l_SetOwnerReference l c
        \<and> (\<lambda>rs. l_HasOwnerReference l rs c') = (\<lambda>rs. l_HasOwnerReference l rs c))"

lemma mem_owner_identity_lib: "owner_identity_lib mem_lib"
proof -
  have owner: "mem_same_owner c' = mem_same_owner c" if "Name (Meta c') = Name (Meta c)" for c c' :: capp
    using that by (intro ext) (simp add: mem_same_owner_def)
  have ref: "mem_owner_ref c' = mem_owner_ref c"
    if "Name (Meta c') = Name (Meta c)" "UID (Meta c') = UID (Meta c)" for c c' :: capp
    using that by (simp add: mem_owner_ref_def)
  show ?thesis
    unfolding owner_identity_lib_def
  proof (intro allI impI)
    fix c c' :: capp
    assume same: "Name (Meta c') = Name (Meta c)" "UID (Meta c') = UID (Meta c)"
    show "l_SetOwnerReference mem_lib c' = l_SetOwnerReference mem_lib c
        \<and> (\<lambda>rs. l_HasOwnerReference mem_lib rs c') = (\<lambda>rs. l_HasOwnerReference mem_lib rs c)"
      unfolding mem_lib_def lib.simps mem_set_owner_def owner [OF same(1)] ref [OF same]
      by (intro conjI refl)
  qed
qed

text \<open>What the managers and the status see of a Capp is not its status.\<close>

lemmas required_defs = ksvc_IsRequired_def nfs_IsRequired_def output_IsRequired_def
  isLogSpecRequired_def flow_IsRequired_def cert_IsRequired_def dm_IsRequired_def dns_IsRequired_def
  ping_IsRequired_def kafka_IsRequired_def

lemmas desired_defs = ksvc_prepareResource_def ksvcAnnotations_def setAutoScaler_def
  nfs_prepareResource_def nfs_prepareVolume_def output_prepareResource_def flow_prepareResource_def
  cert_prepareResource_def dm_desired_def dns_prepareResource_def dns_extra_def ping_desired_def
  ping_wanted_def ping_prepareResource_def kafka_desired_def kafka_wanted_def
  kafka_prepareResource_def

lemmas plan_merges = ksvc_plan_def nfs_plan_def output_plan_def flow_plan_def cert_plan_def
  dm_plan_def

definition same_request :: "capp \<Rightarrow> capp \<Rightarrow> bool" where
  "same_request c c' \<longleftrightarrow> Spec c' = Spec c \<and> key_of c' = key_of c \<and> UID (Meta c') = UID (Meta c)
     \<and> Labels (Meta c') = Labels (Meta c) \<and> Annotations (Meta c') = Annotations (Meta c)"

lemma same_requestD:
  assumes "same_request c c'"
  shows "Spec c' = Spec c" "Name (Meta c') = Name (Meta c)" "Namespace (Meta c') = Namespace (Meta c)"
    "UID (Meta c') = UID (Meta c)" "Labels (Meta c') = Labels (Meta c)"
    "Annotations (Meta c') = Annotations (Meta c)" "key_of c' = key_of c"
  using assms by (simp_all add: same_request_def key_of_def)

lemma status_only_same_request: "status_only c c' \<Longrightarrow> same_request c c'"
  by (simp add: same_request_def status_onlyD)

lemma settled_at_same_request:
  assumes lib: "owner_identity_lib l" and c: "same_request c c'"
  shows "settled_at k l g c' w = settled_at k l g c w"
proof -
  note same [simp] = same_requestD(1-3,5-7) [OF c]
  have has [simp]: "l_HasOwnerReference l rs c' = l_HasOwnerReference l rs c"
    and set [simp]: "l_SetOwnerReference l c' m = l_SetOwnerReference l c m" for rs m
    using lib same_requestD(2-4) [OF c] unfolding owner_identity_lib_def by metis+
  have [simp]: "owned_by l c' = owned_by l c" "managed_by c' = managed_by c"
    by (intro ext, simp add: owned_by_def managed_by_def)+
  have [simp]: "ksvc_IsRequired c' = ksvc_IsRequired c" "nfs_IsRequired c' = nfs_IsRequired c"
    "output_IsRequired c' = output_IsRequired c" "flow_IsRequired c' = flow_IsRequired c"
    "cert_IsRequired c' = cert_IsRequired c" "dm_IsRequired c' = dm_IsRequired c"
    "dns_IsRequired c' = dns_IsRequired c" "ping_IsRequired c' = ping_IsRequired c"
    "kafka_IsRequired c' = kafka_IsRequired c"
    unfolding required_defs same by (rule refl)+
  have [simp]: "ksvc_prepareResource l g c' = ksvc_prepareResource l g c"
    "nfs_prepareResource c' = nfs_prepareResource c"
    "output_prepareResource c' = output_prepareResource c"
    "flow_prepareResource c' = flow_prepareResource c"
    "cert_prepareResource g c' = cert_prepareResource g c" "dm_desired g c' w = dm_desired g c w"
    "dns_prepareResource g c' = dns_prepareResource g c" "dns_extra c' = dns_extra c"
    "ping_desired c' = ping_desired c" "kafka_desired c' = kafka_desired c"
    unfolding desired_defs same by (rule refl)+
  have [simp]: "dns_there l c' = dns_there l c"
    by (intro ext) (simp add: dns_there_def cong: option.case_cong)
  have [simp]: "in_place l c' = in_place l c"
    by (intro ext) (simp add: in_place_def cong: option.case_cong)
  have [simp]: "single_settled b l c' = single_settled b l c"
    "named_settled b l c' = named_settled b l c" "sources_settled b l c' = sources_settled b l c" for b
    by (intro ext, simp add: single_settled_def named_settled_def sources_settled_def)+
  show ?thesis
    by (cases k) (simp_all add: settled_defs plan_merges cong: result.case_cong)
qed

lemma buildVolumesStatusOf_ns:
  "Namespace (Meta c') = Namespace (Meta c) \<Longrightarrow>
     buildVolumesStatusOf cl c' vs = buildVolumesStatusOf cl c vs"
  by (induction vs) simp_all

lemma requiredBy_status_only:
  assumes "status_only c c'"
  shows "requiredBy (ManagerMap (resourceManagers l cl g)) n c'
    = requiredBy (ManagerMap (resourceManagers l cl g)) n c"
  using status_onlyD(1) [OF assms]
  by (simp add: requiredBy_def ManagerMap_def resourceManagers_def required_defs)

lemma SyncStatus_status_only:
  assumes "status_only c c'"
  shows "SyncStatus l cl c' (ManagerMap (resourceManagers l cl g)) g errs
    = SyncStatus l cl c (ManagerMap (resourceManagers l cl g)) g errs"
proof -
  note same = status_onlyD(1-3) [OF assms] requiredBy_status_only [OF assms]
    buildVolumesStatusOf_ns [OF status_onlyD(3) [OF assms]]
  show ?thesis
    unfolding SyncStatus_def observeStatus_def buildKnativeStatus_def buildRevisionsStatus_def
      buildLoggingStatus_def buildRouteStatus_def buildDomainMappingStatus_def
      buildDNSRecordStatus_get buildCertificateStatus_def routeObjectName_def
      buildVolumesStatus_def buildEventingStatus_def listOwnedEventSources_def
      buildCappConditions_def computeReadyCondition_def same
    by (rule refl)
qed

section \<open>Reconciling a live Capp\<close>

text \<open>The Capp and the configuration as \<open>Reconcile\<close> finds them.\<close>

definition stored :: "capp \<Rightarrow> capp_config \<Rightarrow> world \<Rightarrow> bool" where
  "stored c g w \<longleftrightarrow> tlookup (capps w) (key_of c) = Some c
     \<and> tlookup (cappconfigs w) (NamespacedName CappNS CappConfigName) = Some g"

lemma Reconcile_stored:
  assumes api: "reconcile_api l cl c w" and st: "stored c g w"
  shows "kget (c_capps cl) (nn_Namespace (key_of c)) (nn_Name (key_of c)) w = (Ok c, w)"
    and "GetCappConfig cl w = (Ok g, w)"
proof -
  have "kind_api (c_capps cl) capps capps_update" "kind_api (c_cappconfigs cl) cappconfigs cappconfigs_update"
    using api by (simp_all add: reconcile_api_def status_api_def)
  from kind_api.get_found [OF this(1)] kind_api.get_found [OF this(2)] st
  show "kget (c_capps cl) (nn_Namespace (key_of c)) (nn_Name (key_of c)) w = (Ok c, w)"
    and "GetCappConfig cl w = (Ok g, w)"
    by (simp_all add: stored_def key_of_def GetCappConfig_def)
qed

lemma Reconcile_live:
  assumes api: "reconcile_api l cl c w" and st: "stored c g w"
    and live: "DeletionTimestamp (Meta c) = None"
    and fin: "l_ContainsFinalizer l (Finalizers (Meta c)) cappCleanupFinalizer"
  shows "Reconcile l cl (key_of c) w =
     handle (SyncApplication l cl c (resourceManagers l cl g) g)
       (\<lambda>err. if hasConflictError err then ok \<lparr>RequeueAfter = RequeueTime\<rparr>
              else throw (wrap ''failed to sync Capp'' err))
       (\<lambda>_. ok \<lparr>RequeueAfter = 0\<rparr>) w"
  using Reconcile_stored [OF api st] live fin
  by (simp add: Reconcile_def handle_def andThen_def wrapErr_def Let_def handleResourceDeletion_def
      ensureFinalizer_def)

section \<open>Deleting a Capp\<close>

text \<open>
  An update of an object that is being deleted removes it once its last finalizer is gone.
\<close>

definition finalizer_api :: "client \<Rightarrow> bool" where
  "finalizer_api cl \<longleftrightarrow>
     (\<forall>w r r0. tlookup (capps w) (key_of r) = Some r0 \<longrightarrow> terminating r0 \<longrightarrow>
        ResourceVersion (Meta r) = ResourceVersion (Meta r0) \<longrightarrow>
        (\<exists>t x. kupdate (c_capps cl) r w = (Ok (), w\<lparr>capps := t\<rparr>)
           \<and> tlookup t = (tlookup (capps w))(key_of r := x)
           \<and> (Finalizers (Meta r) = [] \<longrightarrow> x = None)
           \<and> (\<forall>r'. x = Some r' \<longrightarrow> Finalizers (Meta r') = Finalizers (Meta r))))"

lemma mem_finalizer_api: "finalizer_api mem_client"
proof -
  have "\<exists>t x. mem_update capps capps_update r w = (Ok (), w\<lparr>capps := t\<rparr>)
      \<and> tlookup t = (tlookup (capps w))(key_of r := x)
      \<and> (Finalizers (Meta r) = [] \<longrightarrow> x = None)
      \<and> (\<forall>r'. x = Some r' \<longrightarrow> Finalizers (Meta r') = Finalizers (Meta r))"
    if r0: "tlookup (capps w) (key_of r) = Some r0" "terminating r0"
      "ResourceVersion (Meta r) = ResourceVersion (Meta r0)" for w :: world and r r0 :: capp
  proof (cases "Finalizers (Meta r) = []")
    case True
    with r0 show ?thesis
      by (intro exI [of _ "tremove (key_of r) (capps w)"] exI [of _ None])
        (simp add: mem_update_def tlookup_remove)
  next
    case False
    let ?r' = "r\<lparr>Status := Status r0, Meta := (Meta r)\<lparr>DeletionTimestamp :=
      DeletionTimestamp (Meta r0), ResourceVersion := ResourceVersion (Meta r) @ ''+''\<rparr>\<rparr>"
    have "key_of ?r' = key_of r" by (simp add: key_of_def)
    with False r0 tlookup_put [of ?r' "capps w"] show ?thesis
      by (intro exI [of _ "tput ?r' (capps w)"] exI [of _ "Some ?r'"])
        (simp add: mem_update_def Let_def)
  qed
  then show ?thesis by (simp add: finalizer_api_def)
qed

lemma Reconcile_deletes:
  assumes api: "reconcile_api l cl c w" and st: "stored c g w"
    and dead: "DeletionTimestamp (Meta c) \<noteq> None"
    and fin: "l_ContainsFinalizer l (Finalizers (Meta c)) cappCleanupFinalizer"
    and lib: "owner_refs_lib l" and fapi: "finalizer_api cl"
  shows "\<exists>w' w1. Reconcile l cl (key_of c) w = (Ok \<lparr>RequeueAfter = 0\<rparr>, w') \<and> all_cleaned l c w'
     \<and> (case tlookup (capps w') (key_of c) of
          None \<Rightarrow> True
        | Some c' \<Rightarrow> Finalizers (Meta c')
            = l_RemoveFinalizer l (Finalizers (Meta c)) cappCleanupFinalizer)
     \<and> tlookup (capps w1) (key_of c) = Some c
     \<and> kupdate (c_capps cl) (setFinalizers c (l_RemoveFinalizer l (Finalizers (Meta c)) cappCleanupFinalizer)) w1
         = (Ok (), w')"
proof -
  let ?fs = "l_RemoveFinalizer l (Finalizers (Meta c)) cappCleanupFinalizer"
  have mapi: "managers_api cl" using api by (simp add: reconcile_api_def)
  obtain w1 where w1: "finalizeCapp c (resourceManagers l cl g) w = (Ok (), w1)" "all_cleaned l c w1"
      "outside w w1"
    using finalizeCapp_cleans [OF mapi lib, of c g w] by blast
  have at: "tlookup (capps w1) (key_of (setFinalizers c ?fs)) = Some c"
    using st w1(3) by (simp add: stored_def outside_def setFinalizers_def key_of_def)
  have "terminating c" using dead by (simp add: terminating_def)
  from fapi [unfolded finalizer_api_def, rule_format, OF at this]
  obtain t x where t: "kupdate (c_capps cl) (setFinalizers c ?fs) w1 = (Ok (), w1\<lparr>capps := t\<rparr>)"
      "tlookup t = (tlookup (capps w1))(key_of (setFinalizers c ?fs) := x)"
      "\<forall>r'. x = Some r' \<longrightarrow> Finalizers (Meta r') = ?fs"
    by (auto simp: setFinalizers_def)
  have key: "key_of (setFinalizers c ?fs) = key_of c" by (simp add: setFinalizers_def key_of_def)
  have "removeFinalizer l cl c w1 = (Ok (), w1\<lparr>capps := t\<rparr>)"
    using t(1) by (simp add: removeFinalizer_def UpdateResource_def handle_Ok wrapErr_Ok)
  then have "Reconcile l cl (key_of c) w = (Ok \<lparr>RequeueAfter = 0\<rparr>, w1\<lparr>capps := t\<rparr>)"
    using Reconcile_stored [OF api st] dead fin w1(1)
    by (simp add: Reconcile_def handle_def andThen_def wrapErr_def Let_def
        handleResourceDeletion_def)
  moreover have "all_cleaned l c (w1\<lparr>capps := t\<rparr>)" using w1(2) by (simp add: all_cleaned_def)
  ultimately show ?thesis
    using t key at by (intro exI [of _ "w1\<lparr>capps := t\<rparr>"] exI [of _ w1]) (auto split: option.split)
qed

section \<open>The sample cluster\<close>

lemma mem_managers_api: "managers_api mem_client"
  using mem_ksvcs.kind_api_axioms mem_nfspvcs.kind_api_axioms mem_outputs.kind_api_axioms
    mem_flows.kind_api_axioms mem_certificates.kind_api_axioms mem_domainmappings.kind_api_axioms
    mem_secrets.kind_api_axioms mem_cnamerecords.kind_api_axioms mem_pingsources.kind_api_axioms
    mem_kafkasources.kind_api_axioms
  by (simp add: managers_api_def ksvc_api_def nfs_api_def output_api_def flow_api_def cert_api_def
      dm_api_def dns_api_def ping_api_def kafka_api_def)

lemma mem_reconcile_api:
  assumes "length (Name (Meta c)) \<le> 63" "knrevisions w = []"
  shows "reconcile_api mem_lib mem_client c w"
  using assms mem_managers_api mem_status_api mem_cappconfigs.kind_api_axioms
    mem_knrevisions.kind_api_axioms
  by (simp add: reconcile_api_def mem_lib_def found_in_def)

lemma mem_reconcile_lib: "reconcile_lib mem_lib"
  using mem_owner_refs_lib mem_sort_lib mem_condition_lib
  by (simp add: reconcile_lib_def sync_libs_def)

lemma mem_finalizer_lib: "l_ContainsFinalizer mem_lib (l_AddFinalizer mem_lib fs f) f"
  by (simp add: mem_lib_def)

lemma sample_cleanup_finalizer:
  "l_ContainsFinalizer mem_lib (Finalizers (Meta sampleCapp)) cappCleanupFinalizer"
  by (simp add: mem_lib_def cappCleanupFinalizer_def)

lemma sample_record_name: "GenerateRecordName ''shop.z.io'' ''z.io.'' = Ok ''shop''"
  by (simp add: GenerateRecordName_def Let_def TrimSuffix_def HasSuffix_def slice_to_def)

lemma sample_dns: "\<exists>d. dns_prepareResource sampleConfig sampleCapp = Ok d"
proof -
  have "rt_Hostname (cs_RouteSpec (Spec sampleCapp)) = ''shop.z.io''"
    "dns_Zone (cfg_DNSConfig (Spec sampleConfig)) = ''z.io.''"
    by (simp_all add: sample_defs sampleConfig_def)
  then show ?thesis by (simp add: dns_prepareResource_def Let_def sample_record_name)
qed

lemma sample_distinct:
  "distinct (map nfs_Name (cs_NFSVolumes (Spec sampleCapp)))"
  "distinct (map key_of (ping_desired sampleCapp))" "distinct (map key_of (kafka_desired sampleCapp))"
  by (simp_all add: sample_defs ping_desired_def ping_wanted_def kafka_desired_def kafka_wanted_def
      map_filter_def)

lemma sample_calm: "all_calm sampleConfig sampleCapp sampleWorld"
proof -
  have "calm_at k sampleConfig sampleCapp sampleWorld" for k
    using sample_dns sample_distinct
    by (cases k)
      (auto simp: calm_defs single_calm_def named_calm_def sources_calm_def managed_by_def)
  then show ?thesis by (simp add: all_calm_def)
qed

lemma sample_sources_clear: "sources_clear sampleCapp" "cs_State (Spec sampleCapp) \<noteq> []"
  by (simp_all add: sources_clear_def sample_defs)

lemma sample_is_stored: "stored sampleCapp sampleConfig sampleWorld"
  by (simp add: stored_def)

definition dyingCapp :: capp where
  "dyingCapp = sampleCapp\<lparr>Meta := (Meta sampleCapp)\<lparr>DeletionTimestamp := Some 1\<rparr>\<rparr>"

definition dyingWorld :: world where
  "dyingWorld = sampleWorld\<lparr>capps := [dyingCapp]\<rparr>"

lemma dying_fields [simp]:
  "key_of dyingCapp = NamespacedName ''team'' ''web''" "DeletionTimestamp (Meta dyingCapp) = Some 1"
  "Name (Meta dyingCapp) = ''web''" "Finalizers (Meta dyingCapp) = Finalizers (Meta sampleCapp)"
  by (simp_all add: dyingCapp_def key_of_def)

lemma dying_hypotheses:
  "reconcile_api mem_lib mem_client dyingCapp dyingWorld" "stored dyingCapp sampleConfig dyingWorld"
  "l_ContainsFinalizer mem_lib (Finalizers (Meta dyingCapp)) cappCleanupFinalizer"
  using sample_cleanup_finalizer
  by (auto simp: stored_def dyingWorld_def tlookup_Cons intro!: mem_reconcile_api)

lemma dying_reconciled:
  "\<exists>w'. Reconcile mem_lib mem_client (NamespacedName ''team'' ''web'') dyingWorld
       = (Ok \<lparr>RequeueAfter = 0\<rparr>, w')"
  using Reconcile_deletes [OF dying_hypotheses(1,2) _ dying_hypotheses(3) mem_owner_refs_lib
      mem_finalizer_api] by auto

section \<open>Properties\<close>

lemma calm_at_capps [simp]: "calm_at k g c (w\<lparr>capps := t\<rparr>) = calm_at k g c w"
  by (cases k) (simp_all add: calm_defs dm_desired_def cong: conj_cong split: result.split)

lemma reconcile_api_capps [simp]: "reconcile_api l cl c (w\<lparr>capps := t\<rparr>) = reconcile_api l cl c w"
  by (simp add: reconcile_api_def)

text \<open>The finalizer functions of the library: what is added is contained.\<close>

definition finalizer_lib :: "lib \<Rightarrow> bool" where
  "finalizer_lib l \<longleftrightarrow> (\<forall>fs f. l_ContainsFinalizer l (l_AddFinalizer l fs f) f)"

text \<open>The step that makes sure of the finalizer, and the world the managers then start in.\<close>

lemma ensureFinalizer_run:
  assumes api: "reconcile_api l cl c w" and fl: "finalizer_lib l"
    and st: "tlookup (capps w) (key_of c) = Some c" and live: "DeletionTimestamp (Meta c) = None"
  obtains t c0 where "ensureFinalizer l cl c w = (Ok (), w\<lparr>capps := t\<rparr>)"
    "tlookup t (key_of c) = Some c0" "Spec c0 = Spec c"
    "l_ContainsFinalizer l (Finalizers (Meta c0)) cappCleanupFinalizer"
    "c0 = c \<and> t = capps w \<or> (\<exists>fs. kupdate (c_capps cl) (setFinalizers c fs) w = (Ok (), w\<lparr>capps := t\<rparr>)
       \<and> persisted (setFinalizers c fs) c0)"
proof (cases "l_ContainsFinalizer l (Finalizers (Meta c)) cappCleanupFinalizer")
  case True
  show ?thesis
    by (rule that [of "capps w" c]) (use True st in \<open>simp_all add: ensureFinalizer_def\<close>)
next
  case False
  let ?c = "setFinalizers c (l_AddFinalizer l (Finalizers (Meta c)) cappCleanupFinalizer)"
  have k: "key_of ?c = key_of c" by (simp add: setFinalizers_def key_of_def)
  have capi: "kind_api (c_capps cl) capps capps_update"
    using api by (simp add: reconcile_api_def status_api_def)
  have "ResourceVersion (Meta ?c) = ResourceVersion (Meta c)" "\<not> terminating c"
    using live by (simp_all add: setFinalizers_def terminating_def)
  then obtain t c0 where t: "kupdate (c_capps cl) ?c w = (Ok (), capps_update (\<lambda>_. t) w)"
      "persisted ?c c0" "tlookup t = (tlookup (capps w))(key_of c \<mapsto> c0)"
    using kind_api.update_current [OF capi, of w ?c c] st k by auto
  show ?thesis
  proof (rule that [of t c0])
    show "ensureFinalizer l cl c w = (Ok (), w\<lparr>capps := t\<rparr>)"
      using False t(1) by (simp add: ensureFinalizer_def UpdateResource_def wrapErr_Ok)
    show "l_ContainsFinalizer l (Finalizers (Meta c0)) cappCleanupFinalizer"
      using t(2) fl by (simp add: persisted_def setFinalizers_def finalizer_lib_def)
    show "c0 = c \<and> t = capps w \<or> (\<exists>fs. kupdate (c_capps cl) (setFinalizers c fs) w = (Ok (), w\<lparr>capps := t\<rparr>)
        \<and> persisted (setFinalizers c fs) c0)"
      using t(1,2) by blast
  qed (use t in \<open>simp_all add: persisted_def setFinalizers_def\<close>)
qed

lemma Reconcile_run:
  assumes api: "reconcile_api l cl c w" and st: "stored c g w"
    and live: "DeletionTimestamp (Meta c) = None"
    and fin: "ensureFinalizer l cl c w = (Ok (), w1)"
    and sync: "SyncApplication l cl c (resourceManagers l cl g) g w1 = (Ok (), w2)"
  shows "Reconcile l cl (key_of c) w = (Ok \<lparr>RequeueAfter = 0\<rparr>, w2)"
  using Reconcile_stored [OF api st] live fin sync
  by (simp add: Reconcile_def handle_def andThen_def wrapErr_def Let_def handleResourceDeletion_def)

text \<open>
  C1: a run of \<open>Reconcile\<close> on a live Capp puts everything in place. With the API at hand and
  nothing in the way, one run succeeds without asking to be run again; afterwards every
  manager's objects are what it prepares from the Capp and the configuration, with the
  Capp as their owner, and those that are not required are gone; the stored Capp has the
  cleanup finalizer, its spec is unchanged, and its status holds the Ready condition that
  follows from the sub-statuses it reports.
\<close>

theorem Reconcile_settles:
  assumes api: "reconcile_api l cl c w" and lib: "reconcile_lib l" and fl: "finalizer_lib l"
    and st: "stored c g w" and live: "DeletionTimestamp (Meta c) = None"
    and calm: "all_calm g c w" and clear: "sources_clear c" and on: "cs_State (Spec c) \<noteq> []"
  shows "\<exists>w' c'. Reconcile l cl (key_of c) w = (Ok \<lparr>RequeueAfter = 0\<rparr>, w')
     \<and> all_settled l g c w'
     \<and> tlookup (capps w') (key_of c) = Some c' \<and> Spec c' = Spec c
     \<and> l_ContainsFinalizer l (Finalizers (Meta c')) cappCleanupFinalizer
     \<and> (\<exists>cond. computeReadyCondition (Status c') c (ManagerMap (resourceManagers l cl g)) [] = Ok cond
          \<and> (\<exists>x \<in> set (cst_Conditions (Status c')). cond_Type x = cond_Type cond
             \<and> cond_Status x = cond_Status cond \<and> cond_Reason x = cond_Reason cond
             \<and> cond_Message x = cond_Message cond))"
proof -
  have "tlookup (capps w) (key_of c) = Some c" using st by (simp add: stored_def)
  from ensureFinalizer_run [OF api fl this live] obtain t c0 where
    fin: "ensureFinalizer l cl c w = (Ok (), w\<lparr>capps := t\<rparr>)"
      "tlookup t (key_of c) = Some c0" "Spec c0 = Spec c"
      "l_ContainsFinalizer l (Finalizers (Meta c0)) cappCleanupFinalizer" by metis
  have "reconcile_api l cl c (w\<lparr>capps := t\<rparr>)" "all_calm g c (w\<lparr>capps := t\<rparr>)"
    using api calm by (simp_all add: all_calm_def)
  from SyncApplication_settles [OF this(1) lib live this(2) clear on, of c0] fin(2)
  obtain w' c' where w': "SyncApplication l cl c (resourceManagers l cl g) g (w\<lparr>capps := t\<rparr>) = (Ok (), w')"
      "all_settled l g c w'" "tlookup (capps w') (key_of c) = Some c'" "status_only c0 c'"
      "\<exists>cond. computeReadyCondition (Status c') c (ManagerMap (resourceManagers l cl g)) [] = Ok cond
          \<and> (\<exists>x \<in> set (cst_Conditions (Status c')). cond_Type x = cond_Type cond
             \<and> cond_Status x = cond_Status cond \<and> cond_Reason x = cond_Reason cond
             \<and> cond_Message x = cond_Message cond)" by auto
  from Reconcile_run [OF api st live fin(1) w'(1)] w'(2,3,5) fin(3,4) status_onlyD(1,7) [OF w'(4)]
  show ?thesis by (intro exI [of _ w'] exI [of _ c']) simp
qed

theorem Reconcile_settles_witness:
  "\<exists>w'. Reconcile mem_lib mem_client (NamespacedName ''team'' ''web'') sampleWorld
       = (Ok \<lparr>RequeueAfter = 0\<rparr>, w')
     \<and> all_settled mem_lib sampleConfig sampleCapp w'"
proof -
  have "reconcile_api mem_lib mem_client sampleCapp sampleWorld" by (rule mem_reconcile_api) simp_all
  from Reconcile_settles [OF this mem_reconcile_lib _ sample_is_stored _ sample_calm sample_sources_clear]
    mem_finalizer_lib
  show ?thesis by (simp add: finalizer_lib_def) blast
qed

lemma Reconcile_first:
  assumes api: "reconcile_api l cl c w" and lib: "reconcile_lib l" and own: "owner_identity_lib l"
    and st: "stored c g w" and live: "DeletionTimestamp (Meta c) = None"
    and fin: "l_ContainsFinalizer l (Finalizers (Meta c)) cappCleanupFinalizer"
    and calm: "all_calm g c w" and clear: "sources_clear c" and on: "cs_State (Spec c) \<noteq> []"
  obtains w' c' where "Reconcile l cl (key_of c) w = (Ok \<lparr>RequeueAfter = 0\<rparr>, w')"
    "stored c' g w'" "status_only c c'" "all_settled l g c' w'" "reconcile_api l cl c' w'"
    "\<And>ev. SyncStatus l cl c (ManagerMap (resourceManagers l cl g)) g [] (w'\<lparr>events := ev\<rparr>)
       = (Ok (), w'\<lparr>events := ev\<rparr>)"
proof -
  let ?ms = "resourceManagers l cl g"
  have c: "tlookup (capps w) (key_of c) = Some c" using st by (simp add: stored_def)
  obtain w' c' where w': "SyncApplication l cl c ?ms g w = (Ok (), w')" "all_settled l g c w'"
      "tlookup (capps w') (key_of c) = Some c'" "status_only c c'" "cappconfigs w' = cappconfigs w"
      "knrevisions w' = knrevisions w"
      "\<And>ev. SyncStatus l cl c (ManagerMap ?ms) g [] (w'\<lparr>events := ev\<rparr>) = (Ok (), w'\<lparr>events := ev\<rparr>)"
    using SyncApplication_settles [OF api lib live calm clear on c] by blast
  note c' = status_onlyD [OF w'(4)]
  show ?thesis
  proof (rule that [OF _ _ w'(4) _ _ w'(7)])
    show "Reconcile l cl (key_of c) w = (Ok \<lparr>RequeueAfter = 0\<rparr>, w')"
      using Reconcile_run [OF api st live _ w'(1)] fin by (simp add: ensureFinalizer_def)
    show "reconcile_api l cl c' w'" using api w'(6) c'(2,3) by (simp add: reconcile_api_def)
    show "stored c' g w'" using w'(3,5) c'(9) st by (simp add: stored_def)
    show "all_settled l g c' w'"
      using w'(2) settled_at_same_request [OF own status_only_same_request [OF w'(4)]]
      by (simp add: all_settled_def)
  qed
qed

text \<open>
  C3: \<open>Reconcile\<close> comes to rest. The run after a successful one, on the Capp as that one left
  it, changes no object of the cluster and does not write the status again: all it may do
  is record events.
\<close>

theorem Reconcile_rests:
  assumes api: "reconcile_api l cl c w" and lib: "reconcile_lib l" and own: "owner_identity_lib l"
    and st: "stored c g w" and live: "DeletionTimestamp (Meta c) = None"
    and fin: "l_ContainsFinalizer l (Finalizers (Meta c)) cappCleanupFinalizer"
    and calm: "all_calm g c w" and clear: "sources_clear c" and on: "cs_State (Spec c) \<noteq> []"
  shows "\<exists>w' ev. Reconcile l cl (key_of c) w = (Ok \<lparr>RequeueAfter = 0\<rparr>, w')
     \<and> Reconcile l cl (key_of c) w' = (Ok \<lparr>RequeueAfter = 0\<rparr>, w'\<lparr>events := ev\<rparr>)"
proof -
  let ?ms = "resourceManagers l cl g"
  obtain w' c' where first: "Reconcile l cl (key_of c) w = (Ok \<lparr>RequeueAfter = 0\<rparr>, w')"
      and st': "stored c' g w'" and only: "status_only c c'" and settled: "all_settled l g c' w'"
      and api': "reconcile_api l cl c' w'"
      and written: "\<And>ev. SyncStatus l cl c (ManagerMap ?ms) g [] (w'\<lparr>events := ev\<rparr>) = (Ok (), w'\<lparr>events := ev\<rparr>)"
    by (rule Reconcile_first [OF assms]) blast
  note c' = status_onlyD [OF only]
  have live': "DeletionTimestamp (Meta c') = None" using live c'(8) by simp
  have mapi: "managers_api cl" using api by (simp add: reconcile_api_def)
  obtain ev where ev: "manageAll ?ms c' w' = (Ok [], w'\<lparr>events := ev\<rparr>)"
    using manageAll_stable [OF mapi live', of manager_kinds l g w'] settled
    by (auto simp: resourceManagers_kinds all_settled_def)
  then have "SyncApplication l cl c' ?ms g w' = (Ok (), w'\<lparr>events := ev\<rparr>)"
    using written SyncStatus_status_only [OF only]
    by (simp add: SyncApplication_def andThen_Ok NewAggregate_def)
  then have "Reconcile l cl (key_of c') w' = (Ok \<lparr>RequeueAfter = 0\<rparr>, w'\<lparr>events := ev\<rparr>)"
    using Reconcile_run [OF api' st' live'] fin c'(7) by (simp add: ensureFinalizer_def)
  with first c'(9) show ?thesis by auto
qed

theorem Reconcile_rests_witness:
  "\<exists>w' ev. Reconcile mem_lib mem_client (NamespacedName ''team'' ''web'') sampleWorld
       = (Ok \<lparr>RequeueAfter = 0\<rparr>, w')
     \<and> Reconcile mem_lib mem_client (NamespacedName ''team'' ''web'') w'
       = (Ok \<lparr>RequeueAfter = 0\<rparr>, w'\<lparr>events := ev\<rparr>)"
proof -
  have "reconcile_api mem_lib mem_client sampleCapp sampleWorld" by (rule mem_reconcile_api) simp_all
  from Reconcile_rests [OF this mem_reconcile_lib mem_owner_identity_lib sample_is_stored _
      sample_cleanup_finalizer sample_calm sample_sources_clear]
  show ?thesis by simp
qed

text \<open>
  C5: a run of \<open>Reconcile\<close> on a Capp that is being deleted cleans up before it lets go. It
  succeeds, afterwards no object of the Capp is left in any of the managers' kinds (but for
  those the garbage collector will take with the owner, and those held by finalizers of their
  own), and the Capp itself is gone or has lost exactly the cleanup finalizer.
\<close>

theorem Reconcile_deleting:
  assumes api: "reconcile_api l cl c w" and st: "stored c g w"
    and dead: "DeletionTimestamp (Meta c) \<noteq> None"
    and fin: "l_ContainsFinalizer l (Finalizers (Meta c)) cappCleanupFinalizer"
    and lib: "owner_refs_lib l" and fapi: "finalizer_api cl"
  shows "\<exists>w'. Reconcile l cl (key_of c) w = (Ok \<lparr>RequeueAfter = 0\<rparr>, w') \<and> all_cleaned l c w'
     \<and> (case tlookup (capps w') (key_of c) of
          None \<Rightarrow> True
        | Some c' \<Rightarrow> Finalizers (Meta c')
            = l_RemoveFinalizer l (Finalizers (Meta c)) cappCleanupFinalizer)"
  using Reconcile_deletes [OF assms] by blast

theorem Reconcile_deleting_witness:
  "\<exists>w'. Reconcile mem_lib mem_client (NamespacedName ''team'' ''web'') dyingWorld
       = (Ok \<lparr>RequeueAfter = 0\<rparr>, w')
     \<and> all_cleaned mem_lib dyingCapp w'"
  using Reconcile_deleting [OF dying_hypotheses(1,2) _ dying_hypotheses(3) mem_owner_refs_lib
      mem_finalizer_api] by auto

end
