(* ===== verification/WatchProperties.thy ===== *)
theory WatchProperties
  imports CappReconcile CappRevisionController
begin

text \<open>
  What the watches guarantee: which changes of the objects that the Capp controller manages
  bring their Capp back into its queue, which do not, and which writes of a Capp wake the two
  controllers.
\<close>

section \<open>Where an event leads\<close>

text \<open>A stored object that a manager made from \<open>d\<close>, whatever its spec and status are by now.\<close>

definition same_identity :: "('sp, 'st) resource \<Rightarrow> ('sp, 'st) resource \<Rightarrow> bool" where
  "same_identity d r \<longleftrightarrow> key_of r = key_of d \<and> Labels (Meta r) = Labels (Meta d)"

text \<open>The object is created or deleted, or its spec is edited.\<close>

definition drift :: "watch_lib \<Rightarrow> ('sp, 'st) resource \<Rightarrow> ('sp, 'st) resource watch_event \<Rightarrow> bool" where
  "drift wl d e \<longleftrightarrow> generationChanged wl e \<and> (\<forall>r \<in> set (event_objects e). same_identity d r)"

text \<open>Its status is written.\<close>

definition status_write ::
  "('sp, 'st) resource \<Rightarrow> ('sp, 'st) resource \<Rightarrow> ('sp, 'st) resource \<Rightarrow> bool" where
  "status_write d old new \<longleftrightarrow>
     Generation (Meta new) = Generation (Meta old) \<and> same_identity d old \<and> same_identity d new"

definition labelled_for :: "capp \<Rightarrow> ('sp, 'st) resource \<Rightarrow> bool" where
  "labelled_for c d \<longleftrightarrow> Namespace (Meta d) = Namespace (Meta c)
     \<and> fmlookup (Labels (Meta d)) CappResourceKey = Some (Name (Meta c))"

lemma findCappFromLabels_identity:
  assumes "labelled_for c d" and "Name (Meta c) \<noteq> []" and "same_identity d r"
  shows "findCappFromLabels r = [key_of c]"
  using assms
  by (auto simp: labelled_for_def same_identity_def findCappFromLabels_def key_of_def)

lemma findCappFromEvent_identity:
  "key_of d = key_of c \<Longrightarrow> same_identity d r \<Longrightarrow> findCappFromEvent r = [key_of c]"
  by (simp add: same_identity_def findCappFromEvent_def key_of_def)

lemma watch_same:
  assumes "watch_contract wl" and "predicate e"
    and "\<And>r. r \<in> set (event_objects e) \<Longrightarrow> mapFunc r = [k]"
  shows "watch wl predicate mapFunc e = [k]"
proof -
  have "set (concat (map mapFunc (event_objects e))) = {k}"
    using assms(3) by (cases e) simp_all
  with assms(2) enqueue_same [OF assms(1)] show ?thesis by (simp add: watch_def)
qed

lemma watch_filtered: "\<not> predicate e \<Longrightarrow> watch wl predicate mapFunc e = []"
  by (simp add: watch_def)

lemma watch_labels_drift:
  assumes "watch_contract wl" and "labelled_for c d" and "Name (Meta c) \<noteq> []" and "drift wl d e"
    and "generationChanged wl e \<Longrightarrow> predicate e"
  shows "watch wl predicate findCappFromLabels e = [key_of c]"
  using assms findCappFromLabels_identity [OF assms(2,3)]
  by (intro watch_same) (simp_all add: drift_def)

lemma watch_name_drift:
  assumes "watch_contract wl" and "key_of d = key_of c" and "drift wl d e"
    and "generationChanged wl e \<Longrightarrow> predicate e"
  shows "watch wl predicate findCappFromEvent e = [key_of c]"
  using assms findCappFromEvent_identity [OF assms(2)]
  by (intro watch_same) (simp_all add: drift_def)

lemma watch_labels_status:
  assumes "watch_contract wl" and "labelled_for c d" and "Name (Meta c) \<noteq> []"
    and "status_write d old new"
  shows "watch wl predicate findCappFromLabels (UpdateEvent old new)
    = (if predicate (UpdateEvent old new) then [key_of c] else [])"
  using assms(4) findCappFromLabels_identity [OF assms(2,3)]
  by (auto simp: watch_filtered status_write_def intro!: watch_same [OF assms(1)])

lemma watch_name_status:
  assumes "watch_contract wl" and "key_of d = key_of c" and "status_write d old new"
  shows "watch wl predicate findCappFromEvent (UpdateEvent old new)
    = (if predicate (UpdateEvent old new) then [key_of c] else [])"
  using assms(3) findCappFromEvent_identity [OF assms(2)]
  by (auto simp: watch_filtered status_write_def intro!: watch_same [OF assms(1)])

lemma status_write_generation:
  "status_write d old new \<Longrightarrow> Generation (Meta new) = Generation (Meta old)"
  by (simp add: status_write_def)

text \<open>The status of an object's Ready condition, empty if it has none.\<close>

definition ready_status :: "('sp, conditioned_status) resource \<Rightarrow> string" where
  "ready_status r =
     (case find (\<lambda>c. cond_Type c = ''Ready'') (st_Conditions (Status r)) of
        Some c \<Rightarrow> cond_Status c | None \<Rightarrow> [])"

lemma readyChanged_iff: "readyChanged old new \<longleftrightarrow> ready_status old \<noteq> ready_status new"
proof -
  have "findCondition t (conditionPairs cs)
      = (case find (\<lambda>c. cond_Type c = t) cs of Some c \<Rightarrow> cond_Status c | None \<Rightarrow> [])" for t cs
    by (induction cs) (simp_all add: conditionPairs_def)
  then show ?thesis by (simp add: readyChanged_def conditionStatusChanged_def ready_status_def)
qed

lemma certificate_readyChanged:
  "certificateWatchPredicate wl (UpdateEvent old new)
     \<longleftrightarrow> generationChanged wl (UpdateEvent old new) \<or> readyChanged old new"
  by (simp add: certificateWatchPredicate_def readyChanged_def certificateConditions_def
      conditionPairs_def)

lemma capp_update_events:
  assumes "watch_contract wl"
  shows "RevisionSetupWithManager wl (UpdateEvent old new) =
      (if Generation (Meta new) = Generation (Meta old) \<and> Annotations (Meta new) = Annotations (Meta old)
          \<and> Labels (Meta new) = Labels (Meta old) then [] else [key_of new])"
  by (simp add: RevisionSetupWithManager_def revisionWatchPredicate_def watch_contract_update [OF assms])

section \<open>The objects the managers make\<close>

lemma labelled_prepared:
  "labelled_for c (cert_prepareResource g c)"
  "labelled_for c (dm_desired g c w)"
  "labelled_for c (ping_prepareResource c source pc)"
  "labelled_for c (kafka_prepareResource c source kc)"
  by (simp_all add: labelled_for_def cert_prepareResource_def dm_desired_def ping_prepareResource_def
      kafka_prepareResource_def newMeta_def Let_def)

lemma capp_keys_differ: "CappNamespaceKey \<noteq> CappResourceKey"
  by (simp add: CappResourceKey_def CappNamespaceKey_def)

lemma labelled_dns: "dns_prepareResource g c = Ok d \<Longrightarrow> labelled_for c d"
  by (auto simp: dns_prepareResource_def Let_def labelled_for_def newMeta_def
      capp_keys_differ split: result.splits)

lemma named_prepared:
  "key_of (ksvc_prepareResource l g c) = key_of c"
  "key_of (flow_prepareResource c) = key_of c"
  "output_IsRequired c \<Longrightarrow> key_of (output_prepareResource c) = key_of c"
  by (auto simp: ksvc_prepareResource_def flow_prepareResource_def output_prepareResource_def
      output_IsRequired_def isLogSpecRequired_def isSupportedLogType_def newMeta_def key_of_def Let_def
      split: option.splits if_splits)

section \<open>Properties\<close>

text \<open>
  C22: which drift is noticed. When the Knative service, the SyslogNGOutput or SyslogNGFlow, the
  certificate, the domain mapping or an event source that the managers made for the Capp is
  deleted, created or has its spec edited by anyone, the Capp it was made for is reconciled, and
  no other. Of the CNAMERecord this holds for creation and deletion only: an update of it, an
  edit of its spec included, brings the Capp back if the status of its Ready or Synced condition
  changed with it, and not otherwise. What happens to the objects of the other kinds, the NfsPvcs
  and the TLS secrets, is never noticed.
\<close>

theorem drift_is_noticed:
  assumes "watch_contract wl" and "Name (Meta c) \<noteq> []"
  shows "(\<forall>e. drift wl (ksvc_prepareResource l g c) e \<longrightarrow>
            SetupWithManager wl cl (ServiceEvent e) w = (Ok [key_of c], w))
     \<and> (\<forall>e. output_IsRequired c \<longrightarrow> drift wl (output_prepareResource c) e \<longrightarrow>
            SetupWithManager wl cl (SyslogNGOutputEvent e) w = (Ok [key_of c], w))
     \<and> (\<forall>e. drift wl (flow_prepareResource c) e \<longrightarrow>
            SetupWithManager wl cl (SyslogNGFlowEvent e) w = (Ok [key_of c], w))
     \<and> (\<forall>e. drift wl (cert_prepareResource g c) e \<longrightarrow>
            SetupWithManager wl cl (CertificateEvent e) w = (Ok [key_of c], w))
     \<and> (\<forall>e v. drift wl (dm_desired g c v) e \<longrightarrow>
            SetupWithManager wl cl (DomainMappingEvent e) w = (Ok [key_of c], w))
     \<and> (\<forall>d r. dns_prepareResource g c = Ok d \<longrightarrow> same_identity d r \<longrightarrow>
            SetupWithManager wl cl (CNAMERecordEvent (DeleteEvent r)) w = (Ok [key_of c], w)
            \<and> SetupWithManager wl cl (CNAMERecordEvent (CreateEvent r)) w = (Ok [key_of c], w))
     \<and> (\<forall>e s pc. drift wl (ping_prepareResource c s pc) e \<longrightarrow>
            SetupWithManager wl cl (PingSourceEvent e) w = (Ok [key_of c], w))
     \<and> (\<forall>e s kc. drift wl (kafka_prepareResource c s kc) e \<longrightarrow>
            SetupWithManager wl cl (KafkaSourceEvent e) w = (Ok [key_of c], w))
     \<and> (\<forall>d old new. dns_prepareResource g c = Ok d \<longrightarrow> same_identity d old \<longrightarrow> same_identity d new \<longrightarrow>
            SetupWithManager wl cl (CNAMERecordEvent (UpdateEvent old new)) w
              = (Ok (if cnameConditionStatus old ''Ready'' = cnameConditionStatus new ''Ready''
                      \<and> cnameConditionStatus old ''Synced'' = cnameConditionStatus new ''Synced''
                     then [] else [key_of c]), w))
     \<and> SetupWithManager wl cl OtherKindEvent w = (Ok [], w)"
proof -
  note labels = watch_labels_drift [OF assms(1) labelled_prepared(1) assms(2)]
    watch_labels_drift [OF assms(1) labelled_prepared(2) assms(2)] watch_labels_drift [OF assms(1) labelled_prepared(3) assms(2)]
    watch_labels_drift [OF assms(1) labelled_prepared(4) assms(2)]
  note names = watch_name_drift [OF assms(1) named_prepared(1)] watch_name_drift [OF assms(1) named_prepared(2)]
    watch_name_drift [OF assms(1) named_prepared(3)]
  have dns: "watch wl cnameRecordWatchPredicate findCappFromLabels e = [key_of c]"
    if "dns_prepareResource g c = Ok d" "same_identity d r" "e = DeleteEvent r \<or> e = CreateEvent r"
    for e d r
    using findCappFromLabels_identity [OF labelled_dns [OF that(1)] assms(2) that(2)] that(3)
    by (intro watch_same [OF assms(1)]) (auto simp: cnameRecordWatchPredicate_def)
  have edit: "watch wl cnameRecordWatchPredicate findCappFromLabels (UpdateEvent old new)
      = (if cnameConditionStatus old ''Ready'' = cnameConditionStatus new ''Ready''
            \<and> cnameConditionStatus old ''Synced'' = cnameConditionStatus new ''Synced''
         then [] else [key_of c])"
    if "dns_prepareResource g c = Ok d" "same_identity d old" "same_identity d new" for d old new
    using findCappFromLabels_identity [OF labelled_dns [OF that(1)] assms(2)] that(2,3)
    by (auto simp: watch_filtered cnameRecordWatchPredicate_def cnameRecordConditionChanged_def
        intro!: watch_same [OF assms(1)])
  show ?thesis
    by (intro conjI allI impI)
      (simp_all add: labels names dns edit knativeServiceWatchPredicate_def
        certificateWatchPredicate_def domainMappingWatchPredicate_def pingSourceWatchPredicate_def
        kafkaSourceWatchPredicate_def)
qed

theorem drift_is_noticed_witness:
  "SetupWithManager mem_watch_lib mem_client (CertificateEvent (DeleteEvent (cert_prepareResource sampleConfig sampleCapp)))
     sampleWorld = (Ok [NamespacedName ''team'' ''web''], sampleWorld)"
proof -
  have "drift mem_watch_lib (cert_prepareResource sampleConfig sampleCapp)
      (DeleteEvent (cert_prepareResource sampleConfig sampleCapp))"
    by (simp add: drift_def watch_contract_other [OF mem_watch_contract] same_identity_def)
  with drift_is_noticed [OF mem_watch_contract, of sampleCapp mem_lib sampleConfig mem_client sampleWorld]
  show ?thesis by simp
qed

text \<open>
  C23: which status writes bring the Capp back. For the event sources, the domain mapping and
  the certificate it is a change of the Ready condition's status, for the DNS record also of
  the Synced one, for the Knative service a new latest revision, and nothing else; a write to
  the status of the logging objects, from which the Capp's own Ready condition is computed,
  never does. A write to the status of the Capp
  itself wakes neither controller, a change of its spec, labels or annotations wakes both.
\<close>

theorem status_writes_noticed:
  assumes "watch_contract wl" and "Name (Meta c) \<noteq> []"
  shows "(\<forall>old new. status_write (cert_prepareResource g c) old new \<longrightarrow>
            SetupWithManager wl cl (CertificateEvent (UpdateEvent old new)) w
              = (Ok (if ready_status old \<noteq> ready_status new then [key_of c] else []), w))
     \<and> (\<forall>old new v. status_write (dm_desired g c v) old new \<longrightarrow>
            SetupWithManager wl cl (DomainMappingEvent (UpdateEvent old new)) w
              = (Ok (if ready_status old \<noteq> ready_status new then [key_of c] else []), w))
     \<and> (\<forall>old new s pc. status_write (ping_prepareResource c s pc) old new \<longrightarrow>
            SetupWithManager wl cl (PingSourceEvent (UpdateEvent old new)) w
              = (Ok (if ready_status old \<noteq> ready_status new then [key_of c] else []), w))
     \<and> (\<forall>old new s kc. status_write (kafka_prepareResource c s kc) old new \<longrightarrow>
            SetupWithManager wl cl (KafkaSourceEvent (UpdateEvent old new)) w
              = (Ok (if ready_status old \<noteq> ready_status new then [key_of c] else []), w))
     \<and> (\<forall>old new d. dns_prepareResource g c = Ok d \<longrightarrow> status_write d old new \<longrightarrow>
            SetupWithManager wl cl (CNAMERecordEvent (UpdateEvent old new)) w
              = (Ok (if cnameConditionStatus old ''Ready'' \<noteq> cnameConditionStatus new ''Ready''
                      \<or> cnameConditionStatus old ''Synced'' \<noteq> cnameConditionStatus new ''Synced''
                     then [key_of c] else []), w))
     \<and> (\<forall>old new. status_write (ksvc_prepareResource l g c) old new \<longrightarrow>
            SetupWithManager wl cl (ServiceEvent (UpdateEvent old new)) w
              = (Ok (if ks_LatestReadyRevisionName (Status old) = ks_LatestReadyRevisionName (Status new)
                      \<and> ks_LatestCreatedRevisionName (Status old) = ks_LatestCreatedRevisionName (Status new)
                     then [] else [key_of c]), w))
     \<and> (\<forall>old new. status_write (output_prepareResource c) old new \<longrightarrow>
            SetupWithManager wl cl (SyslogNGOutputEvent (UpdateEvent old new)) w = (Ok [], w))
     \<and> (\<forall>old new. status_write (flow_prepareResource c) old new \<longrightarrow>
            SetupWithManager wl cl (SyslogNGFlowEvent (UpdateEvent old new)) w = (Ok [], w))
     \<and> (\<forall>old new. key_of new = key_of c \<and> Annotations (Meta new) = Annotations (Meta old)
              \<and> Labels (Meta new) = Labels (Meta old) \<and> Generation (Meta new) = Generation (Meta old) \<longrightarrow>
            SetupWithManager wl cl (CappEvent (UpdateEvent old new)) w = (Ok [], w)
            \<and> RevisionSetupWithManager wl (UpdateEvent old new) = [])
     \<and> (\<forall>old new. key_of new = key_of c \<and> (Annotations (Meta new) \<noteq> Annotations (Meta old)
              \<or> Labels (Meta new) \<noteq> Labels (Meta old) \<or> Generation (Meta new) \<noteq> Generation (Meta old)) \<longrightarrow>
            SetupWithManager wl cl (CappEvent (UpdateEvent old new)) w = (Ok [key_of c], w)
            \<and> RevisionSetupWithManager wl (UpdateEvent old new) = [key_of c])"
proof -
  note labels = watch_labels_status [OF assms(1) labelled_prepared(1) assms(2)]
    watch_labels_status [OF assms(1) labelled_prepared(2) assms(2)] watch_labels_status [OF assms(1) labelled_prepared(3) assms(2)]
    watch_labels_status [OF assms(1) labelled_prepared(4) assms(2)] watch_labels_status [OF assms(1) labelled_dns assms(2)]
    watch_name_status [OF assms(1) named_prepared(1)]
  note capp = capp_update_events [OF assms(1)] cappWatchPredicate_def watch_contract_update [OF assms(1)]
  show ?thesis
    by (intro conjI allI impI)
      (simp_all add: labels watch_filtered status_write_generation knativeServiceWatchPredicate_def
        certificate_readyChanged readyChanged_iff domainMappingWatchPredicate_def pingSourceWatchPredicate_def
        kafkaSourceWatchPredicate_def cnameRecordWatchPredicate_def cnameRecordConditionChanged_def capp,
       auto)
qed

text \<open>The flow of the sample Capp becomes unhealthy.\<close>

theorem status_writes_noticed_witness:
  "SetupWithManager mem_watch_lib mem_client (SyslogNGFlowEvent (UpdateEvent (flow_prepareResource sampleCapp)
       ((flow_prepareResource sampleCapp)\<lparr>Status := (Status (flow_prepareResource sampleCapp))
          \<lparr>lo_ProblemsCount := 1\<rparr>\<rparr>))) sampleWorld = (Ok [], sampleWorld)"
proof -
  have "status_write d d (d\<lparr>Status := x\<rparr>)" for d :: syslogng_flow and x
    by (simp add: status_write_def same_identity_def key_of_def)
  with status_writes_noticed [OF mem_watch_contract, of sampleCapp sampleConfig mem_client sampleWorld mem_lib]
  show ?thesis by simp
qed

end
