(* ===== verification/ReconcileErrors.thy ===== *)
theory ReconcileErrors
  imports CappReconcile
begin

text \<open>
  What \<open>Reconcile\<close> does when something fails, for a client that may do anything: every
  manager gets its turn whatever the others answer, the errors are collected in order, only
  conflicts ask for another run, and the finalizer is the last thing to go.
\<close>

section \<open>Runs of forEach as traces\<close>

text \<open>The worlds a successful \<open>forEach\<close> passes through.\<close>

lemma forEach_trace:
  "forEach f xs w = (Ok (), w') \<longleftrightarrow>
     (\<exists>ws. length ws = Suc (length xs) \<and> ws ! 0 = w \<and> ws ! length xs = w'
        \<and> (\<forall>i < length xs. f (xs ! i) (ws ! i) = (Ok (), ws ! Suc i)))"
proof (induction xs arbitrary: w)
  case Nil
  show ?case by (auto intro: exI [of _ "[w]"])
next
  case (Cons x xs)
  show ?case (is "?run \<longleftrightarrow> ?trace")
  proof
    assume ?run
    then obtain w1 where x: "f x w = (Ok (), w1)" and xs: "forEach f xs w1 = (Ok (), w')"
      unfolding forEach_Cons_eq_Ok by auto
    from xs Cons.IH obtain ws where "length ws = Suc (length xs)" "ws ! 0 = w1"
      "ws ! length xs = w'" "\<forall>i < length xs. f (xs ! i) (ws ! i) = (Ok (), ws ! Suc i)" by blast
    with x show ?trace
      by (intro exI [of _ "w # ws"]) (auto simp: less_Suc_eq_0_disj)
  next
    assume ?trace
    then obtain ws where ws: "length ws = Suc (Suc (length xs))" "ws ! 0 = w"
      "ws ! Suc (length xs) = w'"
      "\<forall>i < Suc (length xs). f ((x # xs) ! i) (ws ! i) = (Ok (), ws ! Suc i)" by auto
    then have "f x w = (Ok (), tl ws ! 0)" by (cases ws) auto
    moreover have "forEach f xs (tl ws ! 0) = (Ok (), w')"
      unfolding Cons.IH using ws by (intro exI [of _ "tl ws"]) (auto simp: nth_tl)
    ultimately show ?run by (simp add: andThen_Ok)
  qed
qed

section \<open>Every manager gets its turn\<close>

text \<open>
  The reference: run the managers one after the other and note every outcome.
\<close>

fun outcomes :: "resource_manager_entry list \<Rightarrow> capp \<Rightarrow> world \<Rightarrow> unit result list \<times> world" where
  "outcomes [] c w = ([], w)"
| "outcomes (m # ms) c w =
     (let (r, w1) = rm_Manage (rme_Manager m) c w; (rs, w2) = outcomes ms c w1 in (r # rs, w2))"

definition failures :: "resource_manager_entry list \<Rightarrow> unit result list \<Rightarrow> go_error list" where
  "failures ms rs =
     concat (map2 (\<lambda>m r. case r of Err e \<Rightarrow> [wrap (rme_Name m) e] | _ \<Rightarrow> []) ms rs)"

fun panicked :: "'a result \<Rightarrow> bool" where
  "panicked (Panic p) = True"
| "panicked (Ok x) = False"
| "panicked (Err e) = False"

lemma manageAll_outcomes:
  "outcomes ms c w = (rs, w') \<Longrightarrow> \<not> list_ex panicked rs \<Longrightarrow>
     manageAll ms c w = (Ok (failures ms rs), w')"
proof (induction ms arbitrary: w rs w')
  case (Cons m ms)
  obtain r w1 where m: "rm_Manage (rme_Manager m) c w = (r, w1)" by fastforce
  obtain rs' where rs: "rs = r # rs'" "outcomes ms c w1 = (rs', w')"
    using Cons.prems(1) m by (auto simp: split: prod.splits)
  with Cons.prems(2) Cons.IH have "manageAll ms c w1 = (Ok (failures ms rs'), w')" by simp
  with m rs Cons.prems(2) show ?case
    by (cases r) (simp_all add: handle_def andThen_def failures_def)
qed (simp add: failures_def)

section \<open>Properties\<close>

text \<open>
  C9: a failing manager does not keep the others from running. As long as none panics,
  the loop of \<open>SyncApplication\<close> runs every manager once and in order, each in the world the
  one before left, and gives the errors in that order, each under its manager's name.
\<close>

theorem manageAll_isolates:
  assumes "outcomes ms c w = (rs, w')" and "\<not> list_ex panicked rs"
  shows "manageAll ms c w = (Ok (failures ms rs), w') \<and> length rs = length ms"
proof -
  have "length (fst (outcomes ms c w)) = length ms" for w
    by (induction ms arbitrary: w) (simp_all add: split_def Let_def)
  from this [of w] assms manageAll_outcomes show ?thesis by simp
qed

definition fakeManager :: "string \<Rightarrow> unit act \<Rightarrow> resource_manager_entry" where
  "fakeManager n a =
     \<lparr>rme_Name = n, rme_Manager = \<lparr>rm_Manage = (\<lambda>_. a), rm_CleanUp = (\<lambda>_. a), rm_IsRequired = (\<lambda>_. True)\<rparr>\<rparr>"

theorem manageAll_isolates_witness:
  "manageAll [fakeManager ''A'' (throw (new_error ''x'')), fakeManager ''B'' (Eventf ''t'' ''r'' ''n'')]
     sampleCapp sampleWorld
   = (Ok [wrap ''A'' (new_error ''x'')],
      sampleWorld\<lparr>events := events sampleWorld @ [\<lparr>ev_Type = ''t'', ev_Reason = ''r'', ev_Note = ''n''\<rparr>]\<rparr>)"
proof -
  have "outcomes [fakeManager ''A'' (throw (new_error ''x'')), fakeManager ''B'' (Eventf ''t'' ''r'' ''n'')]
      sampleCapp sampleWorld = ([Err (new_error ''x''), Ok ()],
      sampleWorld\<lparr>events := events sampleWorld @ [\<lparr>ev_Type = ''t'', ev_Reason = ''r'', ev_Note = ''n''\<rparr>]\<rparr>)"
    by (simp add: fakeManager_def Eventf_def)
  from manageAll_isolates [OF this] show ?thesis by (simp add: failures_def fakeManager_def)
qed

text \<open>
  C8: the finalizer is only taken off after every manager has cleaned up. Whatever the client
  does, when \<open>Reconcile\<close> of a Capp that is being deleted succeeds, then the nine \<open>CleanUp\<close>s
  ran in the reverse order of management, each succeeding in the world the one before left,
  and the update that removes the finalizer was the last step.
\<close>

theorem finalizer_last:
  assumes "kget (c_capps cl) ns n w = (Ok c, w0)" and "GetCappConfig cl w0 = (Ok g, w1)"
    and "DeletionTimestamp (Meta c) \<noteq> None"
    and "l_ContainsFinalizer l (Finalizers (Meta c)) cappCleanupFinalizer"
    and "Reconcile l cl (NamespacedName ns n) w = (Ok r, w')"
  shows "\<exists>ws. length ws = 10 \<and> ws ! 0 = w1
     \<and> (\<forall>i < 9. rm_CleanUp (rme_Manager (rev (resourceManagers l cl g) ! i)) c (ws ! i)
                  = (Ok (), ws ! Suc i))
     \<and> removeFinalizer l cl c (ws ! 9) = (Ok (), w')"
proof -
  have nine: "length (rev (resourceManagers l cl g)) = 9" by (simp add: resourceManagers_def)
  obtain w2 where w2: "finalizeCapp c (resourceManagers l cl g) w1 = (Ok (), w2)"
      "removeFinalizer l cl c w2 = (Ok (), w')"
    using assms
    by (auto simp: Reconcile_def handle_def andThen_def wrapErr_def handleResourceDeletion_def Let_def
        split: prod.splits result.splits)
  from w2(1) obtain ws where "length ws = Suc 9" "ws ! 0 = w1" "ws ! 9 = w2"
    "\<forall>i < 9. rm_CleanUp (rme_Manager (rev (resourceManagers l cl g) ! i)) c (ws ! i) = (Ok (), ws ! Suc i)"
    unfolding finalizeCapp_def forEach_trace nine by blast
  with w2(2) show ?thesis by (intro exI [of _ ws]) simp
qed

theorem finalizer_last_witness:
  "\<exists>ws. length ws = 10 \<and> ws ! 0 = dyingWorld
     \<and> (\<forall>i < 9. rm_CleanUp (rme_Manager (rev (resourceManagers mem_lib mem_client sampleConfig) ! i))
                  dyingCapp (ws ! i) = (Ok (), ws ! Suc i))"
proof -
  have get: "kget (c_capps mem_client) ''team'' ''web'' dyingWorld = (Ok dyingCapp, dyingWorld)"
    "GetCappConfig mem_client dyingWorld = (Ok sampleConfig, dyingWorld)"
    by (simp_all add: mem_get_def dyingWorld_def tlookup_Cons GetCappConfig_def)
  have fin: "l_ContainsFinalizer mem_lib (Finalizers (Meta dyingCapp)) cappCleanupFinalizer"
    using sample_cleanup_finalizer by simp
  obtain w' where "Reconcile mem_lib mem_client (NamespacedName ''team'' ''web'') dyingWorld
      = (Ok \<lparr>RequeueAfter = 0\<rparr>, w')"
    using dying_reconciled by blast
  from finalizer_last [OF get _ fin this] show ?thesis by auto
qed

text \<open>
  C13: how errors end a run. When the Capp is live, has its finalizer and the managers returned
  the errors \<open>errs\<close>: if the status could be written, the run ends without an error when there
  were none, asks to be run again in five seconds when all were conflicts, and fails with
  their aggregate otherwise, even when some were conflicts; if writing the status failed,
  that error alone decides in the same way.
\<close>

theorem Reconcile_errors:
  assumes get: "kget (c_capps cl) ns n w = (Ok c, w0)" "GetCappConfig cl w0 = (Ok g, w1)"
    and live: "DeletionTimestamp (Meta c) = None" and fin: "ensureFinalizer l cl c w1 = (Ok (), w2)"
    and ms: "manageAll (resourceManagers l cl g) c w2 = (Ok errs, w3)"
    and st: "SyncStatus l cl c (ManagerMap (resourceManagers l cl g)) g errs w3 = (r, w4)"
  shows "Reconcile l cl (NamespacedName ns n) w =
     (case r of
        Ok _ \<Rightarrow>
          if errs = [] then Ok \<lparr>RequeueAfter = 0\<rparr>
          else if list_all IsConflict errs then Ok \<lparr>RequeueAfter = 5000000000\<rparr>
          else Err (wrap ''failed to sync Capp'' (GoError (l_AggregateText l errs) None (Some errs)))
      | Err e \<Rightarrow>
          if IsConflict e \<or> (\<exists>es. err_items e = Some es \<and> es \<noteq> [] \<and> list_all IsConflict es)
          then Ok \<lparr>RequeueAfter = 5000000000\<rparr> else Err (wrap ''failed to sync Capp'' e)
      | Panic p \<Rightarrow> Panic p, w4)"
proof -
  have "(5 :: i64) * 1000000000 = 5000000000" by simp
  then show ?thesis
    using assms
    by (cases r)
      (auto simp: Reconcile_def handle_def andThen_def wrapErr_def handleResourceDeletion_def Let_def
        SyncApplication_def NewAggregate_def hasConflictError_def IsConflict_def RequeueTime_def
        Second_def split: option.splits)
qed

text \<open>A disabled Capp with nothing else, on a cluster where certificates cannot be listed.\<close>

definition plainCapp :: capp where
  "plainCapp = sampleCapp\<lparr>Spec := sampleSpec\<lparr>cs_State := ''disabled'',
     cs_RouteSpec := \<lparr>rt_Hostname = [], rt_TlsEnabled = False, rt_TrafficTarget = [],
                      rt_RouteTimeoutSeconds = None\<rparr>,
     cs_LogSpec := zeroLogSpec, cs_NFSVolumes := [], cs_Sources := []\<rparr>\<rparr>"

definition plainWorld :: world where
  "plainWorld = sampleWorld\<lparr>capps := [plainCapp]\<rparr>"

definition conflictClient :: client where
  "conflictClient = mem_client\<lparr>c_certificates := (mem_kind certificates certificates_update)
     \<lparr>klist := (\<lambda>ns sel lim w. (Err (api_error Conflict ''busy''), w))\<rparr>\<rparr>"

lemma plain_fields [simp]:
  "key_of plainCapp = NamespacedName ''team'' ''web''" "DeletionTimestamp (Meta plainCapp) = None"
  "Name (Meta plainCapp) = ''web''" "Namespace (Meta plainCapp) = ''team''"
  "Finalizers (Meta plainCapp) = [''dana.io/capp-cleanup'']"
  "cs_Sources (Spec plainCapp) = []" "cs_NFSVolumes (Spec plainCapp) = []"
  "cs_State (Spec plainCapp) = ''disabled''" "cs_LogSpec (Spec plainCapp) = zeroLogSpec"
  "rt_Hostname (cs_RouteSpec (Spec plainCapp)) = []"
  by (simp_all add: plainCapp_def key_of_def)

lemma plain_required [simp]:
  "\<not> ksvc_IsRequired plainCapp" "\<not> nfs_IsRequired plainCapp" "\<not> output_IsRequired plainCapp"
  "\<not> flow_IsRequired plainCapp" "\<not> cert_IsRequired plainCapp" "\<not> dm_IsRequired plainCapp"
  "\<not> dns_IsRequired plainCapp" "\<not> ping_IsRequired plainCapp" "\<not> kafka_IsRequired plainCapp"
  by (simp_all add: required_defs CappStateEnabled_def zeroLogSpec_def)

lemma conflictClient_kinds [simp]:
  "c_capps conflictClient = c_capps mem_client" "c_cappconfigs conflictClient = c_cappconfigs mem_client"
  "c_ksvcs conflictClient = c_ksvcs mem_client" "c_nfspvcs conflictClient = c_nfspvcs mem_client"
  "c_outputs conflictClient = c_outputs mem_client" "c_flows conflictClient = c_flows mem_client"
  "c_domainmappings conflictClient = c_domainmappings mem_client"
  "c_secrets conflictClient = c_secrets mem_client"
  "c_cnamerecords conflictClient = c_cnamerecords mem_client"
  "c_pingsources conflictClient = c_pingsources mem_client"
  "c_kafkasources conflictClient = c_kafkasources mem_client"
  "c_statusUpdate conflictClient = c_statusUpdate mem_client"
  "klist (c_certificates conflictClient) ns sel lim w = (Err (api_error Conflict ''busy''), w)"
  by (simp_all add: conflictClient_def)

definition disabledEvent :: event_record where
  "disabledEvent =
     \<lparr>ev_Type = ''Normal'', ev_Reason = ''CappDisabled'', ev_Note = ''Capp web state changed to disabled''\<rparr>"

definition plainError :: go_error where
  "plainError = wrap ''Certificate''
     (wrap (''unable to list Certificates of Capp '' @ fmt_q ''web'') (api_error Conflict ''busy''))"

lemma plain_manageAll:
  "manageAll (resourceManagers mem_lib conflictClient sampleConfig) plainCapp plainWorld
   = (Ok [plainError], plainWorld\<lparr>events := [disabledEvent]\<rparr>)"
proof -
  have not_found: "IsNotFound (api_error NotFound s)" for s
    by (simp add: api_error_def IsNotFound_def)
  show ?thesis
    by (simp add: resourceManagers_def ksvc_Manage_def ksvc_CleanUp_def nfs_Manage_def nfs_CleanUp_def
        output_Manage_def output_CleanUp_def flow_Manage_def flow_CleanUp_def cert_Manage_def
        cert_CleanUp_def dm_Manage_def dm_CleanUp_def dns_Manage_def dns_CleanUp_def ping_Manage_def
        ping_CleanUp_def kafka_Manage_def kafka_CleanUp_def getPreviousNFSPVCs_def
        getPreviousCertificates_def getPreviousDomainMappings_def getPreviousDNSRecords_def
        getPingSources_def getKafkaSources_def listManagedResources_def handle_def andThen_def
        wrapErr_def deleteOwnedResources_def mem_get_def mem_list_def plainWorld_def Eventf_def
        not_found disabledEvent_def plainError_def)
qed

lemma plain_events: "plainWorld\<lparr>events := []\<rparr> = plainWorld"
  by (simp add: plainWorld_def)

lemma plain_observeStatus:
  "\<exists>s. observeStatus mem_lib conflictClient plainCapp (Status plainCapp)
      (ManagerMap (resourceManagers mem_lib conflictClient sampleConfig)) sampleConfig [plainError]
      (plainWorld\<lparr>events := ev\<rparr>) = (Ok s, plainWorld\<lparr>events := ev\<rparr>)"
proof -
  let ?M = "ManagerMap (resourceManagers mem_lib conflictClient sampleConfig)"
  have M: "requiredBy ?M ''KnativeService'' plainCapp = Ok False"
    "requiredBy ?M ''SyslogNGFlow'' plainCapp = Ok False"
    "requiredBy ?M ''DomainMapping'' plainCapp = Ok False"
    "requiredBy ?M ''DNSRecord'' plainCapp = Ok False"
    "requiredBy ?M ''Certificate'' plainCapp = Ok False"
    "requiredBy ?M ''NfsPvc'' plainCapp = Ok False"
    by (simp_all add: requiredBy_def ManagerMap_def resourceManagers_def)
  show ?thesis
    by (simp add: observeStatus_def M andThen_def handle_def wrapErr_def buildKnativeStatus_def
        buildLoggingStatus_def buildRouteStatus_def buildDomainMappingStatus_def
        buildDNSRecordStatus_get buildCertificateStatus_def statusOrZero_def buildVolumesStatus_def
        buildEventingStatus_def listOwnedEventSources_def mem_list_def now_def plainWorld_def
        buildCappConditions_def computeReadyCondition_def)
qed

lemma plain_SyncStatus:
  "\<exists>w'. SyncStatus mem_lib conflictClient plainCapp
      (ManagerMap (resourceManagers mem_lib conflictClient sampleConfig)) sampleConfig [plainError]
      (plainWorld\<lparr>events := ev\<rparr>) = (Ok (), w')"
proof -
  obtain s where s: "observeStatus mem_lib conflictClient plainCapp (Status plainCapp)
      (ManagerMap (resourceManagers mem_lib conflictClient sampleConfig)) sampleConfig [plainError]
      (plainWorld\<lparr>events := ev\<rparr>) = (Ok s, plainWorld\<lparr>events := ev\<rparr>)"
    using plain_observeStatus by blast
  have "mem_get capps ''team'' ''web'' (plainWorld\<lparr>events := ev\<rparr>) = (Ok plainCapp, plainWorld\<lparr>events := ev\<rparr>)"
    by (simp add: mem_get_def plainWorld_def tlookup_Cons)
  with s show ?thesis
    by (simp add: SyncStatus_def andThen_Ok mem_client_def plainWorld_def tlookup_Cons key_of_def)
qed

theorem Reconcile_errors_witness:
  "\<exists>w'. Reconcile mem_lib conflictClient (NamespacedName ''team'' ''web'') plainWorld
     = (Ok \<lparr>RequeueAfter = 5000000000\<rparr>, w')"
proof -
  obtain w' where "SyncStatus mem_lib conflictClient plainCapp
      (ManagerMap (resourceManagers mem_lib conflictClient sampleConfig)) sampleConfig [plainError]
      (plainWorld\<lparr>events := [disabledEvent]\<rparr>) = (Ok (), w')"
    using plain_SyncStatus by blast
  from Reconcile_errors [OF _ _ _ _ plain_manageAll this, of "''team''" "''web''" plainWorld plainWorld]
  show ?thesis
    by (simp add: mem_get_def plainWorld_def tlookup_Cons GetCappConfig_def ensureFinalizer_def
        cappCleanupFinalizer_def mem_lib_def plainError_def IsConflict_def api_error_def)
qed

end
