(* ===== verification/StatusProperties.thy ===== *)
theory StatusProperties
  imports ReconcileErrors
begin

text \<open>
  Properties of the status: which sub-status decides the Ready condition, when a Capp is
  ready at all, what becomes of long error messages, and that the status is written only
  when something but a time stamp has changed.
\<close>

section \<open>The Ready condition as the first of a list\<close>

definition failing :: "bool \<Rightarrow> (string \<times> string) option \<Rightarrow> (string \<times> string) list" where
  "failing b notReady =
     (if b then (case notReady of Some rm \<Rightarrow> [rm] | None \<Rightarrow> []) else [])"

text \<open>Everything that is wrong, the most important first.\<close>

definition ready_failures :: "capp_status \<Rightarrow> capp \<Rightarrow> go_error list \<Rightarrow> (string \<times> string) list" where
  "ready_failures st c errs =
     (if errs = [] then [] else [(CappReadyReasonResourceSyncFailed, formatSyncError (hd errs))])
     @ failing (flow_IsRequired c) (loggingNotReady (cst_LoggingStatus st))
     @ failing (dm_IsRequired c) (domainMappingNotReady (cst_RouteStatus st))
     @ failing (cert_IsRequired c) (certificateNotReady (cst_RouteStatus st))
     @ failing (nfs_IsRequired c) (volumesNotReady (cst_VolumesStatus st))
     @ failing (ping_IsRequired c \<or> kafka_IsRequired c) (eventingNotReady (cst_EventingStatus st))
     @ failing True (knativeNotReady (cst_KnativeObjectStatus st))"

definition readyTrue :: condition where
  "readyTrue = newCondition CappConditionReady ''True'' CappReadyReasonReady ''Capp is ready''"

definition first_failure :: "(string \<times> string) list \<Rightarrow> condition" where
  "first_failure fs = (case fs of [] \<Rightarrow> readyTrue | (reason, msg) # _ \<Rightarrow> readyFalse reason msg)"

lemma first_failure_simps [simp]:
  "first_failure [] = readyTrue" "first_failure ((r, m) # fs) = readyFalse r m"
  by (simp_all add: first_failure_def)

lemma requiredBy_managers:
  "requiredBy (ManagerMap (resourceManagers l cl g)) ''KnativeService'' c = Ok (ksvc_IsRequired c)"
  "requiredBy (ManagerMap (resourceManagers l cl g)) ''SyslogNGFlow'' c = Ok (flow_IsRequired c)"
  "requiredBy (ManagerMap (resourceManagers l cl g)) ''DomainMapping'' c = Ok (dm_IsRequired c)"
  "requiredBy (ManagerMap (resourceManagers l cl g)) ''Certificate'' c = Ok (cert_IsRequired c)"
  "requiredBy (ManagerMap (resourceManagers l cl g)) ''NfsPvc'' c = Ok (nfs_IsRequired c)"
  "requiredBy (ManagerMap (resourceManagers l cl g)) ''PingSource'' c = Ok (ping_IsRequired c)"
  "requiredBy (ManagerMap (resourceManagers l cl g)) ''KafkaSource'' c = Ok (kafka_IsRequired c)"
  by (simp_all add: requiredBy_def ManagerMap_def resourceManagers_def)

lemma readyCheck_first:
  "rest = Ok (first_failure fs) \<Longrightarrow>
     readyCheck (Ok b) nr rest = Ok (first_failure (failing b nr @ fs))"
  by (auto simp: readyCheck_def failing_def split: option.split)

lemma knative_first:
  "(case knativeNotReady ks of
      Some (reason, msg) \<Rightarrow> Ok (readyFalse reason msg)
    | None \<Rightarrow> Ok (newCondition CappConditionReady ''True'' CappReadyReasonReady ''Capp is ready''))
   = Ok (first_failure (failing True (knativeNotReady ks)))"
  by (simp add: failing_def readyTrue_def split: option.split)

lemma computeReadyCondition_first:
  "computeReadyCondition st c (ManagerMap (resourceManagers l cl g)) errs
     = Ok (first_failure (ready_failures st c errs))"
proof (cases "errs = []")
  case False
  then show ?thesis by (simp add: computeReadyCondition_def ready_failures_def)
next
  case True
  have or: "rbind (Ok a) (\<lambda>b. if b then Ok True else Ok a') = Ok (a \<or> a')" for a a' by simp
  show ?thesis
    unfolding computeReadyCondition_def ready_failures_def requiredBy_managers or True
    by (simp only: simp_thms if_True if_False append_Nil)
      (intro readyCheck_first knative_first)
qed

section \<open>Healthy parts\<close>

definition all_ready :: "condition list \<Rightarrow> bool" where
  "all_ready cs \<longleftrightarrow> (\<forall>c \<in> set cs. cond_Type c = ''Ready'' \<longrightarrow> cond_Status c = ''True'')"

definition service_ready :: "service_status \<Rightarrow> bool" where
  "service_ready ks \<longleftrightarrow>
     (ks_LatestCreatedRevisionName ks = []
        \<or> ks_LatestCreatedRevisionName ks = ks_LatestReadyRevisionName ks)
     \<and> (\<exists>c. find (\<lambda>c. cond_Type c = ''Ready'') (ks_Conditions ks) = Some c \<and> cond_Status c = ''True'')"

definition parts_ready :: "capp_status \<Rightarrow> capp \<Rightarrow> bool" where
  "parts_ready st c \<longleftrightarrow>
     (flow_IsRequired c \<longrightarrow>
        (\<forall>x \<in> set (ls_Conditions (cst_LoggingStatus st)). cond_Status x \<noteq> ''False''))
     \<and> (dm_IsRequired c \<longrightarrow> all_ready (st_Conditions (rs_DomainMapping (cst_RouteStatus st))))
     \<and> (cert_IsRequired c \<longrightarrow> all_ready (st_Conditions (rs_Certificate (cst_RouteStatus st))))
     \<and> (nfs_IsRequired c \<longrightarrow> (\<forall>v \<in> set (cst_VolumesStatus st).
           np_PvPhase (nv_Status v) = ''Bound'' \<and> np_PvcPhase (nv_Status v) = ''Bound''))
     \<and> (ping_IsRequired c \<or> kafka_IsRequired c \<longrightarrow>
           (\<forall>e \<in> set (cst_EventingStatus st). cond_Status (es_Condition e) = ''True''))
     \<and> service_ready (cst_KnativeObjectStatus st)"

lemma not_ready_iff:
  "loggingNotReady ls = None \<longleftrightarrow> (\<forall>x \<in> set (ls_Conditions ls). cond_Status x \<noteq> ''False'')"
  "domainMappingNotReady rs = None \<longleftrightarrow> all_ready (st_Conditions (rs_DomainMapping rs))"
  "certificateNotReady rs = None \<longleftrightarrow> all_ready (st_Conditions (rs_Certificate rs))"
  "volumesNotReady vs = None \<longleftrightarrow>
     (\<forall>v \<in> set vs. np_PvPhase (nv_Status v) = ''Bound'' \<and> np_PvcPhase (nv_Status v) = ''Bound'')"
  "eventingNotReady es = None \<longleftrightarrow> (\<forall>e \<in> set es. cond_Status (es_Condition e) = ''True'')"
  "knativeNotReady ks = None \<longleftrightarrow> service_ready ks"
proof -
  have first: "(case find P xs of Some x \<Rightarrow> Some (f x) | None \<Rightarrow> None) = None \<longleftrightarrow> (\<forall>x \<in> set xs. \<not> P x)"
    for P and xs :: "'x list" and f :: "'x \<Rightarrow> 'y"
    using find_None_iff [of P xs] by (cases "find P xs") auto
  show "loggingNotReady ls = None \<longleftrightarrow> (\<forall>x \<in> set (ls_Conditions ls). cond_Status x \<noteq> ''False'')"
    "domainMappingNotReady rs = None \<longleftrightarrow> all_ready (st_Conditions (rs_DomainMapping rs))"
    "certificateNotReady rs = None \<longleftrightarrow> all_ready (st_Conditions (rs_Certificate rs))"
    "volumesNotReady vs = None \<longleftrightarrow>
       (\<forall>v \<in> set vs. np_PvPhase (nv_Status v) = ''Bound'' \<and> np_PvcPhase (nv_Status v) = ''Bound'')"
    "eventingNotReady es = None \<longleftrightarrow> (\<forall>e \<in> set es. cond_Status (es_Condition e) = ''True'')"
    unfolding loggingNotReady_def domainMappingNotReady_def certificateNotReady_def
      volumesNotReady_def eventingNotReady_def first all_ready_def ConditionReady_def
    by auto
  show "knativeNotReady ks = None \<longleftrightarrow> service_ready ks"
    by (auto simp: knativeNotReady_def service_ready_def ConditionReady_def split: option.splits)
qed

lemma failing_Nil: "failing b nr = [] \<longleftrightarrow> (b \<longrightarrow> nr = None)"
  by (auto simp: failing_def split: option.split)

lemma no_failures: "ready_failures st c errs = [] \<longleftrightarrow> errs = [] \<and> parts_ready st c"
  by (simp add: ready_failures_def failing_Nil not_ready_iff parts_ready_def)

lemma first_failure_True: "cond_Status (first_failure fs) = ''True'' \<longleftrightarrow> fs = []"
  by (cases fs) (auto simp: readyTrue_def readyFalse_def newCondition_def split: prod.split)

section \<open>Properties\<close>

text \<open>
  C24: the Ready condition names the most important thing that is wrong. Computed with the
  reconciler's managers it never panics, and it is the first entry of the list of failures
  that has the managers' errors first, then logging, domain mapping, certificate, volumes,
  event sources and the Knative service, each as far as it is required.
\<close>

theorem ready_precedence:
  "computeReadyCondition st c (ManagerMap (resourceManagers l cl g)) errs =
     Ok (case ready_failures st c errs of
           [] \<Rightarrow> newCondition ''Ready'' ''True'' ''Ready'' ''Capp is ready''
         | (reason, msg) # _ \<Rightarrow> newCondition ''Ready'' ''False'' reason msg)"
  unfolding computeReadyCondition_first first_failure_def readyTrue_def readyFalse_def
  by (simp add: CappConditionReady_def CappReadyReasonReady_def cong: list.case_cong)

text \<open>
  C25: when a Capp is reported ready. Its Ready condition is True exactly when no manager failed
  and the parts that the code looks at are healthy, which \<open>parts_ready\<close> spells out: of the
  required ones, no condition of the logging objects is False, no Ready condition of the domain
  mapping and of the certificate is other than True (one that has none counts as healthy), every
  volume is bound, every event source is ready; and the Knative service is ready in any case.
  It does not say that every child is healthy, which the comment in
  \<open>capp_types.go\<close> promises: whatever the DNS record reports, the condition is the same.
\<close>

theorem ready_iff_parts_ready:
  "(map_result cond_Status (computeReadyCondition st c (ManagerMap (resourceManagers l cl g)) errs)
     = Ok ''True'' \<longleftrightarrow> errs = [] \<and> parts_ready st c)
   \<and> computeReadyCondition (st\<lparr>cst_RouteStatus := (cst_RouteStatus st)\<lparr>rs_DNSRecord := dns\<rparr>\<rparr>) c
       (ManagerMap (resourceManagers l cl g)) errs
     = computeReadyCondition st c (ManagerMap (resourceManagers l cl g)) errs"
proof
  show "map_result cond_Status (computeReadyCondition st c (ManagerMap (resourceManagers l cl g)) errs)
     = Ok ''True'' \<longleftrightarrow> errs = [] \<and> parts_ready st c"
    unfolding computeReadyCondition_first result.map result.inject first_failure_True no_failures
    by (rule refl)
next
  have "ready_failures (st\<lparr>cst_RouteStatus := (cst_RouteStatus st)\<lparr>rs_DNSRecord := dns\<rparr>\<rparr>) c errs
      = ready_failures st c errs"
    by (simp add: ready_failures_def domainMappingNotReady_def certificateNotReady_def)
  then show "computeReadyCondition (st\<lparr>cst_RouteStatus := (cst_RouteStatus st)\<lparr>rs_DNSRecord := dns\<rparr>\<rparr>) c
       (ManagerMap (resourceManagers l cl g)) errs
     = computeReadyCondition st c (ManagerMap (resourceManagers l cl g)) errs"
    unfolding computeReadyCondition_first by (simp only:)
qed

text \<open>
  A Capp that does not run is never ready. Since the Knative service of a Capp whose state
  is not enabled has no status, whatever \<open>SyncStatus\<close> observes for it has the Ready condition
  False.
\<close>

theorem disabled_never_ready:
  assumes "cs_State (Spec c) \<noteq> CappStateEnabled" and "condition_lib l"
    and "observeStatus l cl c old (ManagerMap (resourceManagers l cl g)) g errs w = (Ok s, w')"
  shows "\<exists>x \<in> set (cst_Conditions s). cond_Type x = ''Ready'' \<and> cond_Status x = ''False''"
proof -
  let ?M = "ManagerMap (resourceManagers l cl g)"
  have no: "\<not> ksvc_IsRequired c" using assms(1) by (simp add: ksvc_IsRequired_def)
  have "\<exists>st t. cst_Conditions s = l_SetStatusCondition l t (cst_Conditions old)
      (first_failure (ready_failures st c errs)) \<and> cst_KnativeObjectStatus st = zeroServiceStatus"
    using assms(3) no
    by (clarsimp simp: observeStatus_def requiredBy_managers andThen_eq_Ok buildKnativeStatus_def
        buildCappConditions_def computeReadyCondition_first)
      (intro exI conjI, rule refl, simp)
  then obtain st t where st: "cst_KnativeObjectStatus st = zeroServiceStatus"
    and s: "cst_Conditions s = l_SetStatusCondition l t (cst_Conditions old)
      (first_failure (ready_failures st c errs))" by blast
  have "\<not> parts_ready st c" using st by (simp add: parts_ready_def service_ready_def zeroServiceStatus_def)
  then obtain r m fs where "ready_failures st c errs = (r, m) # fs"
    using no_failures [of st c errs] by (cases "ready_failures st c errs") auto
  with s have "cst_Conditions s = l_SetStatusCondition l t (cst_Conditions old) (readyFalse r m)" by simp
  moreover obtain x where "x \<in> set (l_SetStatusCondition l t (cst_Conditions old) (readyFalse r m))"
    "cond_Type x = cond_Type (readyFalse r m)" "cond_Status x = cond_Status (readyFalse r m)"
    using assms(2) unfolding condition_lib_def by metis
  ultimately show ?thesis
    by (intro bexI [of _ x]) (simp_all add: readyFalse_def newCondition_def CappConditionReady_def)
qed

theorem disabled_never_ready_witness:
  "\<exists>s w'. observeStatus mem_lib conflictClient plainCapp (Status plainCapp)
        (ManagerMap (resourceManagers mem_lib conflictClient sampleConfig)) sampleConfig [plainError]
        plainWorld = (Ok s, w')
     \<and> (\<exists>x. x \<in> set (cst_Conditions s) \<and> cond_Type x = ''Ready'' \<and> cond_Status x = ''False'')"
proof -
  have "cs_State (Spec plainCapp) \<noteq> CappStateEnabled" by (simp add: CappStateEnabled_def)
  then show ?thesis
    using plain_observeStatus [of "[]"] disabled_never_ready [OF _ mem_condition_lib]
    by (metis plain_events)
qed

text \<open>
  The message of a failed synchronisation is cut after 32768 bytes, and then 14 bytes are
  added to say so: a long message ends up longer than the 32768 that the API allows for the
  message of a condition.
\<close>

theorem formatSyncError_length:
  "length (formatSyncError e) =
     (if length (err_text e) > 32768 then 32768 + 14 else length (err_text e))"
  by (simp add: formatSyncError_def maxSyncErrorMessageLen_def Let_def)

text \<open>
  C26: the status is written once. For any errors of the managers, \<open>SyncStatus\<close> succeeds, stores
  a status and nothing else, and a later call on the same objects finds nothing to write,
  however much time has passed and in whatever order the lists then come: transition times
  alone never cause a write.
\<close>

theorem SyncStatus_writes_once:
  assumes "status_api cl" and "status_reads l cl c w" and "sync_libs l"
    and "cs_State (Spec c) \<noteq> []" and "tlookup (capps w) (key_of c) = Some c0"
  shows "\<exists>t c1. SyncStatus l cl c (ManagerMap (resourceManagers l cl g)) g errs w = (Ok (), w\<lparr>capps := t\<rparr>)
     \<and> tlookup t = (tlookup (capps w))(key_of c \<mapsto> c1) \<and> status_only c0 c1
     \<and> (\<forall>ck ev. SyncStatus l cl c (ManagerMap (resourceManagers l cl g)) g errs
                    (w\<lparr>capps := t, clock := ck, events := ev\<rparr>)
           = (Ok (), w\<lparr>capps := t, clock := ck, events := ev\<rparr>))"
  using SyncStatus_again [OF assms(1-3) resourceManagers_has assms(4,5)] by blast

theorem SyncStatus_writes_once_witness:
  "\<exists>t. SyncStatus mem_lib mem_client sampleCapp
       (ManagerMap (resourceManagers mem_lib mem_client sampleConfig)) sampleConfig [plainError] sampleWorld
     = (Ok (), sampleWorld\<lparr>capps := t\<rparr>)"
proof -
  have "status_reads mem_lib mem_client sampleCapp sampleWorld"
    using mem_reconcile_api [of sampleCapp sampleWorld]
    by (simp add: reconcile_api_def managers_api_def status_reads_def found_in_def ksvc_api_def
        nfs_api_def output_api_def flow_api_def cert_api_def dm_api_def dns_api_def ping_api_def
        kafka_api_def)
  moreover have "sync_libs mem_lib" using mem_reconcile_lib by (simp add: reconcile_lib_def)
  ultimately show ?thesis
    using SyncStatus_writes_once [OF mem_status_api _ _ sample_sources_clear(2),
        of mem_lib sampleWorld sampleCapp sampleConfig "[plainError]"] by auto
qed

text \<open>
  The volume statuses are read back one for one: in the order of the spec, each NFS volume
  with the status of the stored NfsPvc of its name, or with the zero status while there is
  none.
\<close>

definition stored_status :: "world \<Rightarrow> string \<Rightarrow> nfs_volume \<Rightarrow> nfs_volume_status" where
  "stored_status w ns v =
     \<lparr>nv_VolumeName = nfs_Name v,
      nv_Status = (case tlookup (nfspvcs w) (NamespacedName ns (nfs_Name v)) of
          Some r \<Rightarrow> Status r | None \<Rightarrow> zeroNfsPvcStatus)\<rparr>"

lemma buildVolumesStatus_reads:
  assumes "kind_api (c_nfspvcs cl) nfspvcs nfspvcs_update"
  shows "buildVolumesStatus cl c isRequired w =
     (Ok (if isRequired then map (stored_status w (Namespace (Meta c))) (cs_NFSVolumes (Spec c)) else []), w)"
proof -
  have "buildVolumesStatusOf cl c vs w = (Ok (map (stored_status w (Namespace (Meta c))) vs), w)" for vs
  proof (induction vs)
    case (Cons v vs)
    show ?case
    proof (cases "tlookup (nfspvcs w) (NamespacedName (Namespace (Meta c)) (nfs_Name v))")
      case None
      with kind_api.get_missing [OF assms None] Cons.IH show ?thesis
        by (auto simp: handle_Err andThen_def handle_def stored_status_def)
    next
      case (Some r)
      with kind_api.get_found [OF assms Some] Cons.IH show ?thesis
        by (auto simp: andThen_def handle_def stored_status_def)
    qed
  qed simp
  then show ?thesis by (simp add: buildVolumesStatus_def)
qed

end
