(* ===== verification/ManagerProperties.thy ===== *)
theory ManagerProperties
  imports ReconcileErrors
begin

text \<open>
  Properties of the single managers: the names they derive, the annotations that drive the
  autoscaler, what they put into the objects and how the objects of different managers fit
  together.
\<close>

section \<open>Names\<close>

text \<open>
  The record name of a host name in the zone. With a zone that is written with its final
  dot, \<open>GenerateRecordName\<close> panics exactly on the bare zone itself; on a name that ends with
  the zone it cuts the zone and the one character before it, whether or not that character
  is a dot.
\<close>

theorem GenerateRecordName_in_zone:
  "((\<exists>msg. GenerateRecordName h (z @ ''.'') = Panic msg) \<longleftrightarrow> h = z)
   \<and> GenerateRecordName (p @ [ch] @ z) (z @ ''.'') = Ok p"
  by (auto simp: GenerateRecordName_cases HasSuffix_iff)

text \<open>
  The Certificate and the DomainMapping of a Capp meet in the TLS secret. Both are named
  after the same host name in the Capp's namespace; the certificate puts its key pair in
  the secret the mapping refers to, covers the full host name, and its common name is a
  prefix of it of at most 64 bytes.
\<close>

theorem certificate_serves_mapping:
  "key_of (cert_prepareResource g c) = key_of (dm_desired g c w)
   \<and> cert_SecretName (Spec (cert_prepareResource g c)) = generateTLSSecretName (Name (Meta (dm_desired g c w)))
   \<and> dm_TLS (Spec (dm_desired g c w)) \<in> {None, Some (cert_SecretName (Spec (cert_prepareResource g c)))}
   \<and> cert_DNSNames (Spec (cert_prepareResource g c)) = [Name (Meta (dm_desired g c w))]
   \<and> HasPrefix (Name (Meta (dm_desired g c w))) (cert_CommonName (Spec (cert_prepareResource g c)))
   \<and> length (cert_CommonName (Spec (cert_prepareResource g c))) \<le> 64"
  by (auto simp: cert_prepareResource_def dm_desired_def Let_def newMeta_def key_of_def HasPrefix_def
      maxCommonNameLength_def)

section \<open>The autoscaler\<close>

text \<open>
  The autoscaler annotations are those of the scale specification. Without a metric there
  are none; with one, each key is set exactly when the specification or the configuration
  gives its value, the activation scale stands in for a missing minimum, and no other key
  is set.
\<close>

theorem setAutoScaler_keys:
  assumes "sc_Metric (cs_ScaleSpec (Spec c)) \<noteq> []"
  shows "fmlookup (setAutoScaler c a) k =
     (let sc = cs_ScaleSpec (Spec c) in
      if k = ''autoscaling.knative.dev/class''
      then Some (if sc_Metric sc \<in> {''rps'', ''concurrency''} then ''kpa.autoscaling.knative.dev''
                 else ''hpa.autoscaling.knative.dev'')
      else if k = ''autoscaling.knative.dev/metric'' then Some (sc_Metric sc)
      else if k = ''autoscaling.knative.dev/target'' then Some (getTargetValue (sc_Metric sc) a)
      else if k = ''autoscaling.knative.dev/scale-down-delay''
      then map_option (\<lambda>n. Duration_String (int_of_i32 n * Second)) (sc_ScaleDelaySeconds sc)
      else if k = ''autoscaling.knative.dev/min-scale'' then map_option fmt_d (sc_MinReplicas sc)
      else if k = ''autoscaling.knative.dev/activation-scale''
      then (if sc_MinReplicas sc = None then Some (fmt_d (as_ActivationScale a)) else None)
      else if k = ''autoscaling.knative.dev/max-scale'' then map_option fmt_d (sc_MaxReplicas sc)
      else None)"
proof -
  consider "k = ClassAnnotationKey" | "k = MetricAnnotationKey" | "k = TargetAnnotationKey"
    | "k = ScaleDownDelayAnnotationKey" | "k = MinScaleAnnotationKey" | "k = ActivationScaleKey"
    | "k = MaxScaleAnnotationKey"
    | "k \<notin> {ClassAnnotationKey, MetricAnnotationKey, TargetAnnotationKey, ScaleDownDelayAnnotationKey,
          MinScaleAnnotationKey, ActivationScaleKey, MaxScaleAnnotationKey}"
    by blast
  then show ?thesis
  proof cases
    case 8
    then have [simp]: "ClassAnnotationKey \<noteq> k" "MetricAnnotationKey \<noteq> k" "TargetAnnotationKey \<noteq> k"
      "ScaleDownDelayAnnotationKey \<noteq> k" "MinScaleAnnotationKey \<noteq> k" "ActivationScaleKey \<noteq> k"
      "MaxScaleAnnotationKey \<noteq> k" by blast+
    have "fmlookup (setAutoScaler c a) k = None"
      using assms by (simp add: setAutoScaler_def Let_def split: option.split)
    with 8 show ?thesis by (simp add: autoscaling_key_defs)
  qed (use assms in \<open>simp_all add: setAutoScaler_def Let_def getAutoScaleClassByMetric_def
      kpaMetrics_def autoscaling_key_defs split: option.split\<close>)
qed

theorem setAutoScaler_keys_witness:
  "fmlookup (setAutoScaler sampleCapp (cfg_AutoscaleConfig (Spec sampleConfig)))
     ''autoscaling.knative.dev/min-scale'' = Some (fmt_d (1 :: i32))"
proof -
  have "sc_Metric (cs_ScaleSpec (Spec sampleCapp)) \<noteq> []" by (simp add: sample_defs)
  from setAutoScaler_keys [OF this] show ?thesis by (simp add: sample_defs)
qed

text \<open>
  What the revision template of the Knative service carries. An annotation of the template
  is an autoscaler annotation if there is one under its key, else the Capp's own annotation
  unless that belongs to the operator or to kubectl; the annotations that the Capp gives for
  the template do not get there. The labels are the Capp's own with the name of the Capp
  under the operator's key, and every NFS volume is appended to the volumes.
\<close>

theorem ksvc_template:
  "fmlookup (tmpl_Annotations (Template (svc_Configuration (Spec (ksvc_prepareResource l g c))))) k =
     (case fmlookup (setAutoScaler c (cfg_AutoscaleConfig (Spec g))) k of
        Some v \<Rightarrow> Some v
      | None \<Rightarrow>
          if HasPrefix k ''rcs.dana.io'' \<or> HasPrefix k ''kubectl.kubernetes.io/'' then None
          else fmlookup (Annotations (Meta c)) k)
   \<and> fmlookup (tmpl_Labels (Template (svc_Configuration (Spec (ksvc_prepareResource l g c))))) k' =
     (if k' = ''rcs.dana.io/parent-capp'' then Some (Name (Meta c)) else fmlookup (Labels (Meta c)) k')
   \<and> (\<exists>vs. rev_Volumes (tmpl_Spec (Template (svc_Configuration (Spec (ksvc_prepareResource l g c))))) =
     vs @ map (\<lambda>n. \<lparr>vol_Name = nfs_Name n, vol_Source = PersistentVolumeClaim (nfs_Name n)\<rparr>)
            (cs_NFSVolumes (Spec c)))"
proof (intro conjI)
  show "fmlookup (tmpl_Annotations (Template (svc_Configuration (Spec (ksvc_prepareResource l g c))))) k =
     (case fmlookup (setAutoScaler c (cfg_AutoscaleConfig (Spec g))) k of
        Some v \<Rightarrow> Some v
      | None \<Rightarrow>
          if HasPrefix k ''rcs.dana.io'' \<or> HasPrefix k ''kubectl.kubernetes.io/'' then None
          else fmlookup (Annotations (Meta c)) k)"
    by (simp add: ksvc_prepareResource_def Let_def ksvcAnnotations_def CappAPIGroup_def
        kubectlKubernetesIOAnnotationPrefix_def cong: option.case_cong)
next
  show "fmlookup (tmpl_Labels (Template (svc_Configuration (Spec (ksvc_prepareResource l g c))))) k' =
     (if k' = ''rcs.dana.io/parent-capp'' then Some (Name (Meta c)) else fmlookup (Labels (Meta c)) k')"
    by (simp add: ksvc_prepareResource_def Let_def CappResourceKey_def CappAPIGroup_def)
next
  have app: "appendNFSVolumes vs ns =
      vs @ map (\<lambda>n. \<lparr>vol_Name = nfs_Name n, vol_Source = PersistentVolumeClaim (nfs_Name n)\<rparr>) ns" for vs ns
    by (induction vs ns rule: appendNFSVolumes.induct) simp_all
  show "\<exists>vs. rev_Volumes (tmpl_Spec (Template (svc_Configuration (Spec (ksvc_prepareResource l g c))))) =
     vs @ map (\<lambda>n. \<lparr>vol_Name = nfs_Name n, vol_Source = PersistentVolumeClaim (nfs_Name n)\<rparr>)
            (cs_NFSVolumes (Spec c))"
    by (simp add: ksvc_prepareResource_def Let_def app)
qed

section \<open>Event sources\<close>

text \<open>
  Updating a KafkaSource keeps its consumer group. When the source is already there, its
  spec becomes the one prepared from the Capp except for the consumer group, which stays the
  stored one, so that a change of the group in the Capp does not lose the position in the
  topics; the Capp owns it, and no other source is touched. The number of consumers is the
  configured one, 1 by default, and 0 for a disabled Capp.
\<close>

theorem kafka_keeps_consumer_group:
  assumes api: "kafka_api cl" and lib: "owner_refs_lib l"
    and orig: "tlookup (kafkasources w) (key_of (kafka_prepareResource c s cfg)) = Some orig"
    and live: "\<not> terminating orig"
  shows "\<exists>t r. kafka_createOrUpdate l cl c s cfg w = (Ok (), w\<lparr>kafkasources := t\<rparr>)
     \<and> tlookup t = (tlookup (kafkasources w))(key_of (kafka_prepareResource c s cfg) \<mapsto> r)
     \<and> Spec r = (Spec (kafka_prepareResource c s cfg))\<lparr>kfs_ConsumerGroup := kfs_ConsumerGroup (Spec orig)\<rparr>
     \<and> kfs_Consumers (Spec r) = Some (if cs_State (Spec c) = CappStateDisabled then 0
          else case kc_Consumers cfg of None \<Rightarrow> 1 | Some n \<Rightarrow> n)
     \<and> l_HasOwnerReference l (OwnerReferences (Meta r)) c = Ok True"
proof -
  let ?d = "kafka_prepareResource c s cfg"
  let ?spec = "(Spec ?d)\<lparr>kfs_ConsumerGroup := kfs_ConsumerGroup (Spec orig)\<rparr>"
  have kapi: "kind_api (c_kafkasources cl) kafkasources kafkasources_update"
    using api by (simp add: kafka_api_def)
  have key: "key_of orig = key_of ?d" by (rule tlookup_Some_key [OF orig])
  then have "Namespace (Meta orig) = Namespace (Meta c)" by (simp add: key_of_def)
  then obtain refs where refs: "l_SetOwnerReference l c (Meta orig) = Ok refs"
      "l_HasOwnerReference l refs c = Ok True"
    using owner_refs_libD [OF lib] by metis
  let ?r = "orig\<lparr>Spec := ?spec, Meta := (Meta orig)\<lparr>OwnerReferences := refs\<rparr>\<rparr>"
  have rkey: "key_of ?r = key_of ?d" using key by (simp add: key_of_def)
  have consumers: "kfs_Consumers ?spec = Some (if cs_State (Spec c) = CappStateDisabled then 0
          else case kc_Consumers cfg of None \<Rightarrow> 1 | Some n \<Rightarrow> n)"
    by (simp add: kafka_prepareResource_def Let_def)
  have get: "kget (c_kafkasources cl) (Namespace (Meta ?d)) (Name (Meta ?d)) w = (Ok orig, w)"
    using kind_api.get_found [OF kapi] orig by (simp add: key_of_def)
  have run: "kafka_createOrUpdate l cl c s cfg w =
      (if Spec orig = ?spec \<and> OwnerReferences (Meta orig) = refs then (Ok (), w)
       else UpdateResource (c_kafkasources cl) ?r w)"
    using get refs(1)
    by (simp add: kafka_createOrUpdate_def Let_def handle_Ok andThen_Ok ensureOwnerReference_def
        updateManagedResourceIfNeeded_def managedResourceNeedsUpdate_def)
  show ?thesis
  proof (cases "Spec orig = ?spec \<and> OwnerReferences (Meta orig) = refs")
    case True
    with run refs(2) orig consumers show ?thesis
      by (intro exI [of _ "kafkasources w"] exI [of _ orig]) (auto simp: fun_upd_idem)
  next
    case False
    obtain t r where t: "kupdate (c_kafkasources cl) ?r w = (Ok (), kafkasources_update (\<lambda>_. t) w)"
        "persisted ?r r" "tlookup t = (tlookup (kafkasources w))(key_of ?r \<mapsto> r)"
      using kind_api.update_current [OF kapi, of w ?r orig] orig live rkey by auto
    then have "kafka_createOrUpdate l cl c s cfg w = (Ok (), w\<lparr>kafkasources := t\<rparr>)"
      using run False by (auto simp: UpdateResource_def)
    with t(2,3) rkey refs(2) consumers show ?thesis
      by (intro exI [of _ t] exI [of _ r]) (simp add: persisted_def)
  qed
qed

text \<open>The second source of the sample Capp, as it was created under another group.\<close>

definition ordersConfig :: kafka_source_configuration where
  "ordersConfig = the (src_Kafka (sampleSources ! 1))"

definition oldOrders :: kafka_source where
  "oldOrders = (kafka_prepareResource sampleCapp (sampleSources ! 1) ordersConfig)
     \<lparr>Spec := (Spec (kafka_prepareResource sampleCapp (sampleSources ! 1) ordersConfig))
        \<lparr>kfs_ConsumerGroup := ''old'', kfs_Topics := []\<rparr>\<rparr>"

theorem kafka_keeps_consumer_group_witness:
  "\<exists>t r. kafka_createOrUpdate mem_lib mem_client sampleCapp (sampleSources ! 1) ordersConfig
       (sampleWorld\<lparr>kafkasources := [oldOrders]\<rparr>) = (Ok (), sampleWorld\<lparr>kafkasources := t\<rparr>)
     \<and> tlookup t (NamespacedName ''team'' ''web-orders'') = Some r
     \<and> kfs_ConsumerGroup (Spec r) = ''old'' \<and> kfs_Consumers (Spec r) = Some 2"
proof -
  have k: "key_of oldOrders = NamespacedName ''team'' ''web-orders''"
    "key_of (kafka_prepareResource sampleCapp (sampleSources ! 1) ordersConfig)
       = NamespacedName ''team'' ''web-orders''" "\<not> terminating oldOrders"
    by (simp_all add: oldOrders_def key_of_def sampleSources_def kafka_prepareResource_def Let_def
        newMeta_def terminating_def)
  have "kafka_api mem_client" using mem_managers_api by (simp add: managers_api_def)
  from kafka_keeps_consumer_group [OF this mem_owner_refs_lib, of "sampleWorld\<lparr>kafkasources := [oldOrders]\<rparr>"
      sampleCapp "sampleSources ! 1" ordersConfig oldOrders] k
  obtain t r where "kafka_createOrUpdate mem_lib mem_client sampleCapp (sampleSources ! 1) ordersConfig
       (sampleWorld\<lparr>kafkasources := [oldOrders]\<rparr>) = (Ok (), sampleWorld\<lparr>kafkasources := t\<rparr>)"
    "tlookup t (NamespacedName ''team'' ''web-orders'') = Some r"
    "kfs_ConsumerGroup (Spec r) = kfs_ConsumerGroup (Spec oldOrders)"
    "kfs_Consumers (Spec r) = Some (if cs_State (Spec sampleCapp) = CappStateDisabled then 0
          else case kc_Consumers ordersConfig of None \<Rightarrow> 1 | Some n \<Rightarrow> n)"
    by (auto simp: tlookup_Cons)
  then show ?thesis
    by (intro exI [of _ t] exI [of _ r])
      (simp add: oldOrders_def ordersConfig_def sample_defs CappStateDisabled_def)
qed

text \<open>
  After a run of the PingSource manager on a live Capp that has ping sources, the stored
  PingSources that carry the Capp's label are only those its sources ask for, each of which
  is there with the prepared spec: orphans of removed or retyped sources are gone.
\<close>

theorem ping_sources_exact:
  assumes "ping_api cl" "owner_refs_lib l" "DeletionTimestamp (Meta c) = None"
    and "ping_calm g c w" "ping_IsRequired c"
  shows "\<exists>t ev. ping_Manage l cl g c w = (Ok (), w\<lparr>events := ev, pingsources := t\<rparr>)
     \<and> (\<forall>d \<in> set (ping_desired c). \<exists>r. tlookup t (key_of d) = Some r \<and> Spec r = Spec d)
     \<and> (\<forall>r. managed_by c fmempty t r \<longrightarrow> Name (Meta r) \<in> set (ping_desiredNames c))"
proof -
  obtain t ev where t: "ping_Manage l cl g c w = (Ok (), w\<lparr>events := ev, pingsources := t\<rparr>)"
      "ping_settled l g c (w\<lparr>events := ev, pingsources := t\<rparr>)"
    using ping_mgr.settles [OF assms(1-4)] by auto
  have "\<exists>r. tlookup t (key_of d) = Some r \<and> Spec r = Spec d" if "d \<in> set (ping_desired c)" for d
    using t(2) assms(5) that
    by (fastforce simp: ping_settled_def sources_settled_def in_place_def ping_plan_def
        split: option.splits)
  moreover have "Name (Meta r) \<in> set (ping_desiredNames c)" if "managed_by c fmempty t r" for r
    using t(2) assms(5) that
    unfolding ping_desiredNames_wanted ping_settled_def sources_settled_def ping_desired_def by simp
  ultimately show ?thesis using t(1) by blast
qed

theorem ping_sources_exact_witness:
  "\<exists>t ev. ping_Manage mem_lib mem_client sampleConfig sampleCapp sampleWorld
     = (Ok (), sampleWorld\<lparr>events := ev, pingsources := t\<rparr>)"
proof -
  have "ping_api mem_client" using mem_managers_api by (simp add: managers_api_def)
  moreover have "ping_calm sampleConfig sampleCapp sampleWorld"
    using sample_calm [unfolded all_calm_def, rule_format, of MPingSource] by simp
  moreover have "ping_IsRequired sampleCapp" by (simp add: ping_IsRequired_def sample_defs)
  ultimately show ?thesis
    using ping_sources_exact [OF _ mem_owner_refs_lib, of mem_client sampleCapp sampleConfig sampleWorld]
    by auto
qed

section \<open>Logging, mappings, volumes\<close>

text \<open>
  The two logging objects go together. The flow is required exactly when the output is,
  and that only for a supported log type; then the flow sends the log lines of the Capp's
  Knative configuration to that output, in the same namespace, and the output has exactly one
  of the two destinations, with the Capp's host, user and password secret.
\<close>

theorem flow_feeds_output:
  "flow_IsRequired c = output_IsRequired c
   \<and> (output_IsRequired c \<longrightarrow>
        key_of (output_prepareResource c) = key_of (flow_prepareResource c)
        \<and> fl_LocalOutputRefs (Spec (flow_prepareResource c)) = [Name (Meta (output_prepareResource c))]
        \<and> (let x = Spec (output_prepareResource c); h = newElasticHTTPOutput (cs_LogSpec (Spec c)) in
           if log_Type (cs_LogSpec (Spec c)) = ''elastic''
           then out_ElasticsearchDatastream x = None
             \<and> map_option eo_HTTPOutput (out_Elasticsearch x) = Some h
           else log_Type (cs_LogSpec (Spec c)) = ''elastic-datastream'' \<and> out_Elasticsearch x = None
             \<and> map_option ed_HTTPOutput (out_ElasticsearchDatastream x) = Some h))"
  by (auto simp: flow_IsRequired_def output_IsRequired_def isLogSpecRequired_def isSupportedLogType_def
      syslogNGOutputCreators_def LogTypeElastic_def LogTypeElasticDataStream_def output_prepareResource_def
      flow_prepareResource_def newMeta_def key_of_def createElasticsearchOutput_def
      createElasticDataStreamOutput_def Let_def split: if_splits)

theorem flow_feeds_output_witness:
  "flow_IsRequired sampleCapp
   \<and> fl_LocalOutputRefs (Spec (flow_prepareResource sampleCapp)) = [Name (Meta (output_prepareResource sampleCapp))]"
proof -
  have "output_IsRequired sampleCapp"
    by (simp add: output_IsRequired_def isLogSpecRequired_def isSupportedLogType_def
        syslogNGOutputCreators_def LogTypeElastic_def sample_defs zeroLogSpec_def)
  with flow_feeds_output [of sampleCapp] show ?thesis by simp
qed

text \<open>
  Cleaning up the domain mappings takes the TLS secrets along. Every mapping with the
  Capp's label is deleted, or left to the garbage collector when the Capp that owns it is
  being deleted itself, and the TLS secret named after it is deleted in either case; no other
  mapping and no other secret is touched.
\<close>

theorem dm_CleanUp_drops:
  assumes "dm_api cl" and "owner_refs_lib l"
  shows "\<exists>t s. dm_CleanUp l cl c w = (Ok (), w\<lparr>domainmappings := t, secrets := s\<rparr>)
     \<and> (\<forall>r. managed_by c fmempty (domainmappings w) r \<longrightarrow>
          (if kept_for_gc l c (Meta r) then tlookup t (key_of r) = Some r else removed t r)
          \<and> secret_dropped (secrets w) s (tls_key (Namespace (Meta r)) (Name (Meta r))))
     \<and> (\<forall>k. (\<nexists>r. managed_by c fmempty (domainmappings w) r \<and> key_of r = k) \<longrightarrow>
          tlookup t k = tlookup (domainmappings w) k)
     \<and> (\<forall>k. (\<nexists>r. managed_by c fmempty (domainmappings w) r
                \<and> tls_key (Namespace (Meta r)) (Name (Meta r)) = k) \<longrightarrow>
          tlookup s k = tlookup (secrets w) k)"
proof -
  obtain v where v: "dm_CleanUp l cl c w = (Ok (), dm_put v w)"
     "\<forall>r. managed_by c fmempty (domainmappings w) r \<longrightarrow> dm_dropped l c w (dm_put v w) r"
     "\<forall>k. (\<nexists>r. managed_by c fmempty (domainmappings w) r \<and> key_of r = k) \<longrightarrow>
           tlookup (fst v) k = tlookup (domainmappings w) k"
     "\<forall>k. (\<nexists>r. managed_by c fmempty (domainmappings w) r \<and> dm_tls_key r = k) \<longrightarrow>
           tlookup (snd v) k = tlookup (secrets w) k"
    using dm_CleanUp_effect [OF assms(1) owner_refs_lib_readable [OF assms(2)]] by blast
  show ?thesis
  proof (intro exI conjI)
    show "dm_CleanUp l cl c w = (Ok (), w\<lparr>domainmappings := fst v, secrets := snd v\<rparr>)"
      using v(1) by (simp add: dm_put_def)
  qed (use v(2-4) in \<open>simp_all add: dm_dropped_def dm_tls_key_def cong: if_cong\<close>)
qed

text \<open>The mapping of the sample Capp and its secret.\<close>

definition mappedWorld :: world where
  "mappedWorld = sampleWorld\<lparr>domainmappings := [dm_desired sampleConfig sampleCapp sampleWorld],
     secrets := [sampleSecret ''shop.z.io-tls'' [], sampleSecret ''other'' []]\<rparr>"

theorem dm_CleanUp_drops_witness:
  "\<exists>t s. dm_CleanUp mem_lib mem_client sampleCapp mappedWorld
       = (Ok (), mappedWorld\<lparr>domainmappings := t, secrets := s\<rparr>)
     \<and> tlookup t (NamespacedName ''team'' ''shop.z.io'') = None
     \<and> tlookup s (NamespacedName ''team'' ''shop.z.io-tls'') = None
     \<and> tlookup s (NamespacedName ''team'' ''other'') \<noteq> None"
proof -
  let ?d = "dm_desired sampleConfig sampleCapp sampleWorld"
  have rn: "GenerateResourceName ''shop.z.io'' ''z.io.'' = ''shop.z.io''"
    by (simp add: GenerateResourceName_def Let_def TrimSuffix_def HasSuffix_def)
  have d: "key_of ?d = NamespacedName ''team'' ''shop.z.io''" "Namespace (Meta ?d) = ''team''"
    "Name (Meta ?d) = ''shop.z.io''" "Finalizers (Meta ?d) = []"
    "Labels (Meta ?d) = ManagedResourceLabels ''web''"
    using rn by (simp_all add: dm_desired_def Let_def newMeta_def key_of_def)
      (simp_all add: sample_defs sampleConfig_def)
  have managed: "managed_by sampleCapp fmempty (domainmappings mappedWorld) r \<longleftrightarrow> r = ?d" for r
    by (auto simp: managed_by_def mappedWorld_def tlookup_Cons d selected_def key_of_def fmsubset_alt_def
        split: if_splits)
  have tls: "tls_key ''team'' ''shop.z.io'' = NamespacedName ''team'' ''shop.z.io-tls''"
    by (simp add: tls_key_def generateTLSSecretName_def)
  have "dm_api mem_client" using mem_managers_api by (simp add: managers_api_def)
  from dm_CleanUp_drops [OF this mem_owner_refs_lib, of sampleCapp mappedWorld]
  obtain t s where ts: "dm_CleanUp mem_lib mem_client sampleCapp mappedWorld
      = (Ok (), mappedWorld\<lparr>domainmappings := t, secrets := s\<rparr>)" "removed t ?d"
    "secret_dropped (secrets mappedWorld) s (NamespacedName ''team'' ''shop.z.io-tls'')"
    "\<forall>k. k \<noteq> NamespacedName ''team'' ''shop.z.io-tls'' \<longrightarrow> tlookup s k = tlookup (secrets mappedWorld) k"
    by (auto simp: managed d tls kept_for_gc_def)
  then show ?thesis
    by (intro exI [of _ t] exI [of _ s])
      (auto simp: removed_def secret_dropped_def d mappedWorld_def tlookup_Cons sampleSecret_def newMeta_def
        key_of_def split: option.splits)
qed

text \<open>
  The NfsPvc manager never deletes a volume that another Capp or another version of the
  spec asked for: while the Capp has volumes, a run leaves every NfsPvc that is not one of
  them exactly as it is, the Capp's own from volumes since removed included.
\<close>

theorem nfs_others_untouched:
  assumes "nfs_api cl" "owner_refs_lib l" "nfs_IsRequired c" "nfs_calm g c w"
  shows "\<exists>t ev. nfs_Manage l cl g c w = (Ok (), w\<lparr>events := ev, nfspvcs := t\<rparr>)
     \<and> (\<forall>v \<in> set (cs_NFSVolumes (Spec c)). \<exists>r.
          tlookup t (NamespacedName (Namespace (Meta c)) (nfs_Name v)) = Some r
          \<and> Spec r = Spec (nfs_prepareVolume c v))
     \<and> (\<forall>n. n \<notin> nfs_Name ` set (cs_NFSVolumes (Spec c)) \<longrightarrow>
          tlookup t (NamespacedName (Namespace (Meta c)) n)
            = tlookup (nfspvcs w) (NamespacedName (Namespace (Meta c)) n))"
proof -
  obtain t ev where t: "nfs_createOrUpdate l cl c w = (Ok (), w\<lparr>events := ev, nfspvcs := t\<rparr>)"
      "\<forall>d \<in> set (nfs_prepareResource c). in_place l c d (up_merge (nfs_plan d)) t"
      "\<forall>k. k \<notin> key_of ` set (nfs_prepareResource c) \<longrightarrow> tlookup t k = tlookup (nfspvcs w) k"
    using nfs_createOrUpdate_settles [OF assms] by auto
  have key: "key_of (nfs_prepareVolume c v) = NamespacedName (Namespace (Meta c)) (nfs_Name v)" for v
    by (simp add: nfs_prepareVolume_def newMeta_def key_of_def)
  have "\<exists>r. tlookup t (NamespacedName (Namespace (Meta c)) (nfs_Name v)) = Some r
      \<and> Spec r = Spec (nfs_prepareVolume c v)" if "v \<in> set (cs_NFSVolumes (Spec c))" for v
    using t(2) that key [of v]
    by (fastforce simp: nfs_prepareResource_def in_place_def nfs_plan_def split: option.splits)
  moreover have "tlookup t (NamespacedName (Namespace (Meta c)) n)
      = tlookup (nfspvcs w) (NamespacedName (Namespace (Meta c)) n)"
    if "n \<notin> nfs_Name ` set (cs_NFSVolumes (Spec c))" for n
    using t(3) that by (auto simp: nfs_prepareResource_def key image_iff)
  ultimately show ?thesis using t(1) assms(3) by (auto simp: nfs_Manage_def)
qed

theorem nfs_others_untouched_witness:
  "\<exists>t ev. nfs_Manage mem_lib mem_client sampleConfig sampleCapp sampleWorld
     = (Ok (), sampleWorld\<lparr>events := ev, nfspvcs := t\<rparr>)"
proof -
  have "nfs_api mem_client" using mem_managers_api by (simp add: managers_api_def)
  moreover have "nfs_calm sampleConfig sampleCapp sampleWorld"
    using sample_calm [unfolded all_calm_def, rule_format, of MNfsPvc] by simp
  moreover have "nfs_IsRequired sampleCapp" by (simp add: nfs_IsRequired_def sample_defs)
  ultimately show ?thesis
    using nfs_others_untouched [OF _ mem_owner_refs_lib, of mem_client sampleCapp sampleConfig sampleWorld]
    by auto
qed

end
