(* ===== verification/PanicFreedom.thy ===== *)
theory PanicFreedom
  imports StatusProperties WebhookAdmission
begin

text \<open>
  Where the operator can panic: whatever the API server answers, with clients and libraries
  that return (a value or an error), a run of the Capp controller panics only in slicing the
  host name, and the webhooks never do.
\<close>

section \<open>A calculus of panic freedom\<close>

named_theorems returning

definition returns :: "('w, 'a) action \<Rightarrow> bool" where
  "returns m \<longleftrightarrow> (\<forall>w p. fst (m w) \<noteq> Panic p)"

lemma returnsD: "returns m \<Longrightarrow> m w \<noteq> (Panic p, w')"
  by (metis fst_conv returns_def)

lemma returns_ok [returning]: "returns (ok x)"
  and returns_throw [returning]: "returns (throw e)"
  and returns_Eventf [returning]: "returns (Eventf a b n)"
  and returns_now [returning]: "returns now"
  by (simp_all add: returns_def Eventf_def now_def)

lemma returns_Pair [returning]: "returns (Pair (Ok x))"
  by (simp add: returns_def)

lemma returns_lift: "(\<And>p. r \<noteq> Panic p) \<Longrightarrow> returns (lift r)"
  by (simp add: returns_def)

lemma returns_handle_value:
  assumes "returns m" and "\<And>e. returns (h e)" and "\<And>w x w'. m w = (Ok x, w') \<Longrightarrow> returns (f x)"
  shows "returns (handle m h f)"
  unfolding returns_def
proof (intro allI)
  fix w p
  obtain r w' where m: "m w = (r, w')" by (cases "m w")
  show "fst (handle m h f w) \<noteq> Panic p"
  proof (cases r)
    case (Ok x)
    with m assms(3) [of w x w'] show ?thesis by (simp add: handle_def returns_def)
  next
    case (Err e)
    with m assms(2) [of e] show ?thesis by (simp add: handle_def returns_def)
  next
    case (Panic q)
    with m assms(1) show ?thesis by (simp add: returnsD)
  qed
qed

lemma returns_handle [returning]:
  "returns m \<Longrightarrow> (\<And>e. returns (h e)) \<Longrightarrow> (\<And>x. returns (f x)) \<Longrightarrow> returns (handle m h f)"
  by (rule returns_handle_value)

lemma returns_andThen_value:
  "returns m \<Longrightarrow> (\<And>w x w'. m w = (Ok x, w') \<Longrightarrow> returns (f x)) \<Longrightarrow> returns (andThen m f)"
  unfolding andThen_def by (rule returns_handle_value) (simp_all add: returns_throw)

lemma returns_andThen [returning]:
  "returns m \<Longrightarrow> (\<And>x. returns (f x)) \<Longrightarrow> returns (andThen m f)"
  by (rule returns_andThen_value)

lemma returns_wrapErr [returning]: "returns m \<Longrightarrow> returns (wrapErr s m)"
  and returns_if [returning]: "returns m \<Longrightarrow> returns n \<Longrightarrow> returns (if b then m else n)"
  and returns_let [returning]: "returns (g x) \<Longrightarrow> returns (let y = x in g y)"
  and returns_option [returning]: "returns n \<Longrightarrow> (\<And>x. returns (k x)) \<Longrightarrow>
    returns (case z of None \<Rightarrow> n | Some x \<Rightarrow> k x)"
  by (auto simp: wrapErr_def split: option.split intro: returning)

lemma returns_ignoreNotFound [returning]: "returns m \<Longrightarrow> returns (ignoreNotFound m)"
  unfolding ignoreNotFound_def by (intro returning)

lemma returns_forEach [returning]: "(\<And>x. returns (f x)) \<Longrightarrow> returns (forEach f xs)"
  by (induction xs) (auto intro: returning)

lemma lift_ok: "lift (Ok x) = ok x"
  by (simp add: fun_eq_iff)

text \<open>The computations that always panic.\<close>

definition panics :: "('w, 'a) action \<Rightarrow> bool" where
  "panics m \<longleftrightarrow> (\<forall>w. \<exists>p. fst (m w) = Panic p)"

lemma panics_handle:
  assumes "panics m" shows "panics (handle m h f)"
  unfolding panics_def
proof
  fix w
  from assms obtain p w' where "m w = (Panic p, w')" by (auto simp: panics_def) (metis prod.collapse)
  then show "\<exists>p. fst (handle m h f w) = Panic p" by (simp add: handle_Panic)
qed

lemma panics_handle_cont:
  assumes "returns m" "\<And>e. panics (h e)" "\<And>x. panics (f x)" shows "panics (handle m h f)"
  unfolding panics_def
proof
  fix w
  obtain r w' where m: "m w = (r, w')" by (cases "m w")
  then show "\<exists>p. fst (handle m h f w) = Panic p"
    using assms by (cases r) (auto simp: handle_def panics_def dest: returnsD)
qed

lemma panics_andThen: "panics m \<Longrightarrow> panics (andThen m f)"
  by (simp add: andThen_def panics_handle)

lemma manageAll_panics:
  assumes "\<forall>entry \<in> set es. returns (rm_Manage (rme_Manager entry) c)"
    and "panics (rm_Manage (rme_Manager entry) c)"
  shows "panics (manageAll (es @ entry # es') c)"
  using assms(1)
proof (induction es)
  case Nil
  from assms(2) show ?case by (simp add: panics_handle)
next
  case (Cons a es)
  then show ?case by (auto intro!: panics_handle_cont panics_andThen)
qed

section \<open>Clients and libraries that return\<close>

definition kind_returns :: "('sp, 'st) kind_client \<Rightarrow> bool" where
  "kind_returns kc \<longleftrightarrow> (\<forall>ns n. returns (kget kc ns n)) \<and> (\<forall>ns sel lim. returns (klist kc ns sel lim))
     \<and> (\<forall>r. returns (kcreate kc r)) \<and> (\<forall>r. returns (kupdate kc r)) \<and> (\<forall>r. returns (kdelete kc r))"

definition client_returns :: "client \<Rightarrow> bool" where
  "client_returns cl \<longleftrightarrow>
     kind_returns (c_capps cl) \<and> kind_returns (c_cappconfigs cl) \<and> kind_returns (c_capprevisions cl)
     \<and> kind_returns (c_ksvcs cl) \<and> kind_returns (c_knrevisions cl) \<and> kind_returns (c_nfspvcs cl)
     \<and> kind_returns (c_outputs cl) \<and> kind_returns (c_flows cl) \<and> kind_returns (c_certificates cl)
     \<and> kind_returns (c_domainmappings cl) \<and> kind_returns (c_cnamerecords cl)
     \<and> kind_returns (c_pingsources cl) \<and> kind_returns (c_kafkasources cl) \<and> kind_returns (c_secrets cl)
     \<and> (\<forall>c. returns (c_statusUpdate cl c))"

definition lib_returns :: "lib \<Rightarrow> bool" where
  "lib_returns l \<longleftrightarrow> (\<forall>c m p. l_SetOwnerReference l c m \<noteq> Panic p)
     \<and> (\<forall>rs c p. l_HasOwnerReference l rs c \<noteq> Panic p)"

text \<open>
  The slice in \<open>GenerateRecordName\<close> is out of range for one host name only, the zone itself
  without its dot.
\<close>

definition sliceable :: "capp_config \<Rightarrow> capp \<Rightarrow> bool" where
  "sliceable g c \<longleftrightarrow>
     (dns_IsRequired c \<longrightarrow> dns_Zone (cfg_DNSConfig (Spec g)) \<noteq> rt_Hostname (cs_RouteSpec (Spec c)) @ ''.'')"

lemma GenerateRecordName_Ok:
  assumes "z \<noteq> h @ ''.''"
  shows "\<exists>n. GenerateRecordName h z = Ok n"
proof (cases "HasSuffix z ''.''")
  case True
  then obtain bare where "z = bare @ ''.''" by (auto simp: HasSuffix_iff)
  with assms show ?thesis by (simp add: GenerateRecordName_cases)
next
  case False
  then show ?thesis
    by (auto simp: GenerateRecordName_def TrimSuffix_def slice_to_def HasSuffix_def)
qed

lemma dns_prepareResource_Ok:
  assumes "dns_Zone (cfg_DNSConfig (Spec g)) \<noteq> rt_Hostname (cs_RouteSpec (Spec c)) @ ''.''"
  shows "\<exists>d. dns_prepareResource g c = Ok d"
  using GenerateRecordName_Ok [OF assms] by (auto simp: dns_prepareResource_def Let_def)

lemma dns_prepareResource_Panic:
  assumes "dns_Zone (cfg_DNSConfig (Spec g)) = rt_Hostname (cs_RouteSpec (Spec c)) @ ''.''"
  shows "dns_prepareResource g c = Panic ''slice bounds out of range''"
  using assms by (simp add: dns_prepareResource_def GenerateRecordName_cases)

lemma kind_returnsD [returning]:
  assumes "kind_returns kc"
  shows "returns (kget kc ns n)" "returns (klist kc ns sel lim)" "returns (CreateResource kc r)"
    "returns (UpdateResource kc r)" "returns (DeleteResource kc r)" "returns (kdelete kc r)"
  using assms
  by (auto simp: kind_returns_def CreateResource_def UpdateResource_def DeleteResource_def intro: returning)

section \<open>The run of the controller once the Capp and the configuration are read\<close>

definition reconcileFound :: "lib \<Rightarrow> client \<Rightarrow> capp_config \<Rightarrow> capp \<Rightarrow> reconcile_result act" where
  "reconcileFound l cl g c =
     andThen (wrapErr ''failed to handle Capp deletion''
                (handleResourceDeletion l cl c (resourceManagers l cl g))) (\<lambda>deleted.
       if deleted then ok \<lparr>RequeueAfter = 0\<rparr>
       else
     andThen (wrapErr ''failed to ensure finalizer in Capp'' (ensureFinalizer l cl c)) (\<lambda>_.
     handle (SyncApplication l cl c (resourceManagers l cl g) g)
       (\<lambda>err. if hasConflictError err then ok \<lparr>RequeueAfter = RequeueTime\<rparr>
              else throw (wrap ''failed to sync Capp'' err))
       (\<lambda>_. ok \<lparr>RequeueAfter = 0\<rparr>)))"

lemma Reconcile_found:
  assumes "kget (c_capps cl) (nn_Namespace req) (nn_Name req) w = (Ok c, w1)"
    and "GetCappConfig cl w1 = (Ok g, w2)"
  shows "Reconcile l cl req w = reconcileFound l cl g c w2"
proof -
  have cfg: "wrapErr m (GetCappConfig cl) w1 = (Ok g, w2)" for m
    using assms(2) by (rule wrapErr_Ok)
  have run: "handle (kget (c_capps cl) (nn_Namespace req) (nn_Name req)) h f w = f c w1"
    "andThen (wrapErr m (GetCappConfig cl)) f' w1 = f' g w2" for h f m and f' :: "capp_config \<Rightarrow> 'r act"
    using assms(1) cfg by (simp_all add: handle_Ok andThen_Ok)
  show ?thesis unfolding Reconcile_def reconcileFound_def run Let_def by (rule refl)
qed

locale returning_environment =
  fixes l :: lib and cl :: client
  assumes client: "client_returns cl" and lib: "lib_returns l"
begin

lemma kinds [returning]:
  "kind_returns (c_capps cl)" "kind_returns (c_cappconfigs cl)"
  "kind_returns (c_ksvcs cl)" "kind_returns (c_knrevisions cl)" "kind_returns (c_nfspvcs cl)"
  "kind_returns (c_outputs cl)" "kind_returns (c_flows cl)" "kind_returns (c_certificates cl)"
  "kind_returns (c_domainmappings cl)" "kind_returns (c_cnamerecords cl)"
  "kind_returns (c_pingsources cl)" "kind_returns (c_kafkasources cl)" "kind_returns (c_secrets cl)"
  "returns (c_statusUpdate cl c)"
  using client by (simp_all add: client_returns_def)

lemma owner [returning]:
  "returns (lift (ensureOwnerReference l capp obj kind))"
  "returns (ownedByDeleted l capp m)"
  "returns (lift (dnsRecordNeedsUpdate l current desired capp))"
  using lib
  by (auto simp: lib_returns_def ensureOwnerReference_def ownedByDeleted_def dnsRecordNeedsUpdate_def
      intro!: returns_lift returns_ok split: result.splits if_splits)

lemma helpers [returning]:
  "(\<And>r. returns (create r)) \<Longrightarrow> returns (createManagedResource l create capp obj kind ec ef)"
  "(\<And>r. returns (update r)) \<Longrightarrow> returns (updateManagedResourceIfNeeded update obj' s s' os)"
  "kind_returns kc \<Longrightarrow> returns (deleteOwnedResource l kc capp r)"
  by (auto simp: createManagedResource_def updateManagedResourceIfNeeded_def deleteOwnedResource_def
      intro!: returning)

lemma lists [returning]:
  "kind_returns kc \<Longrightarrow> returns (deleteOwnedResources l kc capp rs)"
  "kind_returns kc \<Longrightarrow> returns (listManagedResources kc capp kind extra)"
  "returns (GetCappConfig cl)"
  by (auto simp: deleteOwnedResources_def listManagedResources_def GetCappConfig_def intro!: returning)

lemma single_managers [returning]:
  "returns (ksvc_CleanUp l cl c)" "returns (ksvc_createOrUpdate l cl g c)"
  "returns (output_CleanUp l cl c)" "returns (output_createOrUpdate l cl c)"
  "returns (flow_CleanUp l cl c)" "returns (flow_createOrUpdate l cl c)"
  unfolding ksvc_CleanUp_def ksvc_createOrUpdate_def output_CleanUp_def output_createOrUpdate_def
    flow_CleanUp_def flow_createOrUpdate_def
  by (intro returning)+

lemma listed_managers [returning]:
  "returns (cert_CleanUp l cl c)" "returns (cert_createOrUpdate l cl g c)"
  "returns (nfs_CleanUp l cl c)" "returns (nfs_createOrUpdate l cl c)"
  "returns (dns_CleanUp l cl c)"
  unfolding cert_CleanUp_def cert_createOrUpdate_def nfs_CleanUp_def nfs_createOrUpdate_def
    dns_CleanUp_def getPreviousCertificates_def getPreviousNFSPVCs_def getPreviousDNSRecords_def
  by (intro returning)+

lemma source_managers [returning]:
  "returns (ping_CleanUp l cl c)" "returns (ping_createOrUpdate l cl c s pc)"
  "returns (ping_cleanUpOrphans cl c)"
  "returns (kafka_CleanUp l cl c)" "returns (kafka_createOrUpdate l cl c s kc)"
  "returns (kafka_cleanUpOrphans cl c)"
  unfolding ping_CleanUp_def ping_createOrUpdate_def ping_cleanUpOrphans_def getPingSources_def
    kafka_CleanUp_def kafka_createOrUpdate_def kafka_cleanUpOrphans_def getKafkaSources_def
  by (intro returning)+

lemma domain_mapping_manager [returning]:
  "returns (dm_CleanUp l cl c)" "returns (dm_createOrUpdate l cl g c)"
  unfolding dm_CleanUp_def dm_createOrUpdate_def dm_cleanUpItem_def dm_prepareResource_def
    getPreviousDomainMappings_def
  by (intro returning)+

lemma dns_Manage_returns [returning]:
  assumes "sliceable g c"
  shows "returns (dns_Manage l cl g c)"
proof (cases "dns_IsRequired c")
  case True
  with assms dns_prepareResource_Ok obtain d where "dns_prepareResource g c = Ok d"
    unfolding sliceable_def by blast
  then have "returns (lift (dns_prepareResource g c))" by (simp add: returns_def)
  then have "returns (dns_createOrUpdate l cl g c)"
    unfolding dns_createOrUpdate_def by (intro returning)
  with True show ?thesis by (simp add: dns_Manage_def)
next
  case False
  then show ?thesis by (simp add: dns_Manage_def listed_managers)
qed

lemma manages [returning]:
  "returns (ksvc_Manage l cl g c)" "returns (nfs_Manage l cl g c)" "returns (output_Manage l cl c)"
  "returns (flow_Manage l cl c)" "returns (cert_Manage l cl g c)" "returns (dm_Manage l cl g c)"
  "returns (ping_Manage l cl g c)" "returns (kafka_Manage l cl g c)"
  unfolding ksvc_Manage_def nfs_Manage_def output_Manage_def flow_Manage_def cert_Manage_def
    dm_Manage_def ping_Manage_def kafka_Manage_def
  by (intro returning; assumption?)+

lemma all_managers:
  assumes "entry \<in> set (resourceManagers l cl g)"
  shows "returns (rm_CleanUp (rme_Manager entry) c)"
    and "sliceable g c \<Longrightarrow> returns (rm_Manage (rme_Manager entry) c)"
  using assms by (auto simp: resourceManagers_def intro: returning)

lemma status_parts [returning]:
  "returns (buildKnativeStatus l cl c b)" "returns (buildLoggingStatus l cl c ls b)"
  "kind_returns kc \<Longrightarrow> returns (statusOrZero kc ns n b)"
  "returns (buildEventingStatus l cl c)"
  unfolding buildKnativeStatus_def buildRevisionsStatus_def buildLoggingStatus_def statusOrZero_def
    buildEventingStatus_def listOwnedEventSources_def Let_def
  by (intro returning; assumption?)+

lemma route_and_volumes [returning]:
  "returns (buildRouteStatus cl c b1 b2 b3 g)" "returns (buildVolumesStatusOf cl c vs)"
  "returns (buildVolumesStatus cl c b)"
proof -
  show "returns (buildRouteStatus cl c b1 b2 b3 g)"
    unfolding buildRouteStatus_def buildDomainMappingStatus_def buildDNSRecordStatus_get
      buildCertificateStatus_def by (intro returning)
  show volumes: "returns (buildVolumesStatusOf cl c vs)" for vs
    by (induction vs) (auto intro!: returning)
  show "returns (buildVolumesStatus cl c b)"
    unfolding buildVolumesStatus_def by (intro returning volumes)
qed

lemma requiredBy_DNSRecord:
  "requiredBy (ManagerMap (resourceManagers l cl g)) ''DNSRecord'' c = Ok (dns_IsRequired c)"
  by (simp add: requiredBy_def ManagerMap_def resourceManagers_def)

lemma status [returning]:
  "returns (SyncStatus l cl c (ManagerMap (resourceManagers l cl g)) g errs)"
  unfolding SyncStatus_def observeStatus_def buildCappConditions_def requiredBy_managers
    requiredBy_DNSRecord computeReadyCondition_first lift_ok
  by (intro returning)

lemma finalizer_parts [returning]:
  "\<forall>entry \<in> set es. returns (rm_CleanUp (rme_Manager entry) c) \<Longrightarrow> returns (handleResourceDeletion l cl c es)"
  "returns (ensureFinalizer l cl c)"
proof -
  show "returns (handleResourceDeletion l cl c es)"
    if entries: "\<forall>entry \<in> set es. returns (rm_CleanUp (rme_Manager entry) c)"
  proof -
    have clean: "returns (forEach (\<lambda>entry. rm_CleanUp (rme_Manager entry) c) xs)" if "set xs \<subseteq> set es" for xs
      using entries that by (induction xs) (auto intro: returning)
    then show ?thesis
      unfolding handleResourceDeletion_def finalizeCapp_def removeFinalizer_def
      by (intro returning clean) simp
  qed
  show "returns (ensureFinalizer l cl c)"
    unfolding ensureFinalizer_def by (intro returning)
qed

lemma managers_return:
  "\<forall>entry \<in> set es. returns (rm_Manage (rme_Manager entry) c) \<Longrightarrow> returns (manageAll es c)"
  by (induction es) (auto intro!: returning)

lemma application:
  assumes "sliceable g c"
  shows "returns (SyncApplication l cl c (resourceManagers l cl g) g)"
proof -
  have "returns (manageAll (resourceManagers l cl g) c)"
    using all_managers(2) assms by (intro managers_return) blast
  then show ?thesis
    unfolding SyncApplication_def by (intro returning)
qed

lemma reconcile_found [returning]:
  assumes "sliceable g c"
  shows "returns (reconcileFound l cl g c)"
  unfolding reconcileFound_def
  using all_managers(1) application [OF assms] by (intro returning) auto

lemma Reconcile_returns:
  assumes "\<And>c w1 g w2. kget (c_capps cl) (nn_Namespace req) (nn_Name req) w = (Ok c, w1) \<Longrightarrow>
      GetCappConfig cl w1 = (Ok g, w2) \<Longrightarrow> sliceable g c"
  shows "fst (Reconcile l cl req w) \<noteq> Panic p"
proof (cases "kget (c_capps cl) (nn_Namespace req) (nn_Name req) w")
  case get: (Pair r w1)
  have kget: "returns (kget (c_capps cl) (nn_Namespace req) (nn_Name req))" by (intro returning)
  have config: "returns (GetCappConfig cl)" by (rule lists)
  show ?thesis
  proof (cases r)
    case (Err e)
    with get show ?thesis by (simp add: Reconcile_def handle_Err)
  next
    case (Panic q)
    with get returnsD [OF kget] show ?thesis by blast
  next
    case (Ok c)
    note found = get [unfolded Ok]
    show ?thesis
    proof (cases "GetCappConfig cl w1")
      case cfg: (Pair r2 w2)
      show ?thesis
      proof (cases r2)
        case (Err e)
        with cfg have "wrapErr m (GetCappConfig cl) w1 = (Err (wrap m e), w2)" for m
          by (simp add: wrapErr_Err)
        with found show ?thesis by (simp add: Reconcile_def handle_def andThen_def)
      next
        case (Panic q)
        with cfg returnsD [OF config] show ?thesis by blast
      next
        case (Ok g)
        from reconcile_found [OF assms [OF found cfg [unfolded Ok]]] show ?thesis
          unfolding Reconcile_found [OF found cfg [unfolded Ok]] returns_def by blast
      qed
    qed
  qed
qed

lemma application_panics:
  assumes "\<not> sliceable g c"
  shows "panics (SyncApplication l cl c (resourceManagers l cl g) g)"
proof -
  have "panics (dns_Manage l cl g c)"
    using assms dns_prepareResource_Panic [of g c]
    by (auto simp: sliceable_def dns_Manage_def dns_createOrUpdate_def panics_def andThen_def handle_def)
  then have "panics (rm_Manage (rme_Manager (resourceManagers l cl g ! 6)) c)"
    by (simp add: resourceManagers_def)
  moreover have "\<forall>entry \<in> set (take 6 (resourceManagers l cl g)). returns (rm_Manage (rme_Manager entry) c)"
    by (simp add: resourceManagers_def manages)
  moreover have "resourceManagers l cl g = take 6 (resourceManagers l cl g)
      @ resourceManagers l cl g ! 6 # drop 7 (resourceManagers l cl g)"
    by (simp add: resourceManagers_def)
  ultimately have "panics (manageAll (resourceManagers l cl g) c)"
    using manageAll_panics by metis
  then show ?thesis unfolding SyncApplication_def by (rule panics_andThen)
qed

lemma deny [returning]: "returns m \<Longrightarrow> (\<And>x. returns (f x)) \<Longrightarrow> returns (denyOn m f)"
  unfolding denyOn_def by (intro returning)

lemma validator_returns:
  assumes "old = None \<longleftrightarrow> operation = Create" and "operation \<in> {Create, Update}"
  shows "returns (validator_handle l cl operation c old)"
proof -
  have hasKeys: "hasKeys s n ks \<noteq> Panic p" for s n ks p
    by (induction ks) (auto simp: Let_def)
  have "validateHostnameImmutability operation c old \<noteq> Panic p" for p
    using assms by (auto simp: validateHostnameImmutability_def Let_def split: option.split)
  moreover have "hostnameCheck l operation c old ps \<noteq> Panic p" for ps p
    using assms isDomainNameTaken_no_panic [of l]
    by (auto simp: hostnameCheck_def Let_def split: option.split result.split)
  moreover have "validateNFSVolumeMounts c \<noteq> Panic p" "validateTemplateAnnotations l c \<noteq> Panic p"
    "validateScaleSpec c as \<noteq> Panic p" for p as
    by (auto simp: validateNFSVolumeMounts_def validateTemplateAnnotations_def validateScaleSpec_def
        check_def Let_def split: option.split)
  moreover have secret: "returns (validateSecretHasKeys cl ns n ks)" for ns n ks
    unfolding validateSecretHasKeys_def by (intro returning returns_lift hasKeys)
  moreover have "returns (validateSource l cl c k i src)" for k i src
    unfolding validateSource_def
    by (intro returning returns_lift secret)
      (auto simp: validatePingSourceConfiguration_def validateKafkaSourceConsumers_def Let_def split: option.split)
  then have "returns (validateSources l cl c k seen i srcs)" for k seen i srcs
    by (induction srcs arbitrary: seen i) (auto intro!: returning)
  ultimately show ?thesis
    unfolding validator_handle_def validateEventSources_def
    by (intro returning returns_lift)
qed

end

section \<open>The properties\<close>

lemma mem_kind_returns: "kind_returns (mem_kind tab upd)"
  by (auto simp: kind_returns_def mem_kind_def returns_def mem_get_def mem_list_def mem_create_def
      mem_update_def mem_delete_def Let_def split: option.split)

lemma mem_client_returns: "client_returns mem_client"
  by (auto simp: client_returns_def mem_client_def mem_kind_returns returns_def split: option.split)

lemma mem_lib_returns: "lib_returns mem_lib"
  by (simp add: lib_returns_def mem_lib_def)

interpretation mem: returning_environment mem_lib mem_client
  by unfold_locales (rule mem_client_returns mem_lib_returns)+

text \<open>
  C14: A run of the Capp controller does not panic, whatever the API server answers and whatever
  the objects hold, if the client and the library return values or errors; the one exception is
  a Capp whose host name is the DNS zone itself.
\<close>

theorem Reconcile_never_panics:
  assumes "client_returns cl" "lib_returns l"
    and "\<And>c w1 g w2. kget (c_capps cl) (nn_Namespace req) (nn_Name req) w = (Ok c, w1) \<Longrightarrow>
      GetCappConfig cl w1 = (Ok g, w2) \<Longrightarrow>
      dns_Zone (cfg_DNSConfig (Spec g)) \<noteq> rt_Hostname (cs_RouteSpec (Spec c)) @ ''.''"
  shows "fst (Reconcile l cl req w) \<noteq> Panic p"
proof -
  from assms(1,2) have "returning_environment l cl" by (simp add: returning_environment_def)
  then show ?thesis
    using returning_environment.Reconcile_returns [of l cl req w p] assms(3) unfolding sliceable_def by blast
qed

theorem Reconcile_never_panics_witness:
  "fst (Reconcile mem_lib mem_client (key_of sampleCapp) sampleWorld) \<noteq> Panic ''slice bounds out of range''"
proof (rule Reconcile_never_panics [OF mem_client_returns mem_lib_returns])
  fix c w1 g w2
  assume "kget (c_capps mem_client) (nn_Namespace (key_of sampleCapp)) (nn_Name (key_of sampleCapp)) sampleWorld
      = (Ok c, w1)" "GetCappConfig mem_client w1 = (Ok g, w2)"
  then have "c = sampleCapp" "g = sampleConfig"
    by (auto simp: GetCappConfig_def mem_client_def mem_kind_def mem_get_def)
  then show "dns_Zone (cfg_DNSConfig (Spec g)) \<noteq> rt_Hostname (cs_RouteSpec (Spec c)) @ ''.''"
    by (simp add: sample_defs sampleConfig_def)
qed

text \<open>
  C15: For a live Capp that has its finalizer the exception is exact: with such a client and
  library, the run panics if and only if the Capp has a host name and that is the zone.
\<close>

theorem Reconcile_panics_iff:
  assumes "client_returns cl" "lib_returns l"
    and "kget (c_capps cl) (nn_Namespace req) (nn_Name req) w = (Ok c, w1)"
    and "GetCappConfig cl w1 = (Ok g, w2)"
    and "DeletionTimestamp (Meta c) = None"
    and "l_ContainsFinalizer l (Finalizers (Meta c)) cappCleanupFinalizer"
  shows "(\<exists>p. fst (Reconcile l cl req w) = Panic p) \<longleftrightarrow>
     rt_Hostname (cs_RouteSpec (Spec c)) \<noteq> []
     \<and> dns_Zone (cfg_DNSConfig (Spec g)) = rt_Hostname (cs_RouteSpec (Spec c)) @ ''.''"
proof -
  from assms(1,2) have env: "returning_environment l cl" by (simp add: returning_environment_def)
  note found = Reconcile_found [OF assms(3,4)]
  have live: "reconcileFound l cl g c w2 =
      handle (SyncApplication l cl c (resourceManagers l cl g) g)
        (\<lambda>err. if hasConflictError err then ok \<lparr>RequeueAfter = RequeueTime\<rparr>
              else throw (wrap ''failed to sync Capp'' err)) (\<lambda>_. ok \<lparr>RequeueAfter = 0\<rparr>) w2"
    using assms(5,6)
    by (simp add: reconcileFound_def handle_def andThen_def wrapErr_def handleResourceDeletion_def
        ensureFinalizer_def)
  show ?thesis
  proof (cases "sliceable g c")
    case True
    with returning_environment.reconcile_found [OF env] show ?thesis
      by (auto simp: found returns_def sliceable_def dns_IsRequired_def)
  next
    case False
    from returning_environment.application_panics [OF env False]
    have "panics (SyncApplication l cl c (resourceManagers l cl g) g)" .
    then show ?thesis
      using False panics_handle [of "SyncApplication l cl c (resourceManagers l cl g) g"]
      unfolding found live sliceable_def dns_IsRequired_def panics_def by blast
  qed
qed

text \<open>The sample Capp with the zone as its host name.\<close>

definition zoneCapp :: capp where
  "zoneCapp = sampleCapp\<lparr>Spec := sampleSpec\<lparr>cs_RouteSpec :=
     (cs_RouteSpec sampleSpec)\<lparr>rt_Hostname := ''z.io''\<rparr>\<rparr>\<rparr>"

theorem Reconcile_panics_iff_witness:
  "\<exists>p. fst (Reconcile mem_lib mem_client (key_of zoneCapp) (sampleWorld\<lparr>capps := [zoneCapp]\<rparr>)) = Panic p"
proof -
  have key: "key_of zoneCapp = NamespacedName ''team'' ''web''" by (simp add: zoneCapp_def key_of_def)
  have "kget (c_capps mem_client) (nn_Namespace (key_of zoneCapp)) (nn_Name (key_of zoneCapp))
      (sampleWorld\<lparr>capps := [zoneCapp]\<rparr>) = (Ok zoneCapp, sampleWorld\<lparr>capps := [zoneCapp]\<rparr>)"
    by (simp add: key mem_client_def mem_kind_def mem_get_def tlookup_Cons)
  moreover have "GetCappConfig mem_client (sampleWorld\<lparr>capps := [zoneCapp]\<rparr>)
      = (Ok sampleConfig, sampleWorld\<lparr>capps := [zoneCapp]\<rparr>)"
    by (simp add: GetCappConfig_def mem_client_def mem_kind_def mem_get_def)
  moreover have "DeletionTimestamp (Meta zoneCapp) = None"
    "l_ContainsFinalizer mem_lib (Finalizers (Meta zoneCapp)) cappCleanupFinalizer"
    by (simp_all add: zoneCapp_def mem_lib_def cappCleanupFinalizer_def)
  ultimately show ?thesis
    using Reconcile_panics_iff [OF mem_client_returns mem_lib_returns]
    by (simp add: zoneCapp_def sampleConfig_def)
qed

text \<open>
  C36: Neither webhook panics on a creation or an update, whatever the request holds, if the
  client, the decoder and the marshaller return values or errors: the mutator assigns to no
  entry of a nil map, whichever maps of the Capp and its containers are nil, and the validator
  dereferences no missing old object.
\<close>

theorem webhooks_never_panic:
  assumes "client_returns cl" "lib_returns l"
    and "\<And>raw p. decode raw \<noteq> Panic p" "\<And>c p. marshal c \<noteq> Panic p"
    and "req_Operation req \<in> {Create, Update}"
  shows "fst (mutator_Handle decode marshal cl req w) \<noteq> Panic p
    \<and> fst (validator_Handle l decode cl req w) \<noteq> Panic p"
proof -
  from assms(1,2) have env: "returning_environment l cl" by (simp add: returning_environment_def)
  have "returns (mutator_Handle decode marshal cl req)"
    unfolding mutator_Handle_def mutator_handle_mutated
    by (intro returning returns_lift returning_environment.lists [OF env] assms(3,4)) simp_all
  moreover have "returns (validator_Handle l decode cl req)"
  proof (cases "req_Operation req = Update")
    case True
    show ?thesis
      unfolding validator_Handle_def True simp_thms if_True
      by (intro returning returns_lift returning_environment.validator_returns [OF env] assms(3)) simp_all
  next
    case False
    with assms(5) have new: "req_Operation req = Create" "(Create = Update) = False" by simp_all
    show ?thesis
      unfolding validator_Handle_def new if_False
      by (intro returning returns_lift returning_environment.validator_returns [OF env] assms(3)) simp_all
  qed
  ultimately show ?thesis by (simp add: returns_def)
qed

theorem webhooks_never_panic_witness:
  "fst (mutator_Handle (\<lambda>raw. Ok sampleCapp) (\<lambda>c. Ok []) mem_client sampleRequest sampleWorld) \<noteq> Panic ''nil pointer dereference''
   \<and> fst (validator_Handle mem_lib (\<lambda>raw. Ok sampleCapp) mem_client sampleRequest sampleWorld) \<noteq> Panic ''nil pointer dereference''"
  by (rule webhooks_never_panic [OF mem_client_returns mem_lib_returns]) (simp_all add: sampleRequest_def)

end
