(* ===== verification/ScopedAccess.thy ===== *)
theory ScopedAccess
  imports CappReconcile
begin

text \<open>
  Which objects a run may touch: footprints, the scope a client keeps to, and the rules by which
  the footprint of an action follows from those of its parts. The locale \<open>scoped_api\<close> has
  them for the helpers of one kind, the in-memory client is an instance.
\<close>

section \<open>Change footprints\<close>

datatype object_kind = CappKind | CappRevisionKind | ServiceKind | NfsPvcKind | OutputKind | FlowKind
  | CertificateKind | DomainMappingKind | CNAMERecordKind | PingSourceKind | KafkaSourceKind
  | SecretKind

type_synonym footprint = "object_kind \<Rightarrow> key \<Rightarrow> bool"

definition same_but :: "(key \<Rightarrow> bool) \<Rightarrow> ('sp, 'st) table \<Rightarrow> ('sp, 'st) table \<Rightarrow> bool" where
  "same_but K t t' \<longleftrightarrow> (\<forall>j. \<not> K j \<longrightarrow> tlookup t' j = tlookup t j)"

definition changes_only :: "footprint \<Rightarrow> world \<Rightarrow> world \<Rightarrow> bool" where
  "changes_only D w w' \<longleftrightarrow>
     cappconfigs w' = cappconfigs w \<and> knrevisions w' = knrevisions w
     \<and> same_but (D CappKind) (capps w) (capps w')
     \<and> same_but (D CappRevisionKind) (capprevisions w) (capprevisions w')
     \<and> same_but (D ServiceKind) (ksvcs w) (ksvcs w')
     \<and> same_but (D NfsPvcKind) (nfspvcs w) (nfspvcs w')
     \<and> same_but (D OutputKind) (outputs w) (outputs w')
     \<and> same_but (D FlowKind) (flows w) (flows w')
     \<and> same_but (D CertificateKind) (certificates w) (certificates w')
     \<and> same_but (D DomainMappingKind) (domainmappings w) (domainmappings w')
     \<and> same_but (D CNAMERecordKind) (cnamerecords w) (cnamerecords w')
     \<and> same_but (D PingSourceKind) (pingsources w) (pingsources w')
     \<and> same_but (D KafkaSourceKind) (kafkasources w) (kafkasources w')
     \<and> same_but (D SecretKind) (secrets w) (secrets w')"

lemma same_but_refl [simp]: "same_but K t t"
  by (simp add: same_but_def)

lemma same_but_trans: "same_but K t t' \<Longrightarrow> same_but K t' t'' \<Longrightarrow> same_but K t t''"
  by (simp add: same_but_def)

lemma same_but_mono: "same_but K t t' \<Longrightarrow> (\<And>j. K j \<Longrightarrow> K' j) \<Longrightarrow> same_but K' t t'"
  by (auto simp: same_but_def)

lemma changes_only_refl [simp]: "changes_only D w w"
  by (simp add: changes_only_def)

lemma changes_only_trans:
  "changes_only D w w' \<Longrightarrow> changes_only D w' w'' \<Longrightarrow> changes_only D w w''"
  unfolding changes_only_def by (elim conjE, intro conjI) (simp_all, (erule (1) same_but_trans)+)

lemma changes_only_mono:
  "changes_only D w w' \<Longrightarrow> (\<And>k j. D k j \<Longrightarrow> D' k j) \<Longrightarrow> changes_only D' w w'"
  unfolding changes_only_def by (elim conjE, intro conjI) (assumption | erule same_but_mono, blast)+

lemma changes_only_preorder [simp]: "reflp (changes_only D)" "transp (changes_only D)"
  by (auto intro!: reflpI transpI intro: changes_only_trans)

lemma changes_only_events: "changes_only D w (events_update h w)"
  by (simp add: changes_only_def)

section \<open>A client that acts on the object it is asked for\<close>

text \<open>
  The documented scope of each call, whatever it returns: a read changes nothing and answers
  with the object, or with objects of the namespace and labels, it was asked for; a write
  touches at most the object with the key of the one it was given.
\<close>

definition scoped_write ::
  "(world \<Rightarrow> ('sp, 'st) table) \<Rightarrow> ((('sp, 'st) table \<Rightarrow> ('sp, 'st) table) \<Rightarrow> world \<Rightarrow> world) \<Rightarrow> key \<Rightarrow>
   unit act \<Rightarrow> bool" where
  "scoped_write tab upd k m \<longleftrightarrow>
     (\<forall>w. \<exists>t. snd (m w) = upd (\<lambda>_. t) w \<and> same_but (\<lambda>j. j = k) (tab w) t)"

definition scoped_kind ::
  "('sp, 'st) kind_client \<Rightarrow> (world \<Rightarrow> ('sp, 'st) table) \<Rightarrow>
   ((('sp, 'st) table \<Rightarrow> ('sp, 'st) table) \<Rightarrow> world \<Rightarrow> world) \<Rightarrow> bool" where
  "scoped_kind kc tab upd \<longleftrightarrow>
     (\<forall>ns n w. snd (kget kc ns n w) = w
        \<and> (\<forall>r. fst (kget kc ns n w) = Ok r \<longrightarrow> key_of r = NamespacedName ns n))
     \<and> (\<forall>ns sel lim w. snd (klist kc ns sel lim w) = w
        \<and> (\<forall>rs. fst (klist kc ns sel lim w) = Ok rs \<longrightarrow>
             (\<forall>r \<in> set rs. tlookup (tab w) (key_of r) = Some r \<and> selected sel (Meta r)
                \<and> (ns \<noteq> [] \<longrightarrow> Namespace (Meta r) = ns))))
     \<and> (\<forall>r. scoped_write tab upd (key_of r) (kcreate kc r))
     \<and> (\<forall>r. scoped_write tab upd (key_of r) (kupdate kc r))
     \<and> (\<forall>r. scoped_write tab upd (key_of r) (kdelete kc r))"

definition scoped_client :: "client \<Rightarrow> bool" where
  "scoped_client cl \<longleftrightarrow>
     scoped_kind (c_capps cl) capps capps_update
     \<and> scoped_kind (c_cappconfigs cl) cappconfigs cappconfigs_update
     \<and> scoped_kind (c_capprevisions cl) capprevisions capprevisions_update
     \<and> scoped_kind (c_ksvcs cl) ksvcs ksvcs_update
     \<and> scoped_kind (c_knrevisions cl) knrevisions knrevisions_update
     \<and> scoped_kind (c_nfspvcs cl) nfspvcs nfspvcs_update
     \<and> scoped_kind (c_outputs cl) outputs outputs_update
     \<and> scoped_kind (c_flows cl) flows flows_update
     \<and> scoped_kind (c_certificates cl) certificates certificates_update
     \<and> scoped_kind (c_domainmappings cl) domainmappings domainmappings_update
     \<and> scoped_kind (c_cnamerecords cl) cnamerecords cnamerecords_update
     \<and> scoped_kind (c_pingsources cl) pingsources pingsources_update
     \<and> scoped_kind (c_kafkasources cl) kafkasources kafkasources_update
     \<and> scoped_kind (c_secrets cl) secrets secrets_update
     \<and> (\<forall>c. scoped_write capps capps_update (key_of c) (c_statusUpdate cl c))"

section \<open>One kind\<close>

text \<open>The object has the label of the Capp.\<close>

definition claimed :: "capp \<Rightarrow> ('sp, 'st) table \<Rightarrow> key \<Rightarrow> bool" where
  "claimed c t j \<longleftrightarrow> nn_Namespace j = Namespace (Meta c)
     \<and> (\<exists>r. tlookup t j = Some r \<and> fmlookup (Labels (Meta r)) CappResourceKey = Some (Name (Meta c)))"

named_theorems staying

lemma stays_if [staying]: "stays R m \<Longrightarrow> stays R n \<Longrightarrow> stays R (if b then m else n)"
  and stays_option [staying]: "stays R n \<Longrightarrow> (\<And>x. stays R (k x)) \<Longrightarrow>
    stays R (case z of None \<Rightarrow> n | Some x \<Rightarrow> k x)"
  and stays_let [staying]: "stays R (g x) \<Longrightarrow> stays R (let y = x in g y)"
  by (auto split: option.split)

lemma stays_split: "(\<And>a b. z = (a, b) \<Longrightarrow> stays R (k a b)) \<Longrightarrow> stays R (case z of (a, b) \<Rightarrow> k a b)"
  by (cases z) simp

lemmas [staying] = stays_rules changes_only_preorder

lemma stays_Eventf [staying]: "stays (changes_only D) (Eventf a b n)"
  by (simp add: stays_def Eventf_def changes_only_events)

lemma stays_same:
  assumes "\<And>w. snd (m w) = w" "reflp R"
  shows "stays R m"
  using assms by (simp add: stays_def reflpD)

lemma ensureOwnerReference_key:
  "ensureOwnerReference l c r kind = Ok r' \<Longrightarrow> key_of r' = key_of r"
  by (auto simp: ensureOwnerReference_def key_of_def split: result.splits)

lemma stays_owner [staying]:
  assumes "\<And>r'. key_of r' = key_of r \<Longrightarrow> stays R (f r')" and "reflp R"
  shows "stays R (andThen (lift (ensureOwnerReference l c r kind)) f)"
  using assms ensureOwnerReference_key [of l c r kind]
  by (cases "ensureOwnerReference l c r kind")
    (auto simp: stays_def andThen_def handle_def reflpD)

lemma stays_prepared:
  assumes "\<And>x. r = Ok x \<Longrightarrow> stays R (f x)" and "reflp R"
  shows "stays R (andThen (lift r) f)"
  using assms by (cases r) (auto simp: stays_def andThen_def handle_def reflpD)

lemma stays_andThen_value:
  assumes "stays R m" "\<And>w x w'. m w = (Ok x, w') \<Longrightarrow> stays R (f x)" "transp R"
  shows "stays R (andThen m f)"
  unfolding stays_def
proof
  fix w
  obtain r w' where m: "m w = (r, w')" by (cases "m w")
  with staysD [OF assms(1), of w] have "R w w'" by simp
  with m assms(2,3) show "R w (snd (andThen m f w))"
    by (cases r) (auto simp: andThen_def handle_def dest!: staysD [where w = w'] elim: transpE)
qed

lemma stays_owned [staying]: "reflp R \<Longrightarrow> stays R (ownedByDeleted l c m)"
  by (simp add: ownedByDeleted_def stays_def reflpD)

lemma selected_lookup:
  "selected sel m \<Longrightarrow> fmlookup sel x = Some y \<Longrightarrow> fmlookup (Labels m) x = Some y"
  by (auto simp: selected_def fmsubset.rep_eq map_le_def) (metis fmdom'I)

definition plan_stays :: "(world \<Rightarrow> world \<Rightarrow> bool) \<Rightarrow> ('sp, 'st) upsert_plan \<Rightarrow> bool" where
  "plan_stays R p \<longleftrightarrow>
     stays R (up_after p) \<and> (\<forall>r m. stays R m \<longrightarrow> stays R (up_wrap p r m))"

lemma plans_stay [staying]:
  "plan_stays (changes_only D) (ksvc_plan l g c)" "plan_stays (changes_only D) (nfs_plan nd)"
  "plan_stays (changes_only D) (output_plan c)" "plan_stays (changes_only D) (flow_plan c)"
  "plan_stays (changes_only D) (cert_plan g c)" "plan_stays (changes_only D) (ping_plan pd)"
  "plan_stays (changes_only D) (kafka_plan kd)"
  by (auto simp: plan_stays_def ksvc_plan_def nfs_plan_def output_plan_def flow_plan_def cert_plan_def
      ping_plan_def kafka_plan_def intro!: staying)

lemma scoped_get:
  assumes "scoped_kind kc tab upd" "kget kc ns n w = (x, v)"
  shows "v = w" "x = Ok r \<Longrightarrow> key_of r = NamespacedName ns n"
proof -
  from assms(1) have "snd (kget kc ns n w) = w"
    "\<And>r. fst (kget kc ns n w) = Ok r \<Longrightarrow> key_of r = NamespacedName ns n"
    unfolding scoped_kind_def by blast+
  with assms(2) show "v = w" "x = Ok r \<Longrightarrow> key_of r = NamespacedName ns n" by simp_all
qed

lemma scoped_get_then:
  assumes "scoped_kind kc tab upd" and "\<And>e. stays R (h e)"
    and "\<And>r. key_of r = NamespacedName ns n \<Longrightarrow> stays R (f r)" and "reflp R"
  shows "stays R (handle (kget kc ns n) h f)"
  unfolding stays_def
proof
  fix w
  obtain x v where x: "kget kc ns n w = (x, v)" by (metis surj_pair)
  with scoped_get [OF assms(1) x] assms(2-4) show "R w (snd (handle (kget kc ns n) h f w))"
    by (cases x) (auto simp: handle_def stays_def reflpD)
qed

lemma scoped_reads:
  assumes "scoped_kind kc tab upd" "reflp R"
  shows "stays R (kget kc ns n)" "stays R (klist kc ns sel lim)"
  using assms by (auto simp: scoped_kind_def intro: stays_same)

locale scoped_api =
  fixes kc :: "('sp, 'st) kind_client"
    and tab :: "world \<Rightarrow> ('sp, 'st) table"
    and upd :: "(('sp, 'st) table \<Rightarrow> ('sp, 'st) table) \<Rightarrow> world \<Rightarrow> world"
    and kd :: object_kind
  assumes scoped: "scoped_kind kc tab upd"
    and upd_changes: "same_but (D kd) (tab w) t \<Longrightarrow> changes_only D w (upd (\<lambda>_. t) w)"
begin

lemma kget_world: "snd (kget kc ns n w) = w"
  using scoped_get(1) [OF scoped] by (metis surj_pair snd_conv)

lemma kget_key: "kget kc ns n w = (Ok r, v) \<Longrightarrow> key_of r = NamespacedName ns n"
  using scoped_get(2) [OF scoped] by blast

lemma klist_world: "snd (klist kc ns sel lim w) = w"
  using scoped unfolding scoped_kind_def by blast

lemma klist_items:
  assumes "klist kc ns sel lim w = (Ok rs, v)" and "r \<in> set rs"
  shows "tlookup (tab w) (key_of r) = Some r" "selected sel (Meta r)"
    "ns \<noteq> [] \<Longrightarrow> Namespace (Meta r) = ns"
proof -
  have "\<forall>r \<in> set rs. tlookup (tab w) (key_of r) = Some r \<and> selected sel (Meta r)
      \<and> (ns \<noteq> [] \<longrightarrow> Namespace (Meta r) = ns)"
    using scoped assms(1) unfolding scoped_kind_def by (metis fst_conv)
  with assms(2) show "tlookup (tab w) (key_of r) = Some r" "selected sel (Meta r)"
    "ns \<noteq> [] \<Longrightarrow> Namespace (Meta r) = ns" by auto
qed

lemma reads [staying]: "reflp R \<Longrightarrow> stays R (kget kc ns n)" "reflp R \<Longrightarrow> stays R (klist kc ns sel lim)"
  using scoped_reads [OF scoped] by blast+

lemmas get_then [staying] = scoped_get_then [OF scoped]

lemma scoped_write_stays:
  "scoped_write tab upd k m \<Longrightarrow> D kd k \<Longrightarrow> stays (changes_only D) m"
  unfolding stays_def
proof
  fix w
  assume "scoped_write tab upd k m" and k: "D kd k"
  then obtain t where t: "snd (m w) = upd (\<lambda>_. t) w" "same_but (\<lambda>j. j = k) (tab w) t"
    unfolding scoped_write_def by blast
  from t(2) k have "same_but (D kd) (tab w) t" by (auto elim: same_but_mono)
  then show "changes_only D w (snd (m w))" unfolding t(1) by (rule upd_changes)
qed

lemma writes [staying]:
  assumes "D kd (key_of r)"
  shows "stays (changes_only D) (CreateResource kc r)" "stays (changes_only D) (UpdateResource kc r)"
    "stays (changes_only D) (DeleteResource kc r)" "stays (changes_only D) (kdelete kc r)"
proof -
  note in_place_write = scoped_write_stays [where D = D and k = "key_of r", OF _ assms]
  have "stays (changes_only D) (kcreate kc r)" "stays (changes_only D) (kupdate kc r)"
    and del: "stays (changes_only D) (kdelete kc r)"
    using scoped by (auto simp: scoped_kind_def intro: in_place_write)
  then show "stays (changes_only D) (CreateResource kc r)" "stays (changes_only D) (UpdateResource kc r)"
    "stays (changes_only D) (DeleteResource kc r)" "stays (changes_only D) (kdelete kc r)"
    by (simp_all add: CreateResource_def UpdateResource_def DeleteResource_def stays_wrapErr)
qed

lemma created_stays [staying]:
  assumes "D kd (key_of r)"
  shows "stays (changes_only D) (createManagedResource l (CreateResource kc) c r kind ec ef)"
  unfolding createManagedResource_def
  by (intro staying) (simp_all add: assms)

lemma updated_stays [staying]:
  "D kd (key_of r) \<Longrightarrow> stays (changes_only D) (updateManagedResourceIfNeeded (UpdateResource kc) r s s' os)"
  unfolding updateManagedResourceIfNeeded_def by (intro staying) simp_all

lemma deleted_stays [staying]:
  "D kd (key_of r) \<Longrightarrow> stays (changes_only D) (deleteOwnedResource l kc c r)"
  unfolding deleteOwnedResource_def by (intro staying) simp_all

lemma upsert_stays [staying]:
  assumes "D kd (key_of d)" and "plan_stays (changes_only D) p"
  shows "stays (changes_only D) (upsert l kc c d p)"
proof -
  have plan: "stays (changes_only D) (up_after p)"
    "stays (changes_only D) m \<Longrightarrow> stays (changes_only D) (up_wrap p r m)" for r m
    using assms(2) by (simp_all add: plan_stays_def)
  show ?thesis
    unfolding upsert_def by (intro staying plan) (use assms(1) in \<open>auto simp: key_of_def\<close>)
qed

lemma cleanUpNamed_stays [staying]:
  assumes "D kd (key_of c)"
  shows "stays (changes_only D) (cleanUpNamed l kc c)"
  unfolding cleanUpNamed_def by (intro staying) (use assms in \<open>auto simp: key_of_def\<close>)

text \<open>A listing is of the objects the Capp claims.\<close>

lemma listed_claimed:
  assumes "fst (listManagedResources kc c kind extra w) = Ok rs" "r \<in> set rs"
    and "fmlookup extra CappResourceKey = None" and "Namespace (Meta c) \<noteq> []"
  shows "claimed c (tab w) (key_of r)"
proof -
  from assms(1) have "listManagedResources kc c kind extra w = (Ok rs, snd (listManagedResources kc c kind extra w))"
    by (cases "listManagedResources kc c kind extra w") simp
  then have run: "klist kc (Namespace (Meta c)) (fmap_of_list [(CappResourceKey, Name (Meta c))] ++\<^sub>f extra) None w
      = (Ok rs, w)"
    by (simp add: listManagedResources_def klist_world)
  have "fmlookup (fmap_of_list [(CappResourceKey, Name (Meta c))] ++\<^sub>f extra) CappResourceKey = Some (Name (Meta c))"
    using assms(3) by (simp add: fmlookup_of_list fmdom_notI)
  with klist_items [OF run assms(2)] assms(4) show ?thesis
    by (auto simp: claimed_def key_of_def dest: selected_lookup)
qed

lemma listed_then:
  assumes "fmlookup extra CappResourceKey = None" and "Namespace (Meta c) \<noteq> []"
    and "\<And>rs. (\<And>r. r \<in> set rs \<Longrightarrow> claimed c (tab w) (key_of r)) \<Longrightarrow> stays (changes_only D) (f rs)"
  shows "changes_only D w (snd (andThen (listManagedResources kc c kind extra) f w))"
proof -
  obtain x where x: "listManagedResources kc c kind extra w = (x, w)"
    using klist_world unfolding listManagedResources_def by (metis surj_pair snd_conv wrapErr_snd)
  show ?thesis
  proof (cases x)
    case (Ok rs)
    with x have "\<And>r. r \<in> set rs \<Longrightarrow> claimed c (tab w) (key_of r)"
      by (intro listed_claimed [where kind = kind, OF _ _ assms(1,2)]) simp_all
    then have "stays (changes_only D) (f rs)" by (rule assms(3))
    with x Ok show ?thesis by (simp add: andThen_Ok stays_def)
  qed (use x in \<open>simp_all add: andThen_def handle_def\<close>)
qed

lemma cleanUpListed_changes:
  assumes "fmlookup extra CappResourceKey = None" and "Namespace (Meta c) \<noteq> []"
    and "\<And>j. claimed c (tab w) j \<Longrightarrow> D kd j"
  shows "changes_only D w (snd (cleanUpListed l kc c kind extra w))"
  unfolding cleanUpListed_def deleteOwnedResources_def
  by (rule listed_then [OF assms(1,2)]) (intro staying, simp add: assms(3))

lemma orphans_changes:
  assumes "Namespace (Meta c) \<noteq> []" and "\<And>j. claimed c (tab w) j \<Longrightarrow> D kd j"
  shows "changes_only D w (snd (cleanUpOrphansOf kc c kind names w))"
  unfolding cleanUpOrphansOf_def deleteOrphan_def
  by (rule listed_then [OF _ assms(1)]) (simp, intro staying, simp_all add: assms(2))

end

section \<open>The in-memory client\<close>

lemma mem_write_scoped:
  assumes "\<And>w. upd (\<lambda>_. tab w) w = w"
  shows "scoped_write tab upd (key_of r) (mem_create tab upd r)"
    "scoped_write tab upd (key_of r) (mem_update tab upd r)"
    "scoped_write tab upd (key_of r) (mem_delete tab upd r)"
proof -
  have same: "\<exists>t. w = upd (\<lambda>_. t) w \<and> same_but K (tab w) t" for w K
    using assms [of w] by (intro exI [of _ "tab w"]) simp
  have put: "\<exists>t. upd (\<lambda>_. tput x (tab w)) w = upd (\<lambda>_. t) w \<and> same_but (\<lambda>j. j = k) (tab w) t"
    if "key_of x = k" for w k x
    using that by (intro exI [of _ "tput x (tab w)"]) (simp add: same_but_def tlookup_put)
  have remove: "\<exists>t. upd (\<lambda>_. tremove k (tab w)) w = upd (\<lambda>_. t) w \<and> same_but (\<lambda>j. j = k) (tab w) t"
    for w k by (intro exI [of _ "tremove k (tab w)"]) (simp add: same_but_def tlookup_remove)
  show "scoped_write tab upd (key_of r) (mem_create tab upd r)"
    unfolding scoped_write_def mem_create_def
    by (auto simp: key_of_def split: option.split intro!: same put)
  show "scoped_write tab upd (key_of r) (mem_update tab upd r)"
    unfolding scoped_write_def mem_update_def Let_def
    by (auto simp: key_of_def split: option.split intro!: same put remove)
  show "scoped_write tab upd (key_of r) (mem_delete tab upd r)"
    unfolding scoped_write_def mem_delete_def
    by (auto simp: key_of_def split: option.split intro!: same put remove dest: tlookup_Some_key)
qed

lemma mem_scoped_kind:
  assumes "\<And>w. upd (\<lambda>_. tab w) w = w"
  shows "scoped_kind (mem_kind tab upd) tab upd"
  unfolding scoped_kind_def
  using mem_write_scoped [where tab = tab and upd = upd] assms
  by (auto simp: mem_get_def mem_list_def Let_def split: option.splits
      dest: tlookup_Some_key dest!: in_set_takeD)

lemma mem_scoped_client: "scoped_client mem_client"
proof -
  have "scoped_write capps capps_update (key_of c) (c_statusUpdate mem_client c)" for c
    unfolding scoped_write_def
  proof
    fix w
    show "\<exists>t. snd (c_statusUpdate mem_client c w) = capps_update (\<lambda>_. t) w \<and> same_but (\<lambda>j. j = key_of c) (capps w) t"
    proof (cases "tlookup (capps w) (key_of c)")
      case None
      then show ?thesis by (intro exI [of _ "capps w"]) (simp add: mem_client_def)
    next
      case (Some c0)
      show ?thesis
      proof (cases "ResourceVersion (Meta c) = ResourceVersion (Meta c0)")
        case True
        with Some tlookup_Some_key [OF Some] show ?thesis
          by (intro exI [of _ "tput (c0\<lparr>Status := Status c\<rparr>) (capps w)"])
            (simp add: mem_client_def same_but_def tlookup_put key_of_def)
      qed (use Some in \<open>intro exI [of _ "capps w"], simp add: mem_client_def\<close>)
    qed
  qed
  then show ?thesis
    unfolding scoped_client_def mem_client_simps by (intro conjI allI mem_scoped_kind) simp_all
qed

end
