(* ===== verification/Isolation.thy ===== *)
theory Isolation
  imports ScopedAccess WatchProperties PanicFreedom
begin

text \<open>
  What the operator may touch. The service account of the operator can write every object of
  the kinds it manages, in every namespace, so nothing but the code keeps it to the objects of
  the Capp it reconciles. The theorems here say that it does, whatever errors the API server
  answers with: a run of the Capp controller changes no object but the Capp, the objects with
  the names it derives from the Capp and the objects with the label of the Capp, all of them in
  the namespace of the Capp; a run of the CappRevision controller no object but the Capp's
  revisions; and the webhooks nothing.
\<close>

section \<open>The objects of a Capp\<close>

text \<open>The names the managers give the objects they put in place.\<close>

definition own_name :: "capp_config \<Rightarrow> capp \<Rightarrow> object_kind \<Rightarrow> string \<Rightarrow> bool" where
  "own_name g c kd n \<longleftrightarrow>
     (case kd of
        NfsPvcKind \<Rightarrow> n \<in> nfs_Name ` set (cs_NFSVolumes (Spec c))
      | CertificateKind \<Rightarrow> n = routeObjectName g c
      | DomainMappingKind \<Rightarrow> n = routeObjectName g c
      | CNAMERecordKind \<Rightarrow> n = routeObjectName g c
      | SecretKind \<Rightarrow> n = generateTLSSecretName (routeObjectName g c)
      | PingSourceKind \<Rightarrow> n \<in> (\<lambda>s. Name (Meta c) @ ''-'' @ src_Name s) ` set (cs_Sources (Spec c))
      | KafkaSourceKind \<Rightarrow> n \<in> (\<lambda>s. Name (Meta c) @ ''-'' @ src_Name s) ` set (cs_Sources (Spec c))
      | CappRevisionKind \<Rightarrow> False
      | _ \<Rightarrow> n = Name (Meta c))"

text \<open>
  The objects with the label of the Capp; a TLS secret goes with the DomainMapping it is for.
\<close>

definition claims :: "capp \<Rightarrow> world \<Rightarrow> footprint" where
  "claims c w kd j \<longleftrightarrow>
     (case kd of
        NfsPvcKind \<Rightarrow> claimed c (nfspvcs w) j
      | CertificateKind \<Rightarrow> claimed c (certificates w) j
      | DomainMappingKind \<Rightarrow> claimed c (domainmappings w) j
      | CNAMERecordKind \<Rightarrow> claimed c (cnamerecords w) j
      | PingSourceKind \<Rightarrow> claimed c (pingsources w) j
      | KafkaSourceKind \<Rightarrow> claimed c (kafkasources w) j
      | SecretKind \<Rightarrow> (\<exists>x. claimed c (domainmappings w) (NamespacedName (nn_Namespace j) x)
                         \<and> nn_Name j = generateTLSSecretName x)
      | _ \<Rightarrow> False)"

definition ours :: "capp_config \<Rightarrow> capp \<Rightarrow> world \<Rightarrow> footprint" where
  "ours g c w kd j \<longleftrightarrow>
     nn_Namespace j = Namespace (Meta c) \<and> own_name g c kd (nn_Name j) \<or> claims c w kd j"

definition named_footprint :: "capp_config \<Rightarrow> capp \<Rightarrow> footprint" where
  "named_footprint g c kd j \<longleftrightarrow> nn_Namespace j = Namespace (Meta c) \<and> own_name g c kd (nn_Name j)"

lemma claimed_inherited:
  "same_but K t t' \<Longrightarrow> claimed c t' j \<Longrightarrow> claimed c t j \<or> K j"
  unfolding same_but_def claimed_def by metis

text \<open>What a run leaves to the Capp was the Capp's before.\<close>

lemma ours_inherited:
  assumes "changes_only (ours g c w) w w'" and "ours g c w' kd j"
  shows "ours g c w kd j"
proof (cases "claims c w' kd j")
  case False
  with assms(2) show ?thesis by (simp add: ours_def)
next
  case claim: True
  have tables: "same_but (ours g c w NfsPvcKind) (nfspvcs w) (nfspvcs w')"
    "same_but (ours g c w CertificateKind) (certificates w) (certificates w')"
    "same_but (ours g c w DomainMappingKind) (domainmappings w) (domainmappings w')"
    "same_but (ours g c w CNAMERecordKind) (cnamerecords w) (cnamerecords w')"
    "same_but (ours g c w PingSourceKind) (pingsources w) (pingsources w')"
    "same_but (ours g c w KafkaSourceKind) (kafkasources w) (kafkasources w')"
    using assms(1) by (simp_all add: changes_only_def)
  note inherited = tables [THEN claimed_inherited [where c = c]]
  have mapping: "ours g c w SecretKind (NamespacedName ns (generateTLSSecretName x))"
    if "claimed c (domainmappings w') (NamespacedName ns x)" for ns x
    using inherited(3) [OF that] by (auto simp: ours_def claims_def own_name_def)
  show ?thesis
  proof (cases kd)
    case SecretKind
    with claim obtain x where "claimed c (domainmappings w') (NamespacedName (nn_Namespace j) x)"
      "nn_Name j = generateTLSSecretName x" by (auto simp: claims_def)
    with mapping SecretKind show ?thesis by (metis namespaced_name.collapse)
  qed (use claim inherited [where j = j] in \<open>auto simp: claims_def ours_def\<close>)
qed

definition keeps_to :: "capp_config \<Rightarrow> capp \<Rightarrow> world \<Rightarrow> world \<Rightarrow> bool" where
  "keeps_to g c w w' \<longleftrightarrow> changes_only (ours g c w) w w'"

lemma keeps_to_preorder [simp, staying]: "reflp (keeps_to g c)" "transp (keeps_to g c)"
proof -
  show "reflp (keeps_to g c)" by (simp add: reflp_def keeps_to_def)
  show "transp (keeps_to g c)"
  proof (rule transpI)
    fix w w' w''
    assume "keeps_to g c w w'" "keeps_to g c w' w''"
    then have first: "changes_only (ours g c w) w w'" and "changes_only (ours g c w') w' w''"
      by (simp_all add: keeps_to_def)
    from this(2) have "changes_only (ours g c w) w' w''"
      by (rule changes_only_mono) (rule ours_inherited [OF first])
    with first show "keeps_to g c w w''" unfolding keeps_to_def by (rule changes_only_trans)
  qed
qed

lemma keeps_to_named:
  "stays (changes_only (named_footprint g c)) m \<Longrightarrow> stays (keeps_to g c) m"
  unfolding stays_def keeps_to_def
proof
  fix w
  assume "\<forall>w. changes_only (named_footprint g c) w (snd (m w))"
  then have "changes_only (named_footprint g c) w (snd (m w))" ..
  then show "changes_only (ours g c w) w (snd (m w))"
    by (rule changes_only_mono) (simp add: ours_def named_footprint_def)
qed

lemma keeps_to_claims:
  "(\<And>w. changes_only (claims c w) w (snd (m w))) \<Longrightarrow> stays (keeps_to g c) m"
  unfolding stays_def keeps_to_def
proof
  fix w
  assume "\<And>w. changes_only (claims c w) w (snd (m w))"
  then show "changes_only (ours g c w) w (snd (m w))"
    by (rule changes_only_mono) (simp add: ours_def)
qed

section \<open>The managers\<close>

locale scoped_environment =
  fixes l :: lib and cl :: client and g :: capp_config and c :: capp
  assumes client: "scoped_client cl" and namespaced: "Namespace (Meta c) \<noteq> []"
begin

sublocale capps: scoped_api "c_capps cl" capps capps_update CappKind
  using client by unfold_locales (auto simp: scoped_client_def changes_only_def)

sublocale ksvcs: scoped_api "c_ksvcs cl" ksvcs ksvcs_update ServiceKind
  using client by unfold_locales (auto simp: scoped_client_def changes_only_def)

sublocale nfspvcs: scoped_api "c_nfspvcs cl" nfspvcs nfspvcs_update NfsPvcKind
  using client by unfold_locales (auto simp: scoped_client_def changes_only_def)

sublocale outputs: scoped_api "c_outputs cl" outputs outputs_update OutputKind
  using client by unfold_locales (auto simp: scoped_client_def changes_only_def)

sublocale flows: scoped_api "c_flows cl" flows flows_update FlowKind
  using client by unfold_locales (auto simp: scoped_client_def changes_only_def)

sublocale certificates: scoped_api "c_certificates cl" certificates certificates_update CertificateKind
  using client by unfold_locales (auto simp: scoped_client_def changes_only_def)

sublocale domainmappings:
  scoped_api "c_domainmappings cl" domainmappings domainmappings_update DomainMappingKind
  using client by unfold_locales (auto simp: scoped_client_def changes_only_def)

sublocale cnamerecords: scoped_api "c_cnamerecords cl" cnamerecords cnamerecords_update CNAMERecordKind
  using client by unfold_locales (auto simp: scoped_client_def changes_only_def)

sublocale pingsources: scoped_api "c_pingsources cl" pingsources pingsources_update PingSourceKind
  using client by unfold_locales (auto simp: scoped_client_def changes_only_def)

sublocale kafkasources: scoped_api "c_kafkasources cl" kafkasources kafkasources_update KafkaSourceKind
  using client by unfold_locales (auto simp: scoped_client_def changes_only_def)

sublocale secrets: scoped_api "c_secrets cl" secrets secrets_update SecretKind
  using client by unfold_locales (auto simp: scoped_client_def changes_only_def)

lemma events_keep [staying]: "stays (keeps_to g c) (Eventf a b n)"
  by (rule keeps_to_named) (rule stays_Eventf)

lemma own_keys [simp]:
  "named_footprint g c CappKind (key_of c)"
  "named_footprint g c ServiceKind (key_of c)"
  "named_footprint g c OutputKind (key_of c)"
  "named_footprint g c FlowKind (key_of c)"
  by (simp_all add: named_footprint_def own_name_def key_of_def)

lemma single_managers [staying]:
  "stays (keeps_to g c) (ksvc_CleanUp l cl c)" "stays (keeps_to g c) (ksvc_Manage l cl g c)"
  "stays (keeps_to g c) (output_CleanUp l cl c)" "stays (keeps_to g c) (output_Manage l cl c)"
  "stays (keeps_to g c) (flow_CleanUp l cl c)" "stays (keeps_to g c) (flow_Manage l cl c)"
proof -
  show ksvc: "stays (keeps_to g c) (ksvc_CleanUp l cl c)"
    and "stays (keeps_to g c) (output_CleanUp l cl c)" "stays (keeps_to g c) (flow_CleanUp l cl c)"
    unfolding ksvc_CleanUp_def output_CleanUp_def flow_CleanUp_def cleanUpNamed_def [symmetric]
    by (intro keeps_to_named staying own_keys)+
  show "stays (keeps_to g c) (ksvc_Manage l cl g c)"
    unfolding ksvc_Manage_def ksvc_createOrUpdate_upsert
    by (intro stays_if stays_andThen events_keep keeps_to_preorder ksvc keeps_to_named staying)
      (simp add: ksvc_prepare_key)
  have "output_IsRequired c \<Longrightarrow> key_of (output_prepareResource c) = key_of c"
    by (simp add: output_IsRequired_def output_prepare_meta newMeta_def key_of_def)
  then show "stays (keeps_to g c) (output_Manage l cl c)"
    unfolding output_Manage_named manageNamed_def
    by (cases "output_IsRequired c") (auto intro!: keeps_to_named staying)
  have "key_of (flow_prepareResource c) = key_of c"
    by (simp add: flow_prepareResource_def newMeta_def key_of_def)
  then show "stays (keeps_to g c) (flow_Manage l cl c)"
    unfolding flow_Manage_named manageNamed_def by (intro keeps_to_named staying) simp_all
qed

lemma listed_cleanUps [staying]:
  "stays (keeps_to g c) (nfs_CleanUp l cl c)" "stays (keeps_to g c) (cert_CleanUp l cl c)"
  "stays (keeps_to g c) (dns_CleanUp l cl c)" "stays (keeps_to g c) (ping_CleanUp l cl c)"
  "stays (keeps_to g c) (kafka_CleanUp l cl c)"
  unfolding nfs_CleanUp_listed cert_CleanUp_listed dns_CleanUp_listed ping_CleanUp_listed kafka_CleanUp_listed
  by (rule keeps_to_claims,
      rule nfspvcs.cleanUpListed_changes certificates.cleanUpListed_changes cnamerecords.cleanUpListed_changes
        pingsources.cleanUpListed_changes kafkasources.cleanUpListed_changes;
      simp add: namespaced claims_def dns_extra_def capp_keys_differ fmlookup_of_list)+

lemma source_name:
  "s \<in> set (cs_Sources (Spec c)) \<Longrightarrow> named_footprint g c PingSourceKind (key_of (ping_prepareResource c s pc))"
  "s \<in> set (cs_Sources (Spec c)) \<Longrightarrow> named_footprint g c KafkaSourceKind (key_of (kafka_prepareResource c s kc))"
  by (simp_all add: named_footprint_def own_name_def key_of_def)

lemma listed_managers [staying]:
  "stays (keeps_to g c) (nfs_Manage l cl g c)" "stays (keeps_to g c) (cert_Manage l cl g c)"
  "stays (keeps_to g c) (ping_Manage l cl g c)" "stays (keeps_to g c) (kafka_Manage l cl g c)"
proof -
  have "named_footprint g c NfsPvcKind (key_of d)" if "d \<in> set (nfs_prepareResource c)" for d
    using that by (auto simp: nfs_prepareResource_def nfs_prepareVolume_def newMeta_def key_of_def
        named_footprint_def own_name_def)
  then show "stays (keeps_to g c) (nfs_Manage l cl g c)"
    unfolding nfs_Manage_def nfs_createOrUpdate_upserts
    by (intro stays_if listed_cleanUps keeps_to_named staying)
  have "named_footprint g c CertificateKind (key_of (cert_prepareResource g c))"
    by (simp add: cert_prepareResource_def Let_def newMeta_def key_of_def named_footprint_def
        own_name_def routeObjectName_def)
  then show "stays (keeps_to g c) (cert_Manage l cl g c)"
    unfolding cert_Manage_def cert_createOrUpdate_upsert
    by (intro stays_if listed_cleanUps keeps_to_named staying)
  have orphans: "stays (keeps_to g c) (cleanUpOrphansOf (c_pingsources cl) c kind names)"
    "stays (keeps_to g c) (cleanUpOrphansOf (c_kafkasources cl) c kind names)" for kind names
    by (rule keeps_to_claims, rule pingsources.orphans_changes kafkasources.orphans_changes;
        simp add: namespaced claims_def)+
  have "x \<in> set (cs_Sources (Spec c))" if "(x, y) \<in> set (ping_wanted c)" for x y
    using that by (auto simp: ping_wanted_def List.map_filter_def)
  moreover have "x \<in> set (cs_Sources (Spec c))" if "(x, y) \<in> set (kafka_wanted c)" for x y
    using that by (auto simp: kafka_wanted_def List.map_filter_def)
  ultimately have sources: "x \<in> set (ping_wanted c) \<Longrightarrow>
      stays (keeps_to g c) (upsert l (c_pingsources cl) c (ping_prepareResource c (fst x) (snd x)) (ping_plan pd))"
    "y \<in> set (kafka_wanted c) \<Longrightarrow>
      stays (keeps_to g c) (upsert l (c_kafkasources cl) c (kafka_prepareResource c (fst y) (snd y)) (kafka_plan kd))"
    for x y pd kd
    by (cases x, cases y, auto intro!: keeps_to_named staying source_name)+
  show "stays (keeps_to g c) (ping_Manage l cl g c)" "stays (keeps_to g c) (kafka_Manage l cl g c)"
    unfolding ping_Manage_sources kafka_Manage_sources manageSources_def
    by (intro stays_if stays_andThen stays_forEach stays_wrapErr keeps_to_preorder orphans sources
        listed_cleanUps [unfolded ping_CleanUp_listed kafka_CleanUp_listed]; assumption)+
qed

lemma dns_keeps [staying]: "stays (keeps_to g c) (dns_Manage l cl g c)"
proof -
  have "stays (changes_only (named_footprint g c)) (dns_createOrUpdate l cl g c)"
    unfolding dns_createOrUpdate_def
  proof (rule stays_prepared, goal_cases)
    case (1 d)
    then have "named_footprint g c CNAMERecordKind (NamespacedName (Namespace (Meta c)) (Name (Meta d)))"
      "key_of d = NamespacedName (Namespace (Meta c)) (Name (Meta d))"
      using dns_prepare_meta [OF 1]
      by (simp_all add: named_footprint_def own_name_def key_of_def routeObjectName_def)
    then show ?case by (intro staying) (auto simp: key_of_def)
  qed (rule changes_only_preorder)
  then show ?thesis unfolding dns_Manage_def by (intro stays_if keeps_to_named listed_cleanUps)
qed

lemma dm_prepare_key:
  assumes "dm_prepareResource cl g c w = (Ok d, v)"
  shows "key_of d = NamespacedName (Namespace (Meta c)) (routeObjectName g c)"
  using assms
  by (auto simp: dm_prepareResource_def Let_def handle_case key_of_def newMeta_def routeObjectName_def
      split: if_splits prod.splits result.splits)

lemma dm_cleanUpItem_stays:
  assumes "D DomainMappingKind (key_of r)"
    and "D SecretKind (NamespacedName (Namespace (Meta r)) (generateTLSSecretName (Name (Meta r))))"
  shows "stays (changes_only D) (dm_cleanUpItem l cl c r)"
  unfolding dm_cleanUpItem_def
  by (intro staying)
    (use assms in \<open>simp_all add: bareDomainMapping_def newMeta_def key_of_def\<close>)

lemma dm_keeps [staying]:
  "stays (keeps_to g c) (dm_CleanUp l cl c)" "stays (keeps_to g c) (dm_Manage l cl g c)"
proof -
  show clean: "stays (keeps_to g c) (dm_CleanUp l cl c)"
    unfolding dm_CleanUp_def getPreviousDomainMappings_def
  proof (rule keeps_to_claims, rule domainmappings.listed_then, goal_cases)
    case (3 w rs)
    have "stays (changes_only (claims c w)) (dm_cleanUpItem l cl c r)" if "r \<in> set rs" for r
      using 3 [OF that] by (intro dm_cleanUpItem_stays) (auto simp: claims_def key_of_def)
    then show ?case by (intro staying)
  qed (simp_all add: namespaced)
  have "stays (changes_only (named_footprint g c)) (dm_createOrUpdate l cl g c)"
    unfolding dm_createOrUpdate_def
  proof (rule stays_andThen_value, goal_cases)
    case 1
    show ?case unfolding dm_prepareResource_def by (intro staying)
  next
    case (2 w d w')
    then have "key_of d = NamespacedName (Namespace (Meta c)) (routeObjectName g c)"
      using dm_prepare_key by simp
    then show ?case
      by (intro staying) (auto simp: key_of_def named_footprint_def own_name_def)
  qed (rule changes_only_preorder)
  then show "stays (keeps_to g c) (dm_Manage l cl g c)"
    unfolding dm_Manage_def by (intro stays_if keeps_to_named clean)
qed

lemma all_managers:
  assumes "entry \<in> set (resourceManagers l cl g)"
  shows "stays (keeps_to g c) (rm_CleanUp (rme_Manager entry) c)"
    and "stays (keeps_to g c) (rm_Manage (rme_Manager entry) c)"
  using assms by (auto simp: resourceManagers_def intro: staying)

section \<open>The status and the finalizer\<close>

lemma configuration [staying]:
  "reflp R \<Longrightarrow> stays R (GetCappConfig cl)"
  "reflp R \<Longrightarrow> stays R (klist (c_knrevisions cl) ns sel lim)"
  using client by (auto simp: GetCappConfig_def scoped_client_def intro: scoped_reads)

lemma now_stays [staying]: "reflp R \<Longrightarrow> stays R now"
  by (simp add: stays_def now_def reflpD)

lemma status_parts [staying]:
  "stays (changes_only D) (buildKnativeStatus l cl c b)"
  "stays (changes_only D) (buildLoggingStatus l cl c ls b)"
  "stays (changes_only D) (buildRouteStatus cl c b1 b2 b3 g)"
  "stays (changes_only D) (buildEventingStatus l cl c)"
  unfolding buildKnativeStatus_def buildRevisionsStatus_def buildLoggingStatus_def buildRouteStatus_def
    buildDomainMappingStatus_def buildDNSRecordStatus_get buildCertificateStatus_def statusOrZero_def
    buildEventingStatus_def listOwnedEventSources_def Let_def
  by (intro staying; assumption?)+

lemma volumes_stay [staying]: "stays (changes_only D) (buildVolumesStatus cl c b)"
proof -
  have "stays (changes_only D) (buildVolumesStatusOf cl c vs)" for vs
    by (induction vs) (auto intro!: staying)
  then show ?thesis unfolding buildVolumesStatus_def by (intro staying)
qed

lemma status_keeps [staying]:
  "stays (changes_only (named_footprint g c)) (SyncStatus l cl c M g errs)"
proof -
  have "stays (changes_only D) (observeStatus l cl c old M g errs)" for D old
    unfolding observeStatus_def buildCappConditions_def by (intro staying)
  moreover have "stays (changes_only (named_footprint g c)) (c_statusUpdate cl (r\<lparr>Status := st\<rparr>))"
    if "key_of r = NamespacedName (Namespace (Meta c)) (Name (Meta c))" for r st
  proof -
    have "key_of (r\<lparr>Status := st\<rparr>) = key_of c" using that by (simp add: key_of_def)
    moreover have "scoped_write capps capps_update (key_of (r\<lparr>Status := st\<rparr>)) (c_statusUpdate cl (r\<lparr>Status := st\<rparr>))"
      using client by (simp add: scoped_client_def)
    ultimately show ?thesis by (auto intro: capps.scoped_write_stays)
  qed
  ultimately show ?thesis
    unfolding SyncStatus_def andThen_def [of "kget _ _ _"] by (intro staying) simp_all
qed

lemma finalizers_stay [staying]:
  "stays (changes_only (named_footprint g c)) (ensureFinalizer l cl c)"
  "stays (changes_only (named_footprint g c)) (removeFinalizer l cl c)"
proof -
  have "key_of (setFinalizers c fs) = key_of c" for fs by (simp add: setFinalizers_def key_of_def)
  then show "stays (changes_only (named_footprint g c)) (ensureFinalizer l cl c)"
    "stays (changes_only (named_footprint g c)) (removeFinalizer l cl c)"
    unfolding ensureFinalizer_def removeFinalizer_def by (intro staying; simp)+
qed

lemma deletion_keeps:
  "set es \<subseteq> set (resourceManagers l cl g) \<Longrightarrow> stays (keeps_to g c) (handleResourceDeletion l cl c es)"
  unfolding handleResourceDeletion_def finalizeCapp_def
  by (intro staying keeps_to_named [OF finalizers_stay(2)] all_managers) auto

lemma manageAll_keeps:
  "set es \<subseteq> set (resourceManagers l cl g) \<Longrightarrow> stays (keeps_to g c) (manageAll es c)"
  by (induction es) (auto intro!: staying all_managers)

lemma reconcileFound_keeps: "stays (keeps_to g c) (reconcileFound l cl g c)"
  unfolding reconcileFound_def SyncApplication_def
  by (intro staying deletion_keeps manageAll_keeps keeps_to_named [OF status_keeps]
      keeps_to_named [OF finalizers_stay(1)]) simp_all

lemma reconcileFound_namespace:
  "stays (changes_only (\<lambda>kd j. nn_Namespace j = Namespace (Meta c))) (reconcileFound l cl g c)"
  unfolding stays_def
proof
  fix w
  have "changes_only (ours g c w) w (snd (reconcileFound l cl g c w))"
    using reconcileFound_keeps by (simp add: stays_def keeps_to_def)
  then show "changes_only (\<lambda>kd j. nn_Namespace j = Namespace (Meta c)) w (snd (reconcileFound l cl g c w))"
    by (rule changes_only_mono) (auto simp: ours_def claims_def claimed_def split: object_kind.splits)
qed

section \<open>The revisions of a Capp\<close>

sublocale capprevisions: scoped_api "c_capprevisions cl" capprevisions capprevisions_update CappRevisionKind
  using client by unfold_locales (auto simp: scoped_client_def changes_only_def)

end

definition own_revision :: "lib \<Rightarrow> capp \<Rightarrow> world \<Rightarrow> footprint" where
  "own_revision l c w kd j \<longleftrightarrow>
     kd = CappRevisionKind \<and> nn_Namespace j = Namespace (Meta c)
     \<and> ((\<exists>n. nn_Name j = Name (Meta (revisionOf l c n)))
        \<or> (\<exists>r. tlookup (capprevisions w) j = Some r
               \<and> fmlookup (Labels (Meta r)) cappNameLabelKey = Some (Name (Meta c))))"

context scoped_environment begin

lemma revision_created:
  "stays (changes_only (own_revision l c w)) (CreateCappRevision l cl c n)"
  unfolding CreateCappRevision_def Let_def
  by (intro staying)
    (auto simp: own_revision_def key_of_def revisionOf_def newMeta_def)

lemma revisions_listed:
  assumes "\<And>rs. (\<And>r. r \<in> set rs \<Longrightarrow> own_revision l c w CappRevisionKind (key_of r)) \<Longrightarrow>
      stays (changes_only D) (f rs)"
  shows "changes_only D w (snd (andThen (GetCappRevisions l cl c) f w))"
proof (cases "l_NewRequirement l cappNameLabelKey (Name (Meta c))")
  case (Some e)
  then show ?thesis by (simp add: GetCappRevisions_def andThen_def handle_def)
next
  case None
  let ?list = "klist (c_capprevisions cl) (Namespace (Meta c))
    (fmap_of_list [(cappNameLabelKey, Name (Meta c))]) (Some RevisionListLimit)"
  obtain x where x: "?list w = (x, w)"
    using capprevisions.klist_world by (metis surj_pair snd_conv)
  show ?thesis
  proof (cases x)
    case (Ok rs)
    have "own_revision l c w CappRevisionKind (key_of r)" if "r \<in> set rs" for r
      using capprevisions.klist_items [OF x [unfolded Ok] that] namespaced
      by (auto simp: own_revision_def key_of_def fmlookup_of_list dest: selected_lookup)
    with assms have "stays (changes_only D) (f rs)" by blast
    with x Ok None show ?thesis by (simp add: GetCappRevisions_def andThen_Ok stays_def)
  qed (use x None in \<open>simp_all add: GetCappRevisions_def andThen_def handle_def\<close>)
qed

lemma revisions_kept:
  assumes "sort_lib l"
  shows "changes_only (own_revision l c w) w (snd (syncCappRevision l cl c w))"
  unfolding syncCappRevision_def
proof (rule revisions_listed)
  fix rs :: "capp_revision list"
  assume own: "\<And>r. r \<in> set rs \<Longrightarrow> own_revision l c w CappRevisionKind (key_of r)"
  have "set (l_SortCappRevisions l rs) = set rs"
    using assms slice_sorted_set(1) unfolding sort_lib_def by blast
  then have "own_revision l c w CappRevisionKind (key_of r)"
    if "r \<in> set (snd (splitRevisionsAtIndex (l_SortCappRevisions l rs) i))" for r i
    using that own by (auto simp: splitRevisionsAtIndex_def split: if_splits dest: in_set_dropD)
  then have deleted: "stays (changes_only (own_revision l c w)) (DeleteCappRevision cl r)"
    if "splitRevisionsAtIndex (l_SortCappRevisions l rs) i = (a, b)" "r \<in> set b" for r i a b
    using that unfolding DeleteCappRevision_def by (intro staying) (metis snd_conv)
  show "stays (changes_only (own_revision l c w))
     (if length rs = 0 then HandleCappCreation l cl c else HandleCappUpdate l cl c rs)"
    unfolding HandleCappCreation_def HandleCappUpdate_def
    by (intro staying revision_created stays_split; erule (1) deleted)
qed

end

section \<open>The webhooks only read\<close>

lemma webhooks_only_read:
  assumes "scoped_client cl"
  shows "stays (=) (mutator_Handle decode marshal cl req)" "stays (=) (validator_Handle l decode cl req)"
proof -
  have preorder: "reflp (=)" "transp (=)" by (auto simp: reflp_def transp_def)
  have reads: "stays (=) (GetCappConfig cl)" "stays (=) (kget (c_secrets cl) ns n)" for ns n
    using assms by (auto simp: GetCappConfig_def scoped_client_def intro: scoped_reads preorder)
  note read_rules = stays_if stays_option stays_let stays_rules preorder reads
  show "stays (=) (mutator_Handle decode marshal cl req)"
    unfolding mutator_Handle_def by (intro read_rules)
  have secret: "stays (=) (validateSecretHasKeys cl ns n ks)" for ns n ks
    unfolding validateSecretHasKeys_def by (intro read_rules)
  have "stays (=) (validateSource l cl c k i src)" for c k i src
    unfolding validateSource_def by (intro read_rules secret)
  then have "stays (=) (validateSources l cl c k seen i srcs)" for c k seen i srcs
    by (induction srcs arbitrary: seen i) (auto intro!: read_rules)
  then have "stays (=) (validator_handle l cl op c old)" for op c old
    unfolding validator_handle_def denyOn_def validateEventSources_def by (intro read_rules secret)
  then show "stays (=) (validator_Handle l decode cl req)"
    unfolding validator_Handle_def by (intro read_rules)
qed

interpretation sample: scoped_environment mem_lib mem_client sampleConfig sampleCapp
  by unfold_locales (simp_all add: mem_scoped_client)

section \<open>The properties\<close>

text \<open>
  C4: a run of the Capp controller touches only what belongs to its Capp. Whatever the API server
  answers, if its calls act on the objects they are given, every object of every kind is after
  the run as it was before, unless it is in the namespace of the Capp and is the Capp itself, has
  a name the managers derive from the Capp, had the label of the Capp, or is the secret with the
  name of the TLS secret of a domain mapping that had that label. Such a secret itself may have no label and
  need not come from the operator: the clean up deletes it by its name. If the Capp or the
  configuration cannot be read, nothing changes.
\<close>

theorem Reconcile_keeps_to_own:
  assumes "scoped_client cl" and "nn_Namespace req \<noteq> []"
  shows "case kget (c_capps cl) (nn_Namespace req) (nn_Name req) w of
      (Ok c, v) \<Rightarrow>
        (case GetCappConfig cl v of
           (Ok g, _) \<Rightarrow> key_of c = req \<and> changes_only (ours g c w) w (snd (Reconcile l cl req w))
         | _ \<Rightarrow> snd (Reconcile l cl req w) = w)
    | _ \<Rightarrow> snd (Reconcile l cl req w) = w"
proof -
  have kinds: "scoped_kind (c_capps cl) capps capps_update"
    "scoped_kind (c_cappconfigs cl) cappconfigs cappconfigs_update"
    using assms(1) by (simp_all add: scoped_client_def)
  obtain x w1 where get: "kget (c_capps cl) (nn_Namespace req) (nn_Name req) w = (x, w1)" by fastforce
  obtain y w2 where cfg: "GetCappConfig cl w1 = (y, w2)" by fastforce
  have w: "w1 = w" "w2 = w"
    using scoped_get(1) [OF kinds(1) get] scoped_get(1) [OF kinds(2) cfg [unfolded GetCappConfig_def]]
    by simp_all
  have unread: "snd (Reconcile l cl req w) = w"
    if "\<not> (\<exists>c g. x = Ok c \<and> y = Ok g)"
    using that get cfg w
    by (cases x; cases y)
      (auto simp: Reconcile_def handle_def andThen_def wrapErr_def)
  have "key_of c = req \<and> changes_only (ours g c w) w (snd (Reconcile l cl req w))"
    if xy: "x = Ok c" "y = Ok g" for c g
  proof
    show key: "key_of c = req" using scoped_get(2) [OF kinds(1) get xy(1)] by (cases req) simp
    with assms have "scoped_environment cl c" by unfold_locales (auto simp: key_of_def)
    from scoped_environment.reconcileFound_keeps [OF this, of g l]
    show "changes_only (ours g c w) w (snd (Reconcile l cl req w))"
      unfolding Reconcile_found [OF get [unfolded xy] cfg [unfolded xy]] w
      by (simp add: stays_def keeps_to_def)
  qed
  with unread get cfg w show ?thesis by (auto split: result.split)
qed

theorem Reconcile_keeps_to_own_witness:
  "changes_only (ours sampleConfig sampleCapp sampleWorld) sampleWorld
     (snd (Reconcile mem_lib mem_client (key_of sampleCapp) sampleWorld))
   \<and> \<not> ours sampleConfig sampleCapp sampleWorld SecretKind (NamespacedName ''team'' ''elastic'')"
proof
  have "kget (c_capps mem_client) (nn_Namespace (key_of sampleCapp)) (nn_Name (key_of sampleCapp)) sampleWorld
      = (Ok sampleCapp, sampleWorld)" "GetCappConfig mem_client sampleWorld = (Ok sampleConfig, sampleWorld)"
    by (simp_all add: mem_get_def GetCappConfig_def key_of_def)
  with Reconcile_keeps_to_own [OF mem_scoped_client, of "key_of sampleCapp" sampleWorld mem_lib]
  show "changes_only (ours sampleConfig sampleCapp sampleWorld) sampleWorld
     (snd (Reconcile mem_lib mem_client (key_of sampleCapp) sampleWorld))"
    by (simp add: key_of_def)
  show "\<not> ours sampleConfig sampleCapp sampleWorld SecretKind (NamespacedName ''team'' ''elastic'')"
    by (simp add: ours_def own_name_def claims_def claimed_def routeObjectName_def sampleConfig_def
        generateTLSSecretName_def sample_defs)
qed

text \<open>
  C18: A run of the CappRevision controller touches only the revisions of its Capp, in the
  namespace of the Capp: those it names after it and those with its label.
\<close>

theorem ReconcileRevision_keeps_to_own:
  assumes "scoped_client cl" and "sort_lib l" and "nn_Namespace req \<noteq> []"
    and "kget (c_capps cl) (nn_Namespace req) (nn_Name req) w = (Ok c, w1)"
  shows "changes_only (own_revision l c w) w (snd (ReconcileRevision l cl req w))"
proof -
  have kind: "scoped_kind (c_capps cl) capps capps_update"
    using assms(1) by (simp add: scoped_client_def)
  note w1 = scoped_get(1) [OF kind assms(4)]
  have "Namespace (Meta c) = nn_Namespace req"
    using scoped_get(2) [OF kind assms(4)] by (cases req) (simp add: key_of_def)
  with assms(1,3) have "scoped_environment cl c" by unfold_locales simp_all
  from scoped_environment.revisions_kept [OF this assms(2), of w]
  have "changes_only (own_revision l c w) w (snd (syncCappRevision l cl c w))" .
  moreover have "snd (ReconcileRevision l cl req w) = w
      \<or> snd (ReconcileRevision l cl req w) = snd (syncCappRevision l cl c w)"
    using assms(4) w1
    by (auto simp: ReconcileRevision_def handle_case split: prod.split result.split)
  ultimately show ?thesis by auto
qed

theorem ReconcileRevision_keeps_to_own_witness:
  "changes_only (own_revision mem_lib sampleCapp sampleWorld) sampleWorld
     (snd (ReconcileRevision mem_lib mem_client (key_of sampleCapp) sampleWorld))"
  by (rule ReconcileRevision_keeps_to_own [OF mem_scoped_client mem_sort_lib])
    (simp_all add: mem_get_def)

text \<open>Whatever a run finds, it stays in the namespace of its request.\<close>

lemma runs_in_namespace:
  assumes "scoped_client cl" and "nn_Namespace req \<noteq> []"
  shows "changes_only (\<lambda>kd j. nn_Namespace j = nn_Namespace req) w (snd (Reconcile l cl req w))"
    and "sort_lib l \<Longrightarrow> changes_only (\<lambda>kd j. kd = CappRevisionKind \<and> nn_Namespace j = nn_Namespace req) w
      (snd (ReconcileRevision l cl req w))"
proof -
  let ?N = "changes_only (\<lambda>kd j. nn_Namespace j = nn_Namespace req)"
  let ?R = "changes_only (\<lambda>kd j. kd = CappRevisionKind \<and> nn_Namespace j = nn_Namespace req)"
  have kind: "scoped_kind (c_capps cl) capps capps_update"
    and config: "stays ?N (GetCappConfig cl)"
    using assms(1) by (auto simp: scoped_client_def GetCappConfig_def intro: scoped_reads)
  have env: "scoped_environment cl c" "Namespace (Meta c) = nn_Namespace req" if "key_of c = req" for c
    using that assms by (auto simp: key_of_def intro!: scoped_environment.intro)
  have body: "stays ?N (reconcileFound l cl g c)" if "key_of c = req" for g c
    using scoped_environment.reconcileFound_namespace [OF env(1) [OF that], of l g] env(2) [OF that] by simp
  have "stays ?N (Reconcile l cl req)"
    unfolding Reconcile_def Let_def
    by (intro scoped_get_then [OF kind] stays_if stays_andThen stays_wrapErr stays_ok stays_throw
        changes_only_preorder config body [unfolded reconcileFound_def])
       (use env in auto)
  then show "?N w (snd (Reconcile l cl req w))" by (simp add: stays_def)
  assume sort: "sort_lib l"
  have "?R w (snd (syncCappRevision l cl c w))" if "key_of c = req" for c w
    using scoped_environment.revisions_kept [OF env(1) [OF that] sort, of w] env(2) [OF that]
    by (auto simp: own_revision_def elim: changes_only_mono)
  then have "stays ?R (ReconcileRevision l cl req)"
    unfolding ReconcileRevision_def
    by (intro scoped_get_then [OF kind] stays_if stays_handle stays_ok stays_throw changes_only_preorder)
      (auto simp: stays_def key_of_def)
  then show "?R w (snd (ReconcileRevision l cl req w))" by (simp add: stays_def)
qed

text \<open>
  C10: Tenants are apart. Whatever a run of either controller for a request finds and whatever it
  returns, it changes nothing outside the namespace of the request; and neither webhook changes
  anything.
\<close>

theorem tenants_are_apart:
  assumes "scoped_client cl" and "sort_lib l" and "nn_Namespace req \<noteq> []"
  shows "changes_only (\<lambda>kd j. nn_Namespace j = nn_Namespace req) w (snd (Reconcile l cl req w))
    \<and> changes_only (\<lambda>kd j. nn_Namespace j = nn_Namespace req) w (snd (ReconcileRevision l cl req w))
    \<and> snd (mutator_Handle decode marshal cl areq w) = w
    \<and> snd (validator_Handle l decode cl areq w) = w"
proof (intro conjI)
  show "changes_only (\<lambda>kd j. nn_Namespace j = nn_Namespace req) w (snd (Reconcile l cl req w))"
    by (rule runs_in_namespace [OF assms(1,3)])
  show "changes_only (\<lambda>kd j. nn_Namespace j = nn_Namespace req) w (snd (ReconcileRevision l cl req w))"
    by (rule changes_only_mono [OF runs_in_namespace(2) [OF assms(1,3,2)]]) simp
  show "snd (mutator_Handle decode marshal cl areq w) = w" "snd (validator_Handle l decode cl areq w) = w"
    using webhooks_only_read [OF assms(1)] by (metis stays_def)+
qed

theorem tenants_are_apart_witness:
  "changes_only (\<lambda>kd j. nn_Namespace j = ''team'') sampleWorld
     (snd (Reconcile mem_lib mem_client (NamespacedName ''team'' ''web'') sampleWorld))
   \<and> snd (mutator_Handle (\<lambda>raw. Ok sampleCapp) (\<lambda>c. Ok []) mem_client sampleRequest sampleWorld) = sampleWorld"
  using tenants_are_apart [OF mem_scoped_client mem_sort_lib, of "NamespacedName ''team'' ''web''"] by simp

end
