(* ===== verification/FaultyCalls.thy ===== *)
theory FaultyCalls
  imports PanicFreedom CappRevisionController
begin

text \<open>
  What a run is worth when calls fail. A flaky client answers as the reliable one does or with an
  error (after which the cluster may be in any state: the answer to a write that was carried out
  may have been lost). The calculus below compares a run on the flaky client with the run on the
  reliable one, call by call; it shows that the controllers drop no error on the way:
  a run that reports success is the run that the reliable client would have given.
\<close>

section \<open>Runs with failing calls\<close>

text \<open>Only an error that claims the object is missing is ever taken for an answer.\<close>

fun failed :: "'a result \<Rightarrow> bool" where
  "failed (Ok x) \<longleftrightarrow> False"
| "failed (Err e) \<longleftrightarrow> \<not> IsNotFound e"
| "failed (Panic p) \<longleftrightarrow> True"

definition fails :: "('w, 'a) action \<Rightarrow> bool" where
  "fails m \<longleftrightarrow> (\<forall>w. failed (fst (m w)))"

definition faulty :: "('w, 'a) action \<Rightarrow> ('w, 'a) action \<Rightarrow> bool" where
  "faulty m' m \<longleftrightarrow> (\<forall>w. m' w = m w \<or> failed (fst (m' w)))"

named_theorems faults

lemma faulty_refl [faults]: "faulty m m"
  by (simp add: faulty_def)

lemma fails_throw [faults]: "\<not> IsNotFound e \<Longrightarrow> fails (throw e)"
  and fails_wrap [faults]: "\<not> IsNotFound e \<Longrightarrow> fails (throw (wrap s e))"
  and fails_new [faults]: "fails (throw (new_error s))"
  and fails_found [faults]: "\<not> IsNotFound e \<Longrightarrow> fails m \<Longrightarrow> fails (if IsNotFound e then n else m)"
  and fails_missing [faults]: "\<not> IsNotFound e \<Longrightarrow> fails m \<Longrightarrow> fails (if \<not> IsNotFound e then m else n)"
  by (simp_all add: fails_def new_error_def IsNotFound_def)

lemma fails_event [faults]: "fails m \<Longrightarrow> fails (andThen (Eventf a b n) (\<lambda>_. m))"
  by (simp add: fails_def Eventf_def andThen_Ok)

lemma faulty_handle [faults]:
  assumes "faulty m' m" and "\<And>e. \<not> IsNotFound e \<Longrightarrow> fails (h' e)"
    and "\<And>e. faulty (h' e) (h e)" and "\<And>x. faulty (f' x) (f x)"
  shows "faulty (handle m' h' f') (handle m h f)"
  unfolding faulty_def
proof
  fix w
  obtain r v where r: "m' w = (r, v)" by (cases "m' w")
  consider "m w = (r, v)" | "failed r" using assms(1) r by (auto simp: faulty_def dest: spec [of _ w])
  then show "handle m' h' f' w = handle m h f w \<or> failed (fst (handle m' h' f' w))"
  proof cases
    case 1
    with r assms(3,4) show ?thesis by (cases r) (auto simp: handle_def faulty_def)
  next
    case 2
    with r assms(2) show ?thesis by (cases r) (auto simp: handle_def fails_def)
  qed
qed

lemma faulty_andThen [faults]:
  "faulty m' m \<Longrightarrow> (\<And>x. faulty (f' x) (f x)) \<Longrightarrow> faulty (andThen m' f') (andThen m f)"
  unfolding andThen_def by (intro faults)

lemma faulty_wrapErr [faults]: "faulty m' m \<Longrightarrow> faulty (wrapErr s m') (wrapErr s m)"
  and faulty_ignoreNotFound [faults]: "faulty n' n \<Longrightarrow> faulty (ignoreNotFound n') (ignoreNotFound n)"
  unfolding wrapErr_def ignoreNotFound_def by (intro faults; assumption)+

lemma faulty_if [faults]: "faulty m' m \<Longrightarrow> faulty n' n \<Longrightarrow>
    faulty (if b then m' else n') (if b then m else n)"
  and faulty_let [faults]: "faulty (g' x) (g x) \<Longrightarrow> faulty (let y = x in g' y) (let y = x in g y)"
  and faulty_option [faults]: "faulty n' n \<Longrightarrow> (\<And>x. faulty (k' x) (k x)) \<Longrightarrow>
    faulty (case z of None \<Rightarrow> n' | Some x \<Rightarrow> k' x) (case z of None \<Rightarrow> n | Some x \<Rightarrow> k x)"
  by (auto split: option.split)

lemma faulty_split [faults]:
  "(\<And>a b. faulty (k' a b) (k a b)) \<Longrightarrow> faulty (case z of (a, b) \<Rightarrow> k' a b) (case z of (a, b) \<Rightarrow> k a b)"
  by (cases z) simp

lemma faulty_forEach [faults]: "(\<And>x. x \<in> set xs \<Longrightarrow> faulty (f' x) (f x)) \<Longrightarrow> faulty (forEach f' xs) (forEach f xs)"
  by (induction xs) (auto intro!: faults)

section \<open>Flaky clients\<close>

definition flaky_kind :: "('sp, 'st) kind_client \<Rightarrow> ('sp, 'st) kind_client \<Rightarrow> bool" where
  "flaky_kind kc' kc \<longleftrightarrow>
     (\<forall>ns n. faulty (kget kc' ns n) (kget kc ns n))
     \<and> (\<forall>ns sel lim. faulty (klist kc' ns sel lim) (klist kc ns sel lim))
     \<and> (\<forall>r. faulty (kcreate kc' r) (kcreate kc r)) \<and> (\<forall>r. faulty (kupdate kc' r) (kupdate kc r))
     \<and> (\<forall>r. faulty (kdelete kc' r) (kdelete kc r))"

definition flaky_client :: "client \<Rightarrow> client \<Rightarrow> bool" where
  "flaky_client cl' cl \<longleftrightarrow>
     flaky_kind (c_capps cl') (c_capps cl) \<and> flaky_kind (c_cappconfigs cl') (c_cappconfigs cl)
     \<and> flaky_kind (c_capprevisions cl') (c_capprevisions cl) \<and> flaky_kind (c_ksvcs cl') (c_ksvcs cl)
     \<and> flaky_kind (c_knrevisions cl') (c_knrevisions cl) \<and> flaky_kind (c_nfspvcs cl') (c_nfspvcs cl)
     \<and> flaky_kind (c_outputs cl') (c_outputs cl) \<and> flaky_kind (c_flows cl') (c_flows cl)
     \<and> flaky_kind (c_certificates cl') (c_certificates cl)
     \<and> flaky_kind (c_domainmappings cl') (c_domainmappings cl)
     \<and> flaky_kind (c_cnamerecords cl') (c_cnamerecords cl)
     \<and> flaky_kind (c_pingsources cl') (c_pingsources cl)
     \<and> flaky_kind (c_kafkasources cl') (c_kafkasources cl) \<and> flaky_kind (c_secrets cl') (c_secrets cl)
     \<and> (\<forall>c. faulty (c_statusUpdate cl' c) (c_statusUpdate cl c))"

lemma flaky_kindD [faults]:
  assumes "flaky_kind kc' kc"
  shows "faulty (kget kc' ns n) (kget kc ns n)" "faulty (klist kc' ns sel lim) (klist kc ns sel lim)"
    "faulty (CreateResource kc' r) (CreateResource kc r)" "faulty (UpdateResource kc' r) (UpdateResource kc r)"
    "faulty (DeleteResource kc' r) (DeleteResource kc r)" "faulty (kdelete kc' r) (kdelete kc r)"
  using assms
  by (auto simp: flaky_kind_def CreateResource_def UpdateResource_def DeleteResource_def intro!: faults)

lemma helpers_faulty [faults]:
  "(\<And>r. faulty (create' r) (create r)) \<Longrightarrow>
     faulty (createManagedResource l create' c r kind ec ef) (createManagedResource l create c r kind ec ef)"
  "(\<And>r. faulty (update' r) (update r)) \<Longrightarrow>
     faulty (updateManagedResourceIfNeeded update' r s s' os) (updateManagedResourceIfNeeded update r s s' os)"
  "flaky_kind kc' kc \<Longrightarrow> faulty (deleteOwnedResource l kc' c r) (deleteOwnedResource l kc c r)"
  "flaky_kind kc' kc \<Longrightarrow> faulty (deleteOwnedResources l kc' c rs) (deleteOwnedResources l kc c rs)"
  "flaky_kind kc' kc \<Longrightarrow> faulty (listManagedResources kc' c kind extra) (listManagedResources kc c kind extra)"
  unfolding createManagedResource_def updateManagedResourceIfNeeded_def deleteOwnedResource_def
    deleteOwnedResources_def listManagedResources_def
  by (intro faults; assumption)+

section \<open>The controllers\<close>

text \<open>
  \<open>genuine P m' m\<close>: a run of \<open>m'\<close> that ends with a value that satisfies \<open>P\<close> is the run of \<open>m\<close>.
\<close>

definition genuine :: "('a \<Rightarrow> bool) \<Rightarrow> ('w, 'a) action \<Rightarrow> ('w, 'a) action \<Rightarrow> bool" where
  "genuine P m' m \<longleftrightarrow> (\<forall>w x w'. m' w = (Ok x, w') \<longrightarrow> P x \<longrightarrow> m w = (Ok x, w'))"

definition never :: "('a \<Rightarrow> bool) \<Rightarrow> ('w, 'a) action \<Rightarrow> bool" where
  "never P m \<longleftrightarrow> (\<forall>w x w'. m w = (Ok x, w') \<longrightarrow> \<not> P x)"

lemma never_throw: "never P (throw e)"
  and never_ok: "\<not> P x \<Longrightarrow> never P (ok x)"
  and never_if: "never P m \<Longrightarrow> never P n \<Longrightarrow> never P (if b then m else n)"
  by (simp_all add: never_def)

lemma never_genuine: "never P m' \<Longrightarrow> genuine P m' m"
  by (auto simp: never_def genuine_def)

lemma faulty_genuine: "faulty m' m \<Longrightarrow> genuine P m' m"
  unfolding faulty_def genuine_def by (metis failed.simps(1) fst_conv)

lemma genuine_handle:
  assumes "faulty m' m" and "\<And>e. \<not> IsNotFound e \<Longrightarrow> never P (h' e)"
    and "\<And>e. genuine P (h' e) (h e)" and "\<And>x. genuine P (f' x) (f x)"
  shows "genuine P (handle m' h' f') (handle m h f)"
  unfolding genuine_def
proof (intro allI impI)
  fix w x w'
  assume run: "handle m' h' f' w = (Ok x, w')" and x: "P x"
  obtain r v where r: "m' w = (r, v)" by (cases "m' w")
  consider "m w = (r, v)" | "failed r" using assms(1) r by (auto simp: faulty_def dest: spec [of _ w])
  then show "handle m h f w = (Ok x, w')"
  proof cases
    case 1
    with r run x assms(3,4) show ?thesis by (cases r) (auto simp: handle_def genuine_def)
  next
    case 2
    with r run x assms(2) show ?thesis by (cases r) (auto simp: handle_def never_def)
  qed
qed

lemma genuine_andThen:
  "faulty m' m \<Longrightarrow> (\<And>x. genuine P (f' x) (f x)) \<Longrightarrow> genuine P (andThen m' f') (andThen m f)"
  unfolding andThen_def by (intro genuine_handle never_throw faulty_genuine [OF faulty_refl])

text \<open>Where no error leads to the value, the success of the first part is all that matters.\<close>

lemma genuine_handle_never:
  assumes "genuine (\<lambda>_. True) m' m" and "\<And>e. never P (h' e)" and "\<And>x. genuine P (f' x) (f x)"
  shows "genuine P (handle m' h' f') (handle m h f)"
  unfolding genuine_def
proof (intro allI impI)
  fix w x w'
  assume run: "handle m' h' f' w = (Ok x, w')" and x: "P x"
  obtain r v where r: "m' w = (r, v)" by (cases "m' w")
  show "handle m h f w = (Ok x, w')"
  proof (cases r)
    case (Ok y)
    with assms(1) r have "m w = (Ok y, v)" by (simp add: genuine_def)
    with Ok r run x assms(3) show ?thesis by (simp add: handle_Ok genuine_def)
  next
    case (Err e)
    with r run x assms(2) show ?thesis by (auto simp: handle_Err never_def)
  next
    case (Panic p)
    with r run show ?thesis by (simp add: handle_Panic)
  qed
qed

lemma genuine_if: "genuine P m' m \<Longrightarrow> genuine P n' n \<Longrightarrow>
    genuine P (if b then m' else n') (if b then m else n)"
  by simp

lemmas genuine_rules = genuine_andThen genuine_if faulty_genuine [OF faulty_refl]

text \<open>The loop over the managers goes on after an error, but keeps it.\<close>

lemma manageAll_genuine:
  assumes "list_all2 (\<lambda>x y. faulty (rm_Manage (rme_Manager x) c) (rm_Manage (rme_Manager y) c)
      \<and> rme_Name x = rme_Name y) es' es"
  shows "genuine (\<lambda>errs. errs = []) (manageAll es' c) (manageAll es c)"
  using assms
proof (induction rule: list_all2_induct)
  case Nil
  show ?case by (simp add: genuine_def)
next
  case (Cons x xs y ys)
  have "never (\<lambda>errs. errs = []) (andThen (manageAll xs c) (\<lambda>errs. ok (wrap n e # errs)))" for n e
    by (auto simp: never_def andThen_eq_Ok)
  then show ?case
    using Cons.IH Cons.hyps(1) unfolding manageAll.simps by - (rule genuine_handle, simp_all add: never_genuine)
qed

locale flaky_environment =
  fixes l :: lib and cl' cl :: client
  assumes flaky: "flaky_client cl' cl"
begin

lemma kinds [faults]:
  "flaky_kind (c_capps cl') (c_capps cl)" "flaky_kind (c_cappconfigs cl') (c_cappconfigs cl)"
  "flaky_kind (c_capprevisions cl') (c_capprevisions cl)" "flaky_kind (c_ksvcs cl') (c_ksvcs cl)"
  "flaky_kind (c_knrevisions cl') (c_knrevisions cl)" "flaky_kind (c_nfspvcs cl') (c_nfspvcs cl)"
  "flaky_kind (c_outputs cl') (c_outputs cl)" "flaky_kind (c_flows cl') (c_flows cl)"
  "flaky_kind (c_certificates cl') (c_certificates cl)"
  "flaky_kind (c_domainmappings cl') (c_domainmappings cl)"
  "flaky_kind (c_cnamerecords cl') (c_cnamerecords cl)"
  "flaky_kind (c_pingsources cl') (c_pingsources cl)"
  "flaky_kind (c_kafkasources cl') (c_kafkasources cl)" "flaky_kind (c_secrets cl') (c_secrets cl)"
  "faulty (c_statusUpdate cl' c) (c_statusUpdate cl c)"
  using flaky by (simp_all add: flaky_client_def)

lemma configuration [faults]: "faulty (GetCappConfig cl') (GetCappConfig cl)"
  unfolding GetCappConfig_def by (intro faults)

lemma managers [faults]:
  "faulty (ksvc_CleanUp l cl' c) (ksvc_CleanUp l cl c)"
  "faulty (ksvc_Manage l cl' g c) (ksvc_Manage l cl g c)"
  "faulty (nfs_CleanUp l cl' c) (nfs_CleanUp l cl c)"
  "faulty (nfs_Manage l cl' g c) (nfs_Manage l cl g c)"
  "faulty (output_CleanUp l cl' c) (output_CleanUp l cl c)"
  "faulty (output_Manage l cl' c) (output_Manage l cl c)"
  "faulty (flow_CleanUp l cl' c) (flow_CleanUp l cl c)"
  "faulty (flow_Manage l cl' c) (flow_Manage l cl c)"
  "faulty (cert_CleanUp l cl' c) (cert_CleanUp l cl c)"
  "faulty (cert_Manage l cl' g c) (cert_Manage l cl g c)"
  unfolding ksvc_Manage_def ksvc_createOrUpdate_def ksvc_CleanUp_def nfs_Manage_def nfs_createOrUpdate_def
    nfs_CleanUp_def getPreviousNFSPVCs_def output_Manage_def output_createOrUpdate_def output_CleanUp_def
    flow_Manage_def flow_createOrUpdate_def flow_CleanUp_def cert_Manage_def cert_createOrUpdate_def
    cert_CleanUp_def getPreviousCertificates_def
  by (intro faults; assumption)+

lemma route_managers [faults]:
  "faulty (dm_CleanUp l cl' c) (dm_CleanUp l cl c)"
  "faulty (dm_Manage l cl' g c) (dm_Manage l cl g c)"
  "faulty (dns_CleanUp l cl' c) (dns_CleanUp l cl c)"
  "faulty (dns_Manage l cl' g c) (dns_Manage l cl g c)"
  unfolding dm_Manage_def dm_createOrUpdate_def dm_prepareResource_def dm_CleanUp_def dm_cleanUpItem_def
    getPreviousDomainMappings_def dns_Manage_def dns_createOrUpdate_def dns_CleanUp_def
    getPreviousDNSRecords_def
  by (intro faults; assumption)+

lemma source_managers [faults]:
  "faulty (ping_CleanUp l cl' c) (ping_CleanUp l cl c)"
  "faulty (ping_Manage l cl' g c) (ping_Manage l cl g c)"
  "faulty (kafka_CleanUp l cl' c) (kafka_CleanUp l cl c)"
  "faulty (kafka_Manage l cl' g c) (kafka_Manage l cl g c)"
  unfolding ping_Manage_def ping_createOrUpdate_def ping_cleanUpOrphans_def ping_CleanUp_def
    getPingSources_def kafka_Manage_def kafka_createOrUpdate_def kafka_cleanUpOrphans_def
    kafka_CleanUp_def getKafkaSources_def
  by (intro faults; assumption)+

lemma status_parts [faults]:
  "faulty (buildKnativeStatus l cl' c b) (buildKnativeStatus l cl c b)"
  "faulty (buildLoggingStatus l cl' c ls b) (buildLoggingStatus l cl c ls b)"
  "faulty (buildRouteStatus cl' c b1 b2 b3 g) (buildRouteStatus cl c b1 b2 b3 g)"
  "faulty (buildEventingStatus l cl' c) (buildEventingStatus l cl c)"
  unfolding buildKnativeStatus_def buildRevisionsStatus_def buildLoggingStatus_def buildRouteStatus_def
    buildDomainMappingStatus_def buildDNSRecordStatus_get buildCertificateStatus_def statusOrZero_def
    buildEventingStatus_def listOwnedEventSources_def
  by (intro faults; assumption)+

lemma volumes [faults]: "faulty (buildVolumesStatus cl' c b) (buildVolumesStatus cl c b)"
proof -
  have "faulty (buildVolumesStatusOf cl' c vs) (buildVolumesStatusOf cl c vs)" for vs
    by (induction vs) (auto intro!: faults)
  then show ?thesis unfolding buildVolumesStatus_def by (intro faults)
qed

lemma requiredBy_client:
  "requiredBy (ManagerMap (resourceManagers l cl' g)) n c = requiredBy (ManagerMap (resourceManagers l cl g)) n c"
  by (simp add: requiredBy_def ManagerMap_def resourceManagers_def)

lemma status [faults]:
  "faulty (SyncStatus l cl' c (ManagerMap (resourceManagers l cl' g)) g errs)
     (SyncStatus l cl c (ManagerMap (resourceManagers l cl g)) g errs)"
  unfolding SyncStatus_def observeStatus_def buildCappConditions_def requiredBy_client
    computeReadyCondition_first
  by (intro faults)

lemma finalizers [faults]:
  "faulty (ensureFinalizer l cl' c) (ensureFinalizer l cl c)"
  "faulty (removeFinalizer l cl' c) (removeFinalizer l cl c)"
  unfolding ensureFinalizer_def removeFinalizer_def by (intro faults)+

lemma deletion [faults]:
  "faulty (handleResourceDeletion l cl' c (resourceManagers l cl' g))
     (handleResourceDeletion l cl c (resourceManagers l cl g))"
  unfolding handleResourceDeletion_def finalizeCapp_def resourceManagers_def
  by (simp only: rev.simps append.simps forEach.simps resource_manager_entry.simps resource_manager.simps)
    (intro faults)

lemma application:
  "genuine (\<lambda>_. True) (SyncApplication l cl' c (resourceManagers l cl' g) g)
     (SyncApplication l cl c (resourceManagers l cl g) g)"
  unfolding genuine_def
proof (intro allI impI)
  fix w x w'
  assume run: "SyncApplication l cl' c (resourceManagers l cl' g) g w = (Ok x, w')"
  then obtain errs v u where m: "manageAll (resourceManagers l cl' g) c w = (Ok errs, v)"
    and st: "SyncStatus l cl' c (ManagerMap (resourceManagers l cl' g)) g errs v = (Ok (), u)"
    and agg: "(case NewAggregate l errs of None \<Rightarrow> ok () | Some err \<Rightarrow> throw err) u = (Ok x, w')"
    by (auto simp: SyncApplication_def andThen_eq_Ok)
  have none: "errs = []" using agg by (auto simp: NewAggregate_def split: if_splits)
  have "genuine (\<lambda>errs. errs = []) (manageAll (resourceManagers l cl' g) c) (manageAll (resourceManagers l cl g) c)"
    by (rule manageAll_genuine) (simp add: resourceManagers_def managers route_managers source_managers)
  with m none have m: "manageAll (resourceManagers l cl g) c w = (Ok errs, v)" by (simp add: genuine_def)
  have "SyncStatus l cl c (ManagerMap (resourceManagers l cl g)) g errs v = (Ok (), u)"
    using faulty_genuine [OF status [of c g errs], of "\<lambda>_. True"] st by (simp add: genuine_def)
  with m agg show "SyncApplication l cl c (resourceManagers l cl g) g w = (Ok x, w')"
    by (simp add: SyncApplication_def andThen_Ok)
qed

lemma Reconcile_genuine:
  "genuine (\<lambda>r. RequeueAfter r = 0) (Reconcile l cl' req) (Reconcile l cl req)"
  unfolding Reconcile_def Let_def
proof (intro genuine_handle_never [OF application] genuine_handle genuine_rules)
  fix e
  show "never (\<lambda>r. RequeueAfter r = 0) (if hasConflictError e then ok \<lparr>RequeueAfter = RequeueTime\<rparr>
      else throw (wrap ''failed to sync Capp'' e))"
    by (simp add: never_def RequeueTime_def Second_def)
  show "never (\<lambda>r. RequeueAfter r = 0) (if IsNotFound e then ok \<lparr>RequeueAfter = 0\<rparr>
      else throw (wrap ''failed to get Capp'' e))" if "\<not> IsNotFound e"
    using that by (simp add: never_def)
qed (intro faults)+

lemma revision_parts [faults]:
  "faulty (GetCappRevisions l cl' c) (GetCappRevisions l cl c)"
  "faulty (CreateCappRevision l cl' c n) (CreateCappRevision l cl c n)"
  "faulty (DeleteCappRevision cl' r) (DeleteCappRevision cl r)"
  unfolding GetCappRevisions_def CreateCappRevision_def DeleteCappRevision_def by (intro faults)+

lemma ReconcileRevision_genuine:
  "genuine (\<lambda>r. r = 0) (ReconcileRevision l cl' req) (ReconcileRevision l cl req)"
  unfolding ReconcileRevision_def syncCappRevision_def HandleCappCreation_def HandleCappUpdate_def
proof (intro genuine_handle genuine_rules genuine_handle_never faulty_genuine)
  fix e
  show "never (\<lambda>r. r = 0) (if IsConflict e \<or> IsAlreadyExists e then ok RevisionRequeueTime
      else throw (new_error (''failed to sync Capp: '' @ err_text e)))"
    by (simp add: never_def RevisionRequeueTime_def Second_def)
  show "never (\<lambda>r. r = 0) (if IsNotFound e then ok 0
      else throw (new_error (''failed to get Capp: '' @ err_text e)))" if "\<not> IsNotFound e"
    using that by (simp add: never_def)
qed (intro faults)+

end

section \<open>The properties\<close>

text \<open>
  C11: Success is never pretended. When the calls of a run may fail at any point, with whatever
  effect, a run of the Capp controller that neither returns an error nor asks to be repeated is
  the run on the calls that do not fail: the same answers, the same writes, the same end. The
  same holds of the CappRevision controller.
\<close>

theorem success_is_genuine:
  assumes "flaky_client cl' cl"
  shows "(\<forall>r w'. Reconcile l cl' req w = (Ok r, w') \<longrightarrow> RequeueAfter r = 0 \<longrightarrow>
      Reconcile l cl req w = (Ok r, w'))
    \<and> (\<forall>w'. ReconcileRevision l cl' req w = (Ok 0, w') \<longrightarrow> ReconcileRevision l cl req w = (Ok 0, w'))"
proof -
  from assms have "flaky_environment cl' cl" by unfold_locales
  from flaky_environment.Reconcile_genuine [OF this, of l req]
    flaky_environment.ReconcileRevision_genuine [OF this, of l req]
  show ?thesis by (simp add: genuine_def)
qed

text \<open>The cluster without its revisions: no call on them is answered.\<close>

definition forbidden :: "'a act" where
  "forbidden = throw (api_error (OtherReason ''Forbidden'') ''forbidden'')"

definition closedClient :: client where
  "closedClient = mem_client\<lparr>c_capprevisions :=
     \<lparr>kget = (\<lambda>ns n. forbidden), klist = (\<lambda>ns sel lim. forbidden), kcreate = (\<lambda>r. forbidden),
      kupdate = (\<lambda>r. forbidden), kdelete = (\<lambda>r. forbidden)\<rparr>\<rparr>"

lemma closed_kinds [simp]:
  "c_capps closedClient = c_capps mem_client" "c_cappconfigs closedClient = c_cappconfigs mem_client"
  "c_ksvcs closedClient = c_ksvcs mem_client" "c_knrevisions closedClient = c_knrevisions mem_client"
  "c_nfspvcs closedClient = c_nfspvcs mem_client" "c_outputs closedClient = c_outputs mem_client"
  "c_flows closedClient = c_flows mem_client" "c_certificates closedClient = c_certificates mem_client"
  "c_domainmappings closedClient = c_domainmappings mem_client"
  "c_cnamerecords closedClient = c_cnamerecords mem_client"
  "c_pingsources closedClient = c_pingsources mem_client"
  "c_kafkasources closedClient = c_kafkasources mem_client" "c_secrets closedClient = c_secrets mem_client"
  "c_statusUpdate closedClient = c_statusUpdate mem_client"
  by (simp_all add: closedClient_def)

lemma closed_flaky: "flaky_client closedClient mem_client"
proof -
  have refl: "flaky_kind kc kc" for kc :: "('sp, 'st) kind_client"
    by (simp add: flaky_kind_def faulty_refl)
  have "flaky_kind (c_capprevisions closedClient) (c_capprevisions mem_client)"
    unfolding flaky_kind_def
    by (simp add: closedClient_def forbidden_def faulty_def api_error_def IsNotFound_def)
  then show ?thesis unfolding flaky_client_def closed_kinds by (intro conjI allI refl faulty_refl)
qed

interpretation closed: flaky_environment mem_lib closedClient mem_client
  by unfold_locales (rule closed_flaky)

lemma closed_api: "reconcile_api mem_lib closedClient sampleCapp sampleWorld"
proof -
  have "reconcile_api mem_lib mem_client sampleCapp sampleWorld" by (rule mem_reconcile_api) simp_all
  then show ?thesis
    unfolding reconcile_api_def managers_api_def status_api_def ksvc_api_def nfs_api_def output_api_def
      flow_api_def cert_api_def dm_api_def dns_api_def ping_api_def kafka_api_def closed_kinds .
qed

theorem success_is_genuine_witness:
  "\<exists>w'. Reconcile mem_lib closedClient (key_of sampleCapp) sampleWorld = (Ok \<lparr>RequeueAfter = 0\<rparr>, w')
     \<and> Reconcile mem_lib mem_client (key_of sampleCapp) sampleWorld = (Ok \<lparr>RequeueAfter = 0\<rparr>, w')"
proof -
  obtain w' where "Reconcile mem_lib closedClient (key_of sampleCapp) sampleWorld = (Ok \<lparr>RequeueAfter = 0\<rparr>, w')"
    by (rule Reconcile_first [OF closed_api mem_reconcile_lib mem_owner_identity_lib sample_is_stored _
          sample_cleanup_finalizer sample_calm sample_sources_clear]) simp_all
  with success_is_genuine [OF closed_flaky] show ?thesis by (metis reconcile_result.select_convs(1))
qed

end
