(* ===== verification/ControlLoop.thy ===== *)
theory ControlLoop
  imports WatchProperties Isolation FaultyCalls
begin

text \<open>
  The Capp controller and its watches as one system: objects change, the watches put Capps into
  the work queue, runs of \<open>Reconcile\<close> take them out, calls of a run fail, and the runs for the
  Capps of other namespaces and of the CappRevision controller come in between. For one Capp,
  whose key is fixed, the state is the world and whether the key is in the queue. The theory
  tells the changes that the watches hear of, after which the Capp's objects are in place or its
  key is in the queue, from those that they do not, which last until the next run.
\<close>

section \<open>Changes of objects\<close>

text \<open>The table before and after the change that an event reports.\<close>

fun applied :: "('sp, 'st) resource watch_event \<Rightarrow> ('sp, 'st) table \<Rightarrow> ('sp, 'st) table \<Rightarrow> bool" where
  "applied (CreateEvent r) t t' \<longleftrightarrow>
     tlookup t (key_of r) = None \<and> tlookup t' = (tlookup t)(key_of r \<mapsto> r)"
| "applied (UpdateEvent old new) t t' \<longleftrightarrow>
     tlookup t (key_of old) = Some old \<and> key_of new = key_of old
     \<and> tlookup t' = (tlookup t)(key_of old \<mapsto> new)"
| "applied (DeleteEvent r) t t' \<longleftrightarrow>
     tlookup t (key_of r) = Some r \<and> tlookup t' = (tlookup t)(key_of r := None)"
| "applied (GenericEvent r) t t' \<longleftrightarrow> False"

text \<open>An update that leaves alone everything the managers look at.\<close>

fun quiet :: "('sp, 'st) resource watch_event \<Rightarrow> bool" where
  "quiet (UpdateEvent old new) \<longleftrightarrow> Spec new = Spec old \<and> Labels (Meta new) = Labels (Meta old)
     \<and> OwnerReferences (Meta new) = OwnerReferences (Meta old)
     \<and> DeletionTimestamp (Meta new) = DeletionTimestamp (Meta old)"
| "quiet _ \<longleftrightarrow> False"

fun is_update :: "'o watch_event \<Rightarrow> bool" where
  "is_update (UpdateEvent old new) \<longleftrightarrow> True"
| "is_update _ \<longleftrightarrow> False"

definition about :: "key \<Rightarrow> ('sp, 'st) resource watch_event \<Rightarrow> bool" where
  "about k e \<longleftrightarrow> (\<exists>r \<in> set (event_objects e). key_of r = k)"

text \<open>An object of the event carries the label of the Capp.\<close>

definition labelled :: "capp \<Rightarrow> ('sp, 'st) resource watch_event \<Rightarrow> bool" where
  "labelled c e \<longleftrightarrow> (\<exists>r \<in> set (event_objects e). labelled_for c r)"

lemma applied_objects:
  assumes "applied e t t'"
  shows "about k e \<Longrightarrow> \<forall>r \<in> set (event_objects e). key_of r = k"
    and "\<not> about k e \<Longrightarrow> tlookup t' k = tlookup t k"
    and "\<exists>k. about k e"
  using assms by (cases e; auto simp: about_def)+

text \<open>
  The library looks only at the namespace and the owner references of the object it adds an
  owner to.
\<close>

definition owner_meta_lib :: "lib \<Rightarrow> bool" where
  "owner_meta_lib l \<longleftrightarrow> (\<forall>c m m'. Namespace m' = Namespace m \<longrightarrow> OwnerReferences m' = OwnerReferences m \<longrightarrow>
     l_SetOwnerReference l c m' = l_SetOwnerReference l c m)"

lemma mem_owner_meta_lib: "owner_meta_lib mem_lib"
  by (simp add: owner_meta_lib_def mem_lib_def)

lemma owned_by_refs:
  assumes "owner_meta_lib l" and "Namespace m' = Namespace m" and "OwnerReferences m' = OwnerReferences m"
  shows "owned_by l c m' = owned_by l c m"
proof -
  have "l_SetOwnerReference l c m' = l_SetOwnerReference l c m"
    using assms unfolding owner_meta_lib_def by blast
  with assms(3) show ?thesis by (simp add: owned_by_def)
qed

definition in_place_at :: "lib \<Rightarrow> capp \<Rightarrow> ('sp \<Rightarrow> 'sp) \<Rightarrow> ('sp, 'st) resource option \<Rightarrow> bool" where
  "in_place_at l c m x \<longleftrightarrow>
     (case x of None \<Rightarrow> False | Some r \<Rightarrow> m (Spec r) = Spec r \<and> \<not> terminating r \<and> owned_by l c (Meta r))"

lemma in_place_alt: "in_place l c d m t = in_place_at l c m (tlookup t (key_of d))"
  by (simp add: in_place_def in_place_at_def)

lemma in_place_after:
  assumes "owner_meta_lib l" and "applied e t t'" and "in_place l c d m t" and "quiet e \<or> \<not> about (key_of d) e"
  shows "in_place l c d m t'"
  using assms(4)
proof
  assume "\<not> about (key_of d) e"
  with applied_objects(2) [OF assms(2)] assms(3) show ?thesis by (simp add: in_place_def)
next
  assume "quiet e"
  then obtain old new where e: "e = UpdateEvent old new" by (cases e) simp_all
  have "Namespace (Meta new) = Namespace (Meta old)"
    using assms(2) by (simp add: e key_of_def)
  moreover have "OwnerReferences (Meta new) = OwnerReferences (Meta old)" using \<open>quiet e\<close> by (simp add: e)
  ultimately have "owned_by l c (Meta new) = owned_by l c (Meta old)"
    by (rule owned_by_refs [OF assms(1)])
  then have same: "in_place_at l c m (Some new) = in_place_at l c m (Some old)"
    using \<open>quiet e\<close> by (simp add: e in_place_at_def terminating_def)
  from assms(2) have "tlookup t' (key_of d) = tlookup t (key_of d)
      \<or> tlookup t' (key_of d) = Some new \<and> tlookup t (key_of d) = Some old"
    by (simp add: e)
  with same assms(3) show ?thesis unfolding in_place_alt by metis
qed

lemma dns_there_after:
  assumes "applied e t t'" and "dns_there l c d t" and "quiet e \<or> \<not> about (key_of d) e"
  shows "dns_there l c d t'"
  using assms(3)
proof
  assume "\<not> about (key_of d) e"
  with applied_objects(2) [OF assms(1)] assms(2) show ?thesis by (simp add: dns_there_def)
next
  assume "quiet e"
  then obtain old new where e: "e = UpdateEvent old new" by (cases e) simp_all
  have same: "dns_merge d (Spec new) = Spec new \<longleftrightarrow> dns_merge d (Spec old) = Spec old"
    "OwnerReferences (Meta new) = OwnerReferences (Meta old)"
    using \<open>quiet e\<close> by (simp_all add: e)
  from assms(1) have "tlookup t' (key_of d) = tlookup t (key_of d)
      \<or> tlookup t' (key_of d) = Some new \<and> tlookup t (key_of d) = Some old"
    by (simp add: e)
  then show ?thesis
  proof (elim disjE conjE)
    assume "tlookup t' (key_of d) = tlookup t (key_of d)"
    with assms(2) show ?thesis by (simp only: dns_there_def)
  next
    assume "tlookup t' (key_of d) = Some new" "tlookup t (key_of d) = Some old"
    with same assms(2) show ?thesis by (simp only: dns_there_def option.case)
  qed
qed

lemma managed_after:
  assumes "applied e t t'" and "quiet e \<or> \<not> labelled c e" and "fmlookup x CappResourceKey = None"
    and "\<And>r. managed_by c x t r \<Longrightarrow> Q (Name (Meta r))" and "managed_by c x t' r"
  shows "Q (Name (Meta r))"
proof (cases "tlookup t (key_of r) = Some r")
  case True
  with assms(5) have "managed_by c x t r" by (simp add: managed_by_def)
  with assms(4) show ?thesis .
next
  case False
  with assms(1,5) obtain old where e: "e = CreateEvent r \<or> e = UpdateEvent old r"
    by (cases e) (auto simp: managed_by_def split: if_splits)
  have "fmlookup (fmap_of_list [(CappResourceKey, Name (Meta c))] ++\<^sub>f x) CappResourceKey = Some (Name (Meta c))"
    using assms(3) by (simp add: fmdom'_notI fmdomI fmlookup_dom_iff)
  then have lab: "labelled_for c r"
    using assms(5) unfolding managed_by_def labelled_for_def selected_def fmsubset_alt_def fmpred_iff
    by blast
  with e have "labelled c e" by (auto simp: labelled_def)
  with assms(2) e have q: "quiet e" "e = UpdateEvent old r" by auto
  then have "managed_by c x t old"
    using assms(1,5) by (auto simp: managed_by_def key_of_def selected_def)
  from assms(4) [OF this] show ?thesis using assms(1) q(2) by (simp add: key_of_def)
qed

section \<open>Whom an event wakes\<close>

lemma watch_wakes:
  assumes "watch_contract wl" and "predicate e" and "r \<in> set (event_objects e)" and "k \<in> set (mapFunc r)"
  shows "k \<in> set (watch wl predicate mapFunc e)"
  using assms by (auto simp: watch_def watch_contract_def)

lemma labels_wake:
  assumes "watch_contract wl" and "predicate e" and "labelled c e" and "Name (Meta c) \<noteq> []"
  shows "key_of c \<in> set (watch wl predicate findCappFromLabels e)"
proof -
  obtain r where r: "r \<in> set (event_objects e)" "labelled_for c r"
    using assms(3) by (auto simp: labelled_def)
  then have "key_of c \<in> set (findCappFromLabels r)"
    using assms(4) by (simp add: labelled_for_def findCappFromLabels_def key_of_def)
  with assms(1,2) r(1) show ?thesis by (rule watch_wakes)
qed

lemma name_wakes:
  assumes "watch_contract wl" and "predicate e" and "about k e"
  shows "k \<in> set (watch wl predicate findCappFromEvent e)"
proof -
  obtain r where r: "r \<in> set (event_objects e)" "key_of r = k"
    using assms(3) by (auto simp: about_def)
  then have "k \<in> set (findCappFromEvent r)" by (simp add: findCappFromEvent_def key_of_def)
  with assms(1,2) r(1) show ?thesis by (rule watch_wakes)
qed

section \<open>What a change does to one manager's objects\<close>

text \<open>
  The API server changes the generation with every change of the spec and with the request to
  delete. An update that changes the labels or the owner references alone is not reported.
\<close>

definition reported :: "watch_lib \<Rightarrow> ('sp, 'st) resource watch_event \<Rightarrow> bool" where
  "reported wl e \<longleftrightarrow> quiet e \<or> generationChanged wl e"

text \<open>Objects under the names that the managers use for the Capp carry its label.\<close>

definition marked :: "key set \<Rightarrow> capp \<Rightarrow> ('sp, 'st) resource watch_event \<Rightarrow> bool" where
  "marked K c e \<longleftrightarrow> (\<forall>k \<in> K. about k e \<longrightarrow> labelled c e)"

lemma named_after:
  assumes "owner_meta_lib l" and "applied e t t'" and "reported wl e"
    and "named_settled req l c d m t" and "req \<Longrightarrow> key_of d = key_of c"
  shows "named_settled req l c d m t' \<or> generationChanged wl e \<and> about (key_of c) e"
proof (cases "generationChanged wl e \<and> about (key_of c) e")
  case False
  then have or: "quiet e \<or> \<not> about (key_of c) e" using assms(3) by (auto simp: reported_def)
  show ?thesis
  proof (cases req)
    case True
    with in_place_after [OF assms(1,2)] assms(4,5) or show ?thesis by (simp add: named_settled_def)
  next
    case False
    with assms(4) have none: "tlookup t (key_of c) = None" by (simp add: named_settled_def)
    with assms(2) or have "\<not> about (key_of c) e" by (cases e) (auto simp: about_def)
    from applied_objects(2) [OF assms(2) this] none show ?thesis using False by (simp add: named_settled_def)
  qed
qed simp

lemma named_heard:
  assumes "watch_contract wl" and "owner_meta_lib l" and "applied e t t'" and "reported wl e"
    and "generationChanged wl e \<Longrightarrow> predicate e"
    and "named_settled req l c d m t" and "req \<Longrightarrow> key_of d = key_of c"
  shows "named_settled req l c d m t' \<or> key_of c \<in> set (watch wl predicate findCappFromEvent e)"
  using named_after [OF assms(2-4,6)] assms(5,7) name_wakes [OF assms(1), where predicate = predicate and e = e]
  by blast

lemma single_after:
  assumes "owner_meta_lib l" and "applied e t t'" and "reported wl e"
    and "single_settled req l c d m x t" and "marked {key_of d} c e" and "fmlookup x CappResourceKey = None"
  shows "single_settled req l c d m x t' \<or> generationChanged wl e \<and> labelled c e"
proof (cases "generationChanged wl e \<and> labelled c e")
  case False
  then have or: "quiet e \<or> \<not> labelled c e" using assms(3) by (auto simp: reported_def)
  then have "quiet e \<or> \<not> about (key_of d) e" using assms(5) by (auto simp: marked_def)
  moreover have "\<not> managed_by c x t' r" if "\<forall>r. \<not> managed_by c x t r" for r
    using managed_after [OF assms(2) or assms(6), where Q = "\<lambda>_. False"] that by blast
  ultimately show ?thesis using in_place_after [OF assms(1,2)] assms(4)
    by (auto simp: single_settled_def split: if_splits)
qed simp

lemma single_heard:
  assumes "watch_contract wl" and "owner_meta_lib l" and "applied e t t'" and "reported wl e"
    and "generationChanged wl e \<Longrightarrow> predicate e" and "Name (Meta c) \<noteq> []"
    and "single_settled req l c d m fmempty t" and "marked {key_of d} c e"
  shows "single_settled req l c d m fmempty t' \<or> key_of c \<in> set (watch wl predicate findCappFromLabels e)"
  using single_after [OF assms(2-4,7,8)] assms(5)
    labels_wake [OF assms(1), where predicate = predicate and e = e, OF _ _ assms(6)]
  by auto

lemma sources_after:
  assumes "owner_meta_lib l" and "applied e t t'" and "reported wl e"
    and "sources_settled req l c ds m t" and "marked (key_of ` set ds) c e"
  shows "sources_settled req l c ds m t' \<or> generationChanged wl e \<and> labelled c e"
proof (cases "generationChanged wl e \<and> labelled c e")
  case False
  then have or: "quiet e \<or> \<not> labelled c e" using assms(3) by (auto simp: reported_def)
  then have q: "quiet e \<or> \<not> about (key_of d) e" if "d \<in> set ds" for d
    using assms(5) that by (auto simp: marked_def)
  note managed = managed_after [OF assms(2) or, of fmempty]
  have "in_place l c d (m d) t'" if "d \<in> set ds" "in_place l c d (m d) t" for d
    using in_place_after [OF assms(1,2) that(2) q [OF that(1)]] .
  moreover have "Name (Meta r) \<in> set (map (\<lambda>d. Name (Meta d)) ds)"
    if "managed_by c fmempty t' r" "\<forall>r. managed_by c fmempty t r \<longrightarrow> Name (Meta r) \<in> set (map (\<lambda>d. Name (Meta d)) ds)"
    for r
    using managed [where Q = "\<lambda>n. n \<in> set (map (\<lambda>d. Name (Meta d)) ds)"] that by simp
  moreover have "False" if "managed_by c fmempty t' r" "\<forall>r. \<not> managed_by c fmempty t r" for r
    using managed [where Q = "\<lambda>_. False"] that by simp
  ultimately show ?thesis using assms(4) unfolding sources_settled_def by (cases req) auto
qed simp

lemma sources_heard:
  assumes "watch_contract wl" and "owner_meta_lib l" and "applied e t t'" and "reported wl e"
    and "generationChanged wl e \<Longrightarrow> predicate e" and "Name (Meta c) \<noteq> []"
    and "sources_settled req l c ds m t" and "marked (key_of ` set ds) c e"
  shows "sources_settled req l c ds m t' \<or> key_of c \<in> set (watch wl predicate findCappFromLabels e)"
  using sources_after [OF assms(2-4,7,8)] assms(5)
    labels_wake [OF assms(1), where predicate = predicate and e = e, OF _ _ assms(6)]
  by auto

text \<open>An edit of a CNAMERecord is only seen when a condition changes.\<close>

lemma dns_after:
  assumes "applied e (cnamerecords w) t'" and "quiet e \<or> \<not> is_update e" and "dns_settled l g c w"
    and "\<And>d. dns_prepareResource g c = Ok d \<Longrightarrow> marked {key_of d} c e"
  shows "dns_settled l g c (w\<lparr>cnamerecords := t'\<rparr>) \<or> \<not> is_update e \<and> labelled c e"
proof (cases "\<not> is_update e \<and> labelled c e")
  case False
  then have or: "quiet e \<or> \<not> labelled c e" using assms(2) by auto
  have x: "fmlookup (dns_extra c) CappResourceKey = None"
    by (simp add: dns_extra_def capp_keys_differ)
  have "quiet e \<or> \<not> about (key_of d) e" if "dns_prepareResource g c = Ok d" for d
    using assms(4) [OF that] or by (auto simp: marked_def)
  moreover have "\<not> managed_by c (dns_extra c) t' r" if "\<forall>r. \<not> managed_by c (dns_extra c) (cnamerecords w) r" for r
    using managed_after [OF assms(1) or x, where Q = "\<lambda>_. False"] that by blast
  ultimately show ?thesis using assms(3) dns_there_after [OF assms(1)] by (auto simp: dns_settled_def split: if_splits result.splits)
qed simp

lemma dns_heard:
  assumes "watch_contract wl" and "applied e (cnamerecords w) t'" and "quiet e \<or> \<not> is_update e"
    and "Name (Meta c) \<noteq> []" and "dns_settled l g c w"
    and "\<And>d. dns_prepareResource g c = Ok d \<Longrightarrow> marked {key_of d} c e"
  shows "dns_settled l g c (w\<lparr>cnamerecords := t'\<rparr>)
    \<or> key_of c \<in> set (watch wl cnameRecordWatchPredicate findCappFromLabels e)"
proof -
  have "cnameRecordWatchPredicate e" if "\<not> is_update e"
    using that by (cases e) (simp_all add: cnameRecordWatchPredicate_def)
  with dns_after [OF assms(2,3,5,6)] labels_wake [OF assms(1) _ _ assms(4)] show ?thesis by blast
qed

section \<open>Every change is heard\<close>

text \<open>Updates of a Capp or of the configuration, as the API server makes them.\<close>

fun served :: "('sp, 'st) resource watch_event \<Rightarrow> bool" where
  "served (UpdateEvent old new) \<longleftrightarrow> UID (Meta new) = UID (Meta old)
     \<and> (Generation (Meta new) = Generation (Meta old) \<longrightarrow>
          Spec new = Spec old \<and> DeletionTimestamp (Meta new) = DeletionTimestamp (Meta old))"
| "served _ \<longleftrightarrow> True"

text \<open>The world before and after the change that an event reports.\<close>

fun happens :: "watch_lib \<Rightarrow> cluster_event \<Rightarrow> world \<Rightarrow> world \<Rightarrow> bool" where
  "happens wl (CappEvent e) w w' \<longleftrightarrow> (\<exists>t. w' = w\<lparr>capps := t\<rparr> \<and> applied e (capps w) t \<and> served e)"
| "happens wl (CappConfigEvent e) w w' \<longleftrightarrow>
     (\<exists>t. w' = w\<lparr>cappconfigs := t\<rparr> \<and> applied e (cappconfigs w) t \<and> served e)"
| "happens wl (ServiceEvent e) w w' \<longleftrightarrow>
     (\<exists>t. w' = w\<lparr>ksvcs := t\<rparr> \<and> applied e (ksvcs w) t \<and> reported wl e)"
| "happens wl (SyslogNGOutputEvent e) w w' \<longleftrightarrow>
     (\<exists>t. w' = w\<lparr>outputs := t\<rparr> \<and> applied e (outputs w) t \<and> reported wl e)"
| "happens wl (SyslogNGFlowEvent e) w w' \<longleftrightarrow>
     (\<exists>t. w' = w\<lparr>flows := t\<rparr> \<and> applied e (flows w) t \<and> reported wl e)"
| "happens wl (CertificateEvent e) w w' \<longleftrightarrow>
     (\<exists>t. w' = w\<lparr>certificates := t\<rparr> \<and> applied e (certificates w) t \<and> reported wl e)"
| "happens wl (DomainMappingEvent e) w w' \<longleftrightarrow>
     (\<exists>t. w' = w\<lparr>domainmappings := t\<rparr> \<and> applied e (domainmappings w) t \<and> reported wl e)"
| "happens wl (PingSourceEvent e) w w' \<longleftrightarrow>
     (\<exists>t. w' = w\<lparr>pingsources := t\<rparr> \<and> applied e (pingsources w) t \<and> reported wl e)"
| "happens wl (KafkaSourceEvent e) w w' \<longleftrightarrow>
     (\<exists>t. w' = w\<lparr>kafkasources := t\<rparr> \<and> applied e (kafkasources w) t \<and> reported wl e)"
| "happens wl (CNAMERecordEvent e) w w' \<longleftrightarrow>
     (\<exists>t. w' = w\<lparr>cnamerecords := t\<rparr> \<and> applied e (cnamerecords w) t \<and> (quiet e \<or> \<not> is_update e))"
| "happens wl OtherKindEvent w w' \<longleftrightarrow>
     (\<exists>rs ks ev ck. w' = w\<lparr>capprevisions := rs, knrevisions := ks, events := ev, clock := ck\<rparr>)"

fun marks :: "capp_config \<Rightarrow> capp \<Rightarrow> world \<Rightarrow> cluster_event \<Rightarrow> bool" where
  "marks g c w (CertificateEvent e) \<longleftrightarrow> marked {key_of (cert_prepareResource g c)} c e"
| "marks g c w (DomainMappingEvent e) \<longleftrightarrow> marked {key_of (dm_desired g c w)} c e"
| "marks g c w (CNAMERecordEvent e) \<longleftrightarrow>
     (case dns_prepareResource g c of Ok d \<Rightarrow> marked {key_of d} c e | _ \<Rightarrow> True)"
| "marks g c w (PingSourceEvent e) \<longleftrightarrow> marked (key_of ` set (ping_desired c)) c e"
| "marks g c w (KafkaSourceEvent e) \<longleftrightarrow> marked (key_of ` set (kafka_desired c)) c e"
| "marks g c w _ \<longleftrightarrow> True"

text \<open>The objects of the Capp are in place, if there is such a Capp and it is not being deleted.\<close>

definition in_sync :: "lib \<Rightarrow> key \<Rightarrow> world \<Rightarrow> bool" where
  "in_sync l k w \<longleftrightarrow>
     (\<forall>c g. stored c g w \<longrightarrow> key_of c = k \<longrightarrow> DeletionTimestamp (Meta c) = None \<longrightarrow> all_settled l g c w)"

lemma settled_at_elsewhere:
  "settled_at j l g c (w\<lparr>capprevisions := rs, knrevisions := ks, events := ev, clock := ck\<rparr>) = settled_at j l g c w"
  "settled_at j l g c (w\<lparr>cappconfigs := gs\<rparr>) = settled_at j l g c w"
  by (cases j; simp add: settled_defs dm_desired_def cong: conj_cong split: result.split)+

lemma settled_at_config:
  assumes "Spec g' = Spec g"
  shows "settled_at j l g' c w = settled_at j l g c w"
  by (cases j) (simp_all only: settled_at.simps settled_defs desired_defs plan_merges assms)

lemma all_settled_moves:
  assumes "all_settled l g c w" and "moves j w w'" and "settled_at j l g c w'"
  shows "all_settled l g c w'"
  using assms moves_settled [OF assms(2)] unfolding all_settled_def by metis

text \<open>The manager whose objects an event is about.\<close>

fun manager_of :: "cluster_event \<Rightarrow> manager_kind option" where
  "manager_of (ServiceEvent e) = Some MKnativeService"
| "manager_of (SyslogNGOutputEvent e) = Some MSyslogNGOutput"
| "manager_of (SyslogNGFlowEvent e) = Some MSyslogNGFlow"
| "manager_of (CertificateEvent e) = Some MCertificate"
| "manager_of (DomainMappingEvent e) = Some MDomainMapping"
| "manager_of (CNAMERecordEvent e) = Some MDNSRecord"
| "manager_of (PingSourceEvent e) = Some MPingSource"
| "manager_of (KafkaSourceEvent e) = Some MKafkaSource"
| "manager_of _ = None"

lemma happens_moves:
  assumes "happens wl E w w'" and "manager_of E = Some j"
  shows "moves j w w'"
proof -
  have "moves MDomainMapping w (w\<lparr>domainmappings := t\<rparr>)" for t
    using moves_dm_put [of w "(t, secrets w)"] by (simp add: dm_put_def del: moves.simps)
  with assms moves_put [of w] show ?thesis by (cases E) (auto simp del: moves.simps)
qed

lemma generation_watched:
  "generationChanged wl e1 \<Longrightarrow> knativeServiceWatchPredicate wl e1"
  "generationChanged wl e2 \<Longrightarrow> certificateWatchPredicate wl e2"
  "generationChanged wl e3 \<Longrightarrow> domainMappingWatchPredicate wl e3"
  "generationChanged wl e4 \<Longrightarrow> pingSourceWatchPredicate wl e4"
  "generationChanged wl e5 \<Longrightarrow> kafkaSourceWatchPredicate wl e5"
  by (simp_all add: knativeServiceWatchPredicate_def certificateWatchPredicate_def
      domainMappingWatchPredicate_def pingSourceWatchPredicate_def kafkaSourceWatchPredicate_def)

lemma manager_heard:
  assumes wl: "watch_contract wl" and lib: "owner_meta_lib l" and named: "Name (Meta c) \<noteq> []"
    and happens: "happens wl E w w'" and marks: "marks g c w E"
    and j: "manager_of E = Some j" and settled: "settled_at j l g c w"
    and woken: "SetupWithManager wl cl E w' = (Ok ks, w'')"
  shows "settled_at j l g c w' \<or> key_of c \<in> set ks"
proof (cases E)
  case (ServiceEvent e)
  then obtain t where t: "w' = w\<lparr>ksvcs := t\<rparr>" "applied e (ksvcs w) t" "reported wl e" using happens by auto
  from settled j have "ksvc_settled l g c w" by (auto simp: ServiceEvent)
  from named_heard [where predicate = "knativeServiceWatchPredicate wl",
      OF wl lib t(2,3) generation_watched(1) this [unfolded ksvc_settled_def] named_prepared(1)] j woken
  show ?thesis by (auto simp: ServiceEvent t(1) ksvc_settled_def)
next
  case (SyslogNGOutputEvent e)
  then obtain t where t: "w' = w\<lparr>outputs := t\<rparr>" "applied e (outputs w) t" "reported wl e" using happens by auto
  from settled j have "output_settled l g c w" by (auto simp: SyslogNGOutputEvent)
  from named_heard [where predicate = "generationChanged wl",
      OF wl lib t(2,3) _ this [unfolded output_settled_def] named_prepared(3)] j woken
  show ?thesis by (auto simp: SyslogNGOutputEvent t(1) output_settled_def)
next
  case (SyslogNGFlowEvent e)
  then obtain t where t: "w' = w\<lparr>flows := t\<rparr>" "applied e (flows w) t" "reported wl e" using happens by auto
  from settled j have "flow_settled l g c w" by (auto simp: SyslogNGFlowEvent)
  from named_heard [where predicate = "generationChanged wl",
      OF wl lib t(2,3) _ this [unfolded flow_settled_def] named_prepared(2)] j woken
  show ?thesis by (auto simp: SyslogNGFlowEvent t(1) flow_settled_def)
next
  case (CertificateEvent e)
  then obtain t where t: "w' = w\<lparr>certificates := t\<rparr>" "applied e (certificates w) t" "reported wl e"
    using happens by auto
  from settled j have "cert_settled l g c w" by (auto simp: CertificateEvent)
  from single_heard [where predicate = "certificateWatchPredicate wl",
      OF wl lib t(2,3) generation_watched(2) named this [unfolded cert_settled_def]] j woken marks
  show ?thesis by (auto simp: CertificateEvent t(1) cert_settled_def)
next
  case (DomainMappingEvent e)
  then obtain t where t: "w' = w\<lparr>domainmappings := t\<rparr>" "applied e (domainmappings w) t" "reported wl e"
    using happens by auto
  have desired: "dm_desired g c (w\<lparr>domainmappings := t\<rparr>) = dm_desired g c w" by (simp add: dm_desired_def)
  from settled j have "dm_settled l g c w" by (auto simp: DomainMappingEvent)
  from single_heard [where predicate = "domainMappingWatchPredicate wl",
      OF wl lib t(2,3) generation_watched(3) named this [unfolded dm_settled_def]] j woken marks
  show ?thesis by (auto simp: DomainMappingEvent t(1) dm_settled_def desired)
next
  case (CNAMERecordEvent e)
  then obtain t where t: "w' = w\<lparr>cnamerecords := t\<rparr>" "applied e (cnamerecords w) t" "quiet e \<or> \<not> is_update e"
    using happens by auto
  have "marked {key_of d} c e" if "dns_prepareResource g c = Ok d" for d
    using marks that by (simp add: CNAMERecordEvent)
  with dns_heard [OF wl t(2,3) named, of l g] settled j woken
  show ?thesis by (auto simp: CNAMERecordEvent t(1))
next
  case (PingSourceEvent e)
  then obtain t where t: "w' = w\<lparr>pingsources := t\<rparr>" "applied e (pingsources w) t" "reported wl e"
    using happens by auto
  from settled j have "ping_settled l g c w" by (auto simp: PingSourceEvent)
  from sources_heard [where predicate = "pingSourceWatchPredicate wl",
      OF wl lib t(2,3) generation_watched(4) named this [unfolded ping_settled_def]] j woken marks
  show ?thesis by (auto simp: PingSourceEvent t(1) ping_settled_def)
next
  case (KafkaSourceEvent e)
  then obtain t where t: "w' = w\<lparr>kafkasources := t\<rparr>" "applied e (kafkasources w) t" "reported wl e"
    using happens by auto
  from settled j have "kafka_settled l g c w" by (auto simp: KafkaSourceEvent)
  from sources_heard [where predicate = "kafkaSourceWatchPredicate wl",
      OF wl lib t(2,3) generation_watched(5) named this [unfolded kafka_settled_def]] j woken marks
  show ?thesis by (auto simp: KafkaSourceEvent t(1) kafka_settled_def)
qed (use j in simp_all)

lemma object_heard:
  assumes wl: "watch_contract wl" and lib: "owner_meta_lib l" and named: "Name (Meta c) \<noteq> []"
    and happens: "happens wl E w w'" and marks: "marks g c w E" and settled: "all_settled l g c w"
    and kind: "(\<forall>e. E \<noteq> CappEvent e) \<and> (\<forall>e. E \<noteq> CappConfigEvent e)"
    and woken: "SetupWithManager wl cl E w' = (Ok ks, w'')"
  shows "all_settled l g c w' \<or> key_of c \<in> set ks"
proof (cases "manager_of E")
  case None
  with kind have "E = OtherKindEvent" by (cases E) auto
  with happens settled show ?thesis by (auto simp: all_settled_def settled_at_elsewhere)
next
  case (Some j)
  have "settled_at j l g c w" using settled by (simp add: all_settled_def)
  from manager_heard [OF wl lib named happens marks Some this woken] show ?thesis
    using all_settled_moves [OF settled happens_moves [OF happens Some]] by blast
qed

text \<open>An event of the Capp itself, or of the configuration.\<close>

lemma capp_heard:
  assumes wl: "watch_contract wl" and own: "owner_identity_lib l"
    and happens: "happens wl (CappEvent e) w w'" and sync: "in_sync l k w"
    and woken: "SetupWithManager wl cl (CappEvent e) w' = (Ok ks, w'')"
  shows "in_sync l k w' \<or> k \<in> set ks"
proof (cases "k \<in> set ks")
  case False
  obtain t where t: "w' = w\<lparr>capps := t\<rparr>" "applied e (capps w) t" "served e" using happens by auto
  have "all_settled l g c w'"
    if c: "stored c g w'" "key_of c = k" "DeletionTimestamp (Meta c) = None" for c g
  proof (cases "tlookup (capps w) k = Some c")
    case True
    with c t(1) have "stored c g w" by (simp add: stored_def)
    with sync c(2,3) have "all_settled l g c w" by (simp add: in_sync_def)
    then show ?thesis by (simp add: all_settled_def t(1))
  next
    case False
    with c t(1,2) obtain old where e: "e = CreateEvent c \<or> e = UpdateEvent old c"
      by (cases e) (auto simp: stored_def split: if_splits)
    have filtered: "\<not> cappWatchPredicate wl e"
      using \<open>k \<notin> set ks\<close> woken c(2) e by (auto split: if_splits)
    with e have e: "e = UpdateEvent old c"
      by (auto simp: cappWatchPredicate_def watch_contract_other [OF wl])
    with filtered t(3) have same: "Spec c = Spec old" "DeletionTimestamp (Meta c) = DeletionTimestamp (Meta old)"
      "UID (Meta c) = UID (Meta old)" "Labels (Meta c) = Labels (Meta old)"
      "Annotations (Meta c) = Annotations (Meta old)"
      by (simp_all add: cappWatchPredicate_def watch_contract_update [OF wl])
    from t(1,2) e c(1) have old: "stored old g w" "key_of c = key_of old" by (auto simp: stored_def)
    with sync c(2,3) same(2) have "all_settled l g old w" by (simp add: in_sync_def)
    moreover have "same_request old c" using same old(2) by (simp add: same_request_def)
    ultimately show ?thesis
      using settled_at_same_request [OF own] by (simp add: all_settled_def t(1))
  qed
  then show ?thesis by (simp add: in_sync_def)
qed simp

definition lists_capps :: "client \<Rightarrow> bool" where
  "lists_capps cl \<longleftrightarrow> (\<forall>w. \<exists>xs. c_allCapps cl w = (Ok xs, w)
     \<and> (\<forall>c. tlookup (capps w) (key_of c) = Some c \<longrightarrow> c \<in> set xs))"

lemma mem_lists_capps: "lists_capps mem_client"
  by (simp add: lists_capps_def mem_client_def tlookup_in_set)

lemma config_heard:
  assumes wl: "watch_contract wl" and api: "lists_capps cl"
    and happens: "happens wl (CappConfigEvent e) w w'" and sync: "in_sync l k w"
    and woken: "SetupWithManager wl cl (CappConfigEvent e) w' = (Ok ks, w'')"
  shows "in_sync l k w' \<or> k \<in> set ks"
proof (cases "generationChanged wl e")
  case True
  obtain xs where xs: "c_allCapps cl w' = (Ok xs, w')"
      "\<forall>c. tlookup (capps w') (key_of c) = Some c \<longrightarrow> c \<in> set xs"
    using api by (auto simp: lists_capps_def)
  with True woken have "ks = map key_of xs"
    by (auto simp: findCappsForCappConfig_def handle_Ok key_of_def)
  with xs(2) have "key_of c \<in> set ks" if "stored c g w'" for c g
    using that by (auto simp: stored_def)
  then show ?thesis unfolding in_sync_def by blast
next
  case False
  obtain t where t: "w' = w\<lparr>cappconfigs := t\<rparr>" "applied e (cappconfigs w) t" "served e" using happens by auto
  from False obtain old new where e: "e = UpdateEvent old new"
    using watch_contract_other [OF wl] by (cases e) auto
  have spec: "Spec new = Spec old" using False t(3) by (simp add: e watch_contract_update [OF wl])
  have "all_settled l g c w'"
    if c: "stored c g w'" "key_of c = k" "DeletionTimestamp (Meta c) = None" for c g
  proof -
    from c(1) t(1,2) e have "stored c g w \<or> g = new \<and> stored c old w"
      by (auto simp: stored_def split: if_splits)
    with sync c(2,3) have "all_settled l g c w \<or> g = new \<and> all_settled l old c w"
      unfolding in_sync_def by blast
    with settled_at_config [OF spec] show ?thesis by (auto simp: all_settled_def t(1) settled_at_elsewhere)
  qed
  then show ?thesis by (simp add: in_sync_def)
qed

lemma change_heard:
  assumes wl: "watch_contract wl" and lib: "owner_meta_lib l" and own: "owner_identity_lib l"
    and api: "lists_capps cl" and named: "nn_Name k \<noteq> []"
    and happens: "happens wl E w w'" and sync: "in_sync l k w"
    and marks: "\<And>c g. stored c g w \<Longrightarrow> key_of c = k \<Longrightarrow> marks g c w E"
    and woken: "SetupWithManager wl cl E w' = (Ok ks, w'')"
  shows "in_sync l k w' \<or> k \<in> set ks"
proof (cases "(\<exists>e. E = CappEvent e) \<or> (\<exists>e. E = CappConfigEvent e)")
  case True
  with capp_heard [OF wl own] config_heard [OF wl api] happens sync woken show ?thesis by blast
next
  case False
  then have stored: "stored c g w' = stored c g w" for c g
    using happens by (cases E) (auto simp: stored_def)
  have "all_settled l g c w'"
    if "k \<notin> set ks" "stored c g w'" "key_of c = k" "DeletionTimestamp (Meta c) = None" for c g
  proof -
    have "Name (Meta c) \<noteq> []" using named that(3) by (auto simp: key_of_def)
    moreover have "all_settled l g c w" using sync that(2-4) by (simp add: stored in_sync_def)
    ultimately show ?thesis
      using object_heard [OF wl lib _ happens marks _ _ woken, of c g] that False by (auto simp: stored)
  qed
  then show ?thesis unfolding in_sync_def by blast
qed

section \<open>What happens elsewhere\<close>

text \<open>Tables that agree on a namespace, for the predicates that only look there.\<close>

definition agree_in :: "string \<Rightarrow> ('sp, 'st) table \<Rightarrow> ('sp, 'st) table \<Rightarrow> bool" where
  "agree_in ns t t' \<longleftrightarrow> (\<forall>j. nn_Namespace j = ns \<longrightarrow> tlookup t' j = tlookup t j)"

lemma agree_in_lookup: "agree_in ns t t' \<Longrightarrow> Namespace (Meta r) = ns \<Longrightarrow> tlookup t' (key_of r) = tlookup t (key_of r)"
  by (simp add: agree_in_def key_of_def)

lemma agree_in_shapes:
  assumes same: "agree_in (Namespace (Meta c)) t t'"
  shows agree_in_place: "Namespace (Meta d) = Namespace (Meta c) \<Longrightarrow> in_place l c d m t' = in_place l c d m t"
    and agree_in_managed: "managed_by c x t' r = managed_by c x t r"
    and agree_in_named: "(req \<Longrightarrow> Namespace (Meta d) = Namespace (Meta c)) \<Longrightarrow>
      named_settled req l c d m t' = named_settled req l c d m t"
    and agree_in_single: "Namespace (Meta d) = Namespace (Meta c) \<Longrightarrow>
      single_settled req l c d m x t' = single_settled req l c d m x t"
    and agree_in_sources: "(\<And>d. d \<in> set ds \<Longrightarrow> Namespace (Meta d) = Namespace (Meta c)) \<Longrightarrow>
      sources_settled req l c ds ms t' = sources_settled req l c ds ms t"
proof -
  show place: "Namespace (Meta d) = Namespace (Meta c) \<Longrightarrow> in_place l c d m t' = in_place l c d m t" for d m
    using agree_in_lookup [OF same, of d] by (simp add: in_place_def)
  show managed: "managed_by c x t' r = managed_by c x t r" for r x
    using agree_in_lookup [OF same, of r] by (auto simp: managed_by_def)
  have "tlookup t' (key_of c) = tlookup t (key_of c)"
    using agree_in_lookup [OF same, of c] by simp
  then show "(req \<Longrightarrow> Namespace (Meta d) = Namespace (Meta c)) \<Longrightarrow>
      named_settled req l c d m t' = named_settled req l c d m t"
    using place by (simp add: named_settled_def)
  show "Namespace (Meta d) = Namespace (Meta c) \<Longrightarrow>
      single_settled req l c d m x t' = single_settled req l c d m x t"
    using place managed by (simp add: single_settled_def)
  show "(\<And>d. d \<in> set ds \<Longrightarrow> Namespace (Meta d) = Namespace (Meta c)) \<Longrightarrow>
      sources_settled req l c ds ms t' = sources_settled req l c ds ms t"
    using place managed by (simp add: sources_settled_def)
qed

lemma agree_in_dns:
  assumes "agree_in (Namespace (Meta c)) t t'" "dns_prepareResource g c = Ok d"
  shows "dns_there l c d t' = dns_there l c d t"
  using agree_in_lookup [OF assms(1), of d] dns_prepare_meta [OF assms(2)] by (simp add: dns_there_def)

definition elsewhere :: "string \<Rightarrow> object_kind \<Rightarrow> key \<Rightarrow> bool" where
  "elsewhere ns kd j \<longleftrightarrow> nn_Namespace j \<noteq> ns \<or> kd = CappRevisionKind"

lemma elsewhere_agree:
  assumes "changes_only (elsewhere ns) w w'"
  shows "agree_in ns (capps w) (capps w')" "agree_in ns (ksvcs w) (ksvcs w')"
    "agree_in ns (nfspvcs w) (nfspvcs w')" "agree_in ns (outputs w) (outputs w')"
    "agree_in ns (flows w) (flows w')" "agree_in ns (certificates w) (certificates w')"
    "agree_in ns (domainmappings w) (domainmappings w')" "agree_in ns (cnamerecords w) (cnamerecords w')"
    "agree_in ns (pingsources w) (pingsources w')" "agree_in ns (kafkasources w) (kafkasources w')"
    "agree_in ns (secrets w) (secrets w')" "cappconfigs w' = cappconfigs w"
  using assms by (auto simp: changes_only_def same_but_def elsewhere_def agree_in_def)

lemma settled_elsewhere:
  assumes "changes_only (elsewhere (Namespace (Meta c))) w w'"
  shows "settled_at j l g c w' = settled_at j l g c w"
proof -
  note same = elsewhere_agree [OF assms]
  have desired: "dm_desired g c w' = dm_desired g c w"
    using same(11) by (simp add: dm_desired_def tls_key_def agree_in_def)
  show ?thesis
  proof (cases j)
    case MKnativeService
    then show ?thesis
      by (simp add: ksvc_settled_def agree_in_named [OF same(2)])
  next
    case MNfsPvc
    then show ?thesis
      using agree_in_place [OF same(3) nfs_prepare_ns] agree_in_managed [OF same(3)]
      by (simp add: nfs_settled_def)
  next
    case MSyslogNGOutput
    then show ?thesis
      by (simp add: output_settled_def agree_in_named [OF same(4)] output_IsRequired_def
          output_prepare_meta newMeta_def)
  next
    case MSyslogNGFlow
    then show ?thesis
      by (simp add: flow_settled_def agree_in_named [OF same(5)] flow_prepareResource_def newMeta_def)
  next
    case MCertificate
    then show ?thesis by (simp add: cert_settled_def agree_in_single [OF same(6)])
  next
    case MDomainMapping
    then show ?thesis by (simp add: dm_settled_def desired agree_in_single [OF same(7)])
  next
    case MDNSRecord
    then show ?thesis
      using agree_in_dns [OF same(8)] agree_in_managed [OF same(8)]
      by (auto simp: dns_settled_def split: result.split)
  next
    case MPingSource
    have "Namespace (Meta d) = Namespace (Meta c)" if "d \<in> set (ping_desired c)" for d
      using that by (auto simp: ping_desired_def)
    with MPingSource show ?thesis by (simp add: ping_settled_def agree_in_sources [OF same(9)])
  next
    case MKafkaSource
    have "Namespace (Meta d) = Namespace (Meta c)" if "d \<in> set (kafka_desired c)" for d
      using that by (auto simp: kafka_desired_def)
    with MKafkaSource show ?thesis by (simp add: kafka_settled_def agree_in_sources [OF same(10)])
  qed
qed

lemma in_sync_elsewhere:
  assumes "changes_only (elsewhere (nn_Namespace k)) w w'" and "in_sync l k w"
  shows "in_sync l k w'"
  unfolding in_sync_def
proof (intro allI impI)
  fix c g
  assume "stored c g w'" and k: "key_of c = k" and live: "DeletionTimestamp (Meta c) = None"
  have ns: "Namespace (Meta c) = nn_Namespace k" using k by (auto simp: key_of_def)
  from \<open>stored c g w'\<close> have "stored c g w"
    using elsewhere_agree(1,12) [OF assms(1)] ns by (simp add: stored_def agree_in_def key_of_def)
  with assms(2) k live have "all_settled l g c w" by (simp add: in_sync_def)
  with settled_elsewhere assms(1) ns show "all_settled l g c w'" by (simp add: all_settled_def)
qed

lemma runs_elsewhere:
  assumes "scoped_client cl" and "nn_Namespace req \<noteq> []"
  shows "nn_Namespace req \<noteq> ns \<Longrightarrow> changes_only (elsewhere ns) w (snd (Reconcile l cl req w))"
    and "sort_lib l \<Longrightarrow> changes_only (elsewhere ns) w (snd (ReconcileRevision l cl req w))"
proof -
  show "changes_only (elsewhere ns) w (snd (Reconcile l cl req w))" if "nn_Namespace req \<noteq> ns"
    by (rule changes_only_mono [OF runs_in_namespace(1) [OF assms]]) (use that in \<open>simp add: elsewhere_def\<close>)
  show "changes_only (elsewhere ns) w (snd (ReconcileRevision l cl req w))" if "sort_lib l"
    by (rule changes_only_mono [OF runs_in_namespace(2) [OF assms that]]) (simp add: elsewhere_def)
qed

section \<open>The loop\<close>

text \<open>
  What a run needs to succeed at once. A live Capp, with the finalizer or without: a reachable
  API and no object of its being deleted or held by finalizers. A Capp that is being deleted:
  the cleanup finalizer. Or there is no such Capp.
\<close>

definition ready_live :: "lib \<Rightarrow> client \<Rightarrow> capp \<Rightarrow> capp_config \<Rightarrow> world \<Rightarrow> bool" where
  "ready_live l cl c g w \<longleftrightarrow> stored c g w \<and> reconcile_api l cl c w \<and> DeletionTimestamp (Meta c) = None
     \<and> all_calm g c w \<and> sources_clear c \<and> cs_State (Spec c) \<noteq> []"

definition ready_dying :: "lib \<Rightarrow> client \<Rightarrow> capp \<Rightarrow> capp_config \<Rightarrow> world \<Rightarrow> bool" where
  "ready_dying l cl c g w \<longleftrightarrow> stored c g w \<and> reconcile_api l cl c w \<and> DeletionTimestamp (Meta c) \<noteq> None
     \<and> l_ContainsFinalizer l (Finalizers (Meta c)) cappCleanupFinalizer"

definition ready :: "lib \<Rightarrow> client \<Rightarrow> key \<Rightarrow> world \<Rightarrow> bool" where
  "ready l cl k w \<longleftrightarrow>
     (\<exists>c g. key_of c = k \<and> (ready_live l cl c g w \<or> ready_dying l cl c g w))
     \<or> kind_api (c_capps cl) capps capps_update \<and> tlookup (capps w) k = None"

text \<open>The queue takes a request again after an error, a panic, or when asked to.\<close>

fun requeued :: "reconcile_result result \<Rightarrow> bool" where
  "requeued (Ok r) \<longleftrightarrow> RequeueAfter r \<noteq> 0"
| "requeued (Err e) \<longleftrightarrow> True"
| "requeued (Panic p) \<longleftrightarrow> True"

datatype step = Change | Unnoticed | Run | Faulty | Unready | Elsewhere

text \<open>
  The steps for the Capp with the key \<open>k\<close>. The state is the world and whether \<open>k\<close> is in the
  queue.
  \<^item> \<open>Change\<close>: a change of the kinds in \<open>happens\<close>, reported to the watches, or any change at all
    with which the Capp is queued, for whatever reason (another watch, a resynchronisation).
  \<^item> \<open>Unnoticed\<close>: any change at all, with nothing queued. The watches leave these to happen: edits of a CNAMERecord
    that change none of its conditions, of the labels or owner references of an object alone, of objects
    that are not watched (NfsPvcs and secrets), of an object under a name of the Capp without its label.
  \<^item> \<open>Run\<close>: a run in a state that is \<open>ready\<close>, all of whose calls succeed.
  \<^item> \<open>Faulty\<close>: a run in which calls fail, in a state that is \<open>ready\<close> or with a result that puts it back in
    the queue.
  \<^item> \<open>Unready\<close>: any other run, with a client that does and answers anything; what it leaves need not be right.
  \<^item> \<open>Elsewhere\<close>: runs for Capps of other namespaces and runs of the CappRevision controller,
    with calls that may do anything within their scope.
\<close>

inductive loop_step ::
  "watch_lib \<Rightarrow> lib \<Rightarrow> client \<Rightarrow> key \<Rightarrow> world \<times> bool \<Rightarrow> step \<Rightarrow> world \<times> bool \<Rightarrow> bool"
  for wl :: watch_lib and l :: lib and cl :: client and k :: key where
  change: "\<lbrakk>happens wl E w w'; \<And>c g. stored c g w \<Longrightarrow> key_of c = k \<Longrightarrow> marks g c w E;
     SetupWithManager wl cl E w' = (Ok ks, w'')\<rbrakk> \<Longrightarrow>
     loop_step wl l cl k (w, queued) Change (w', queued \<or> k \<in> set ks)"
| queues: "loop_step wl l cl k (w, queued) Change (w', True)"
| unnoticed: "loop_step wl l cl k (w, queued) Unnoticed (w', queued)"
| run: "\<lbrakk>ready l cl k w; Reconcile l cl k w = (r, w')\<rbrakk> \<Longrightarrow>
     loop_step wl l cl k (w, True) Run (w', requeued r)"
| faulty: "\<lbrakk>flaky_client cl' cl; Reconcile l cl' k w = (r, w'); ready l cl k w \<or> requeued r\<rbrakk> \<Longrightarrow>
     loop_step wl l cl k (w, True) Faulty (w', requeued r)"
| unready: "Reconcile l cl' k w = (r, w') \<Longrightarrow>
     loop_step wl l cl k (w, True) Unready (w', requeued r)"
| tenant: "\<lbrakk>scoped_client cl'; nn_Namespace k' \<noteq> []; nn_Namespace k' \<noteq> nn_Namespace k;
     w' = snd (Reconcile l cl' k' w)\<rbrakk> \<Longrightarrow>
     loop_step wl l cl k (w, queued) Elsewhere (w', queued)"
| history: "\<lbrakk>scoped_client cl'; nn_Namespace k' \<noteq> []; w' = snd (ReconcileRevision l cl' k' w)\<rbrakk> \<Longrightarrow>
     loop_step wl l cl k (w, queued) Elsewhere (w', queued)"

inductive_cases run_stepE: "loop_step wl l cl k s Run s'"

inductive loop ::
  "watch_lib \<Rightarrow> lib \<Rightarrow> client \<Rightarrow> key \<Rightarrow> world \<times> bool \<Rightarrow> step list \<Rightarrow> world \<times> bool \<Rightarrow> bool"
  for wl :: watch_lib and l :: lib and cl :: client and k :: key where
  none: "loop wl l cl k s [] s"
| more: "\<lbrakk>loop wl l cl k s0 xs s1; loop_step wl l cl k s1 x s2\<rbrakk> \<Longrightarrow> loop wl l cl k s0 (xs @ [x]) s2"

text \<open>Something went unnoticed, or a run was not ready, and none has put it right since.\<close>

fun disturbs :: "step \<Rightarrow> bool \<Rightarrow> bool" where
  "disturbs Unnoticed d \<longleftrightarrow> True"
| "disturbs Unready d \<longleftrightarrow> True"
| "disturbs Run d \<longleftrightarrow> False"
| "disturbs _ d \<longleftrightarrow> d"

definition disturbed :: "step list \<Rightarrow> bool" where
  "disturbed xs = fold disturbs xs False"

lemma disturbed_simps [simp]:
  "disturbed [] = False" "disturbed (xs @ [x]) = disturbs x (disturbed xs)"
  by (simp_all add: disturbed_def)

text \<open>
  What the server sees to when an object is updated: the UID is that of the update, and the
  request to delete the object stands.
\<close>

definition keeps_identity :: "client \<Rightarrow> bool" where
  "keeps_identity cl \<longleftrightarrow>
     (\<forall>w w' r r0 r'. kupdate (c_capps cl) r w = (Ok (), w') \<longrightarrow> tlookup (capps w) (key_of r) = Some r0 \<longrightarrow>
        tlookup (capps w') (key_of r) = Some r' \<longrightarrow>
        UID (Meta r') = UID (Meta r) \<and> DeletionTimestamp (Meta r') = DeletionTimestamp (Meta r0))"

lemma keeps_identityD:
  assumes "keeps_identity cl" and "kupdate (c_capps cl) r w = (Ok (), w')"
    and "tlookup (capps w) (key_of r) = Some r0" and "tlookup (capps w') (key_of r) = Some r'"
  shows "UID (Meta r') = UID (Meta r)" "DeletionTimestamp (Meta r') = DeletionTimestamp (Meta r0)"
  using assms unfolding keeps_identity_def by blast+

definition loop_libs :: "watch_lib \<Rightarrow> lib \<Rightarrow> client \<Rightarrow> bool" where
  "loop_libs wl l cl \<longleftrightarrow> watch_contract wl \<and> owner_meta_lib l \<and> owner_identity_lib l \<and> lists_capps cl
     \<and> reconcile_lib l \<and> finalizer_lib l \<and> finalizer_api cl \<and> keeps_identity cl"

lemma mem_keeps_identity: "keeps_identity mem_client"
proof -
  have "UID (Meta r') = UID (Meta r) \<and> DeletionTimestamp (Meta r') = DeletionTimestamp (Meta r0)"
    if "mem_update capps capps_update r w = (Ok (), w')" "tlookup (capps w) (key_of r) = Some r0"
      "tlookup (capps w') (key_of r) = Some r'" for r r0 r' :: capp and w w' :: world
    using that by (auto simp: mem_update_def Let_def tlookup_put tlookup_remove key_of_def split: if_splits)
  then show ?thesis by (simp add: keeps_identity_def mem_client_def)
qed

lemma mem_loop_libs: "loop_libs mem_watch_lib mem_lib mem_client"
  using mem_watch_contract mem_owner_meta_lib mem_owner_identity_lib mem_lists_capps mem_reconcile_lib
    mem_finalizer_lib mem_finalizer_api mem_keeps_identity
  by (simp add: loop_libs_def finalizer_lib_def)

lemma live_run:
  assumes libs: "loop_libs wl l cl" and c: "ready_live l cl c g w"
  obtains w' c' where "Reconcile l cl (key_of c) w = (Ok \<lparr>RequeueAfter = 0\<rparr>, w')"
    "stored c' g w'" "key_of c' = key_of c" "all_settled l g c' w'"
proof -
  have c: "stored c g w" "reconcile_api l cl c w" "DeletionTimestamp (Meta c) = None" "all_calm g c w"
      "sources_clear c" "cs_State (Spec c) \<noteq> []"
    using c by (simp_all add: ready_live_def)
  have lib: "reconcile_lib l" "owner_identity_lib l" "finalizer_lib l" "keeps_identity cl"
    using libs by (simp_all add: loop_libs_def)
  have at: "tlookup (capps w) (key_of c) = Some c" using c(1) by (simp add: stored_def)
  obtain t c0 where fin: "ensureFinalizer l cl c w = (Ok (), w\<lparr>capps := t\<rparr>)" "tlookup t (key_of c) = Some c0"
      "c0 = c \<and> t = capps w \<or> (\<exists>fs. kupdate (c_capps cl) (setFinalizers c fs) w = (Ok (), w\<lparr>capps := t\<rparr>)
         \<and> persisted (setFinalizers c fs) c0)"
    using ensureFinalizer_run [OF c(2) lib(3) at c(3)] by metis
  from fin(3) have same: "same_request c c0"
  proof (elim disjE conjE exE)
    fix fs
    assume u: "kupdate (c_capps cl) (setFinalizers c fs) w = (Ok (), w\<lparr>capps := t\<rparr>)"
      and p: "persisted (setFinalizers c fs) c0"
    have "key_of (setFinalizers c fs) = key_of c" by (simp add: setFinalizers_def key_of_def)
    then have "UID (Meta c0) = UID (Meta c)"
      using keeps_identityD(1) [OF lib(4) u, of c c0] at fin(2) by (simp add: setFinalizers_def)
    with p show ?thesis by (simp add: same_request_def persisted_def setFinalizers_def key_of_def)
  qed (simp add: same_request_def)
  have pre: "reconcile_api l cl c (w\<lparr>capps := t\<rparr>)" "all_calm g c (w\<lparr>capps := t\<rparr>)"
      "tlookup (capps (w\<lparr>capps := t\<rparr>)) (key_of c) = Some c0"
    using c(2,4) fin(2) by (simp_all add: all_calm_def)
  obtain w' c' where w': "SyncApplication l cl c (resourceManagers l cl g) g (w\<lparr>capps := t\<rparr>) = (Ok (), w')"
      "all_settled l g c w'" "tlookup (capps w') (key_of c) = Some c'" "status_only c0 c'"
      "cappconfigs w' = cappconfigs (w\<lparr>capps := t\<rparr>)"
  proof -
    from SyncApplication_settles [OF pre(1) lib(1) c(3) pre(2) c(5,6) pre(3)] show thesis
      by (elim exE conjE) (rule that)
  qed
  have req: "same_request c c'"
    using same status_only_same_request [OF w'(4)] by (simp add: same_request_def)
  have "key_of c' = key_of c" using req by (rule same_requestD)
  moreover have "all_settled l g c' w'"
    using w'(2) settled_at_same_request [OF lib(2) req] unfolding all_settled_def by metis
  moreover have "stored c' g w'"
    using w'(3,5) c(1) same_requestD(7) [OF req] by (simp add: stored_def)
  moreover note Reconcile_run [OF c(2,1,3) fin(1) w'(1)]
  ultimately show ?thesis using that by blast
qed

lemma ready_run:
  assumes libs: "loop_libs wl l cl" and "ready l cl k w"
  obtains w' where "Reconcile l cl k w = (Ok \<lparr>RequeueAfter = 0\<rparr>, w')" "in_sync l k w'"
proof -
  consider (live) c g where "key_of c = k" "ready_live l cl c g w"
    | (dying) c g where "key_of c = k" "ready_dying l cl c g w"
    | (gone) "kind_api (c_capps cl) capps capps_update" "tlookup (capps w) k = None"
    using assms(2) unfolding ready_def by metis
  then show thesis
  proof cases
    case live
    obtain w' c' where w': "Reconcile l cl (key_of c) w = (Ok \<lparr>RequeueAfter = 0\<rparr>, w')" "stored c' g w'"
        "key_of c' = key_of c" "all_settled l g c' w'"
      by (rule live_run [OF libs live(2)])
    have "x = c' \<and> g' = g" if "stored x g' w'" "key_of x = k" for x g'
      using that w'(2,3) live(1) by (auto simp: stored_def)
    with w'(4) have "in_sync l k w'" by (auto simp: in_sync_def)
    with w'(1) live(1) that show ?thesis by blast
  next
    case dying
    have c: "stored c g w" "reconcile_api l cl c w" "DeletionTimestamp (Meta c) \<noteq> None"
        "l_ContainsFinalizer l (Finalizers (Meta c)) cappCleanupFinalizer"
      using dying(2) by (simp_all add: ready_dying_def)
    have lib: "owner_refs_lib l" "finalizer_api cl" "keeps_identity cl"
      using libs by (simp_all add: loop_libs_def reconcile_lib_def)
    let ?c = "setFinalizers c (l_RemoveFinalizer l (Finalizers (Meta c)) cappCleanupFinalizer)"
    obtain w' w1 where w': "Reconcile l cl (key_of c) w = (Ok \<lparr>RequeueAfter = 0\<rparr>, w')"
        "tlookup (capps w1) (key_of c) = Some c" "kupdate (c_capps cl) ?c w1 = (Ok (), w')"
      using Reconcile_deletes [OF c(2,1,3,4) lib(1,2)] by blast
    have "key_of ?c = key_of c" by (simp add: setFinalizers_def key_of_def)
    with keeps_identityD(2) [OF lib(3) w'(3), of c] w'(2) c(3) dying(1) have "in_sync l k w'"
      by (auto simp: in_sync_def stored_def)
    with w'(1) dying(1) that show ?thesis by blast
  next
    case gone
    obtain e where "kget (c_capps cl) (nn_Namespace k) (nn_Name k) w = (Err e, w)" "IsNotFound e"
      using kind_api.get_missing [OF gone(1), of w "nn_Namespace k" "nn_Name k"] gone(2) by (cases k) auto
    then have "Reconcile l cl k w = (Ok \<lparr>RequeueAfter = 0\<rparr>, w)"
      by (simp add: Reconcile_def handle_Err)
    moreover have "in_sync l k w" using gone(2) by (auto simp: in_sync_def stored_def)
    ultimately show ?thesis using that by blast
  qed
qed

text \<open>A run that ends well in a state in which it has a chance to.\<close>

lemma flaky_run:
  assumes libs: "loop_libs wl l cl" and "ready l cl k w" and flaky: "flaky_client cl' cl"
    and run: "Reconcile l cl' k w = (r, w')" and "\<not> requeued r"
  shows "in_sync l k w'"
proof -
  from \<open>\<not> requeued r\<close> obtain x where r: "r = Ok x" "RequeueAfter x = 0" by (cases r) auto
  from flaky have "flaky_environment cl' cl" by unfold_locales
  from flaky_environment.Reconcile_genuine [OF this, of l k] run r have "Reconcile l cl k w = (Ok x, w')"
    by (simp add: genuine_def)
  moreover obtain v where "Reconcile l cl k w = (Ok \<lparr>RequeueAfter = 0\<rparr>, v)" "in_sync l k v"
    by (rule ready_run [OF libs assms(2)])
  ultimately show ?thesis by simp
qed

lemma run_step:
  assumes "loop_libs wl l cl" and "loop_step wl l cl k s Run s'"
  shows "\<not> snd s' \<and> in_sync l k (fst s')"
proof -
  obtain w r w' where "s' = (w', requeued r)" "ready l cl k w" "Reconcile l cl k w = (r, w')"
    using assms(2) by (auto elim: run_stepE)
  with ready_run [OF assms(1) this(2)] show ?thesis by (metis fst_conv snd_conv prod.inject requeued.simps(1) reconcile_result.select_convs(1))
qed

lemma loop_step_invariant:
  assumes libs: "loop_libs wl l cl" and named: "nn_Name k \<noteq> []"
    and "loop_step wl l cl k s x s'" and "snd s \<or> in_sync l k (fst s) \<or> d"
  shows "snd s' \<or> in_sync l k (fst s') \<or> disturbs x d"
  using assms(3,4)
proof (cases rule: loop_step.cases)
  case (change E w w' ks w'' queued)
  with assms(4) change_heard [OF _ _ _ _ named, of wl l cl E w w' ks w''] libs show ?thesis
    by (auto simp: loop_libs_def)
next
  case (run w r w')
  with run_step [OF libs, of k s s'] assms(3) show ?thesis by auto
next
  case (faulty cl' w r w')
  with flaky_run [OF libs _ faulty(4,5)] show ?thesis by (cases "requeued r") auto
next
  case (tenant cl' k' w' w queued)
  with assms(4) in_sync_elsewhere [OF runs_elsewhere(1) [OF tenant(4,5)]] show ?thesis by auto
next
  case (history cl' k' w' w queued)
  have "sort_lib l" using libs by (simp add: loop_libs_def reconcile_lib_def sync_libs_def)
  with history assms(4) in_sync_elsewhere [OF runs_elsewhere(2) [OF history(4,5)]] show ?thesis by auto
qed simp_all

lemma loop_invariant:
  assumes "loop wl l cl k s xs s'" and "loop_libs wl l cl" and "nn_Name k \<noteq> []" and "snd s"
  shows "snd s' \<or> in_sync l k (fst s') \<or> disturbed xs"
  using assms(1,4)
proof (induction rule: loop.induct)
  case (more s0 xs s1 x s2)
  show ?case
    using loop_step_invariant [OF assms(2,3) more.hyps(2) more.IH [OF more.prems]] by simp
qed simp





section \<open>The properties\<close>

text \<open>
  C2: no change that is heard is lost. Take any sequence of changes, heard or not, of runs for the
  Capp, whichever of their calls fail, of runs for Capps of other namespaces and of runs of the
  CappRevision controller. After it the Capp is in the queue, or its objects are in place, or there
  has been a change that the watches did not report, or a run that was not ready, since the last
  ready run without failures. And whenever the state is ready, a run whose calls succeed does
  succeed and puts the objects in place, whatever came before.

  Heard are the creation and deletion of any watched object with the Capp's label or
  name, the updates that change its generation, of a Capp also those of its labels and annotations, and
  whatever else puts the Capp into the queue; updates that change nothing that the managers
  look at need no report. Not reported are an edit of a CNAMERecord (if no condition changes with it), any
  change of an NfsPvc or a secret, a change of the labels or owner references of an object alone, and an object that
  has a name of the Capp's but not its label. A state is not ready if an object of the Capp is
  being deleted or kept by a finalizer, if the Capp is being deleted and has lost the cleanup
  finalizer, if its event sources have clashing names, its state is empty, or if it or its
  configuration cannot be read. The assumptions on the API server (\<open>loop_libs\<close>)
  include that the list of the Capps that a change of the configuration asks for does not fail.
\<close>

theorem no_lost_wakeup:
  assumes "loop_libs wl l cl" and "nn_Name k \<noteq> []"
    and "loop wl l cl k (w0, True) xs (w, queued)"
  shows "(queued \<or> in_sync l k w \<or> disturbed xs)
    \<and> (ready l cl k w \<longrightarrow> (\<exists>w'. Reconcile l cl k w = (Ok \<lparr>RequeueAfter = 0\<rparr>, w') \<and> in_sync l k w'))"
proof (intro conjI impI)
  show "queued \<or> in_sync l k w \<or> disturbed xs" using loop_invariant [OF assms(3,1,2)] by simp
next
  assume "ready l cl k w"
  from ready_run [OF assms(1) this] show "\<exists>w'. Reconcile l cl k w = (Ok \<lparr>RequeueAfter = 0\<rparr>, w') \<and> in_sync l k w'"
    by metis
qed




text \<open>A run whose first call fails, one for another namespace, and one that ends well.\<close>

definition deafClient :: client where
  "deafClient = mem_client\<lparr>c_capps := (mem_kind capps capps_update)\<lparr>kget := (\<lambda>ns n. forbidden)\<rparr>\<rparr>"

lemma deaf_flaky: "flaky_client deafClient mem_client"
proof -
  have refl: "flaky_kind kc kc" for kc :: "('sp, 'st) kind_client"
    by (simp add: flaky_kind_def faulty_refl)
  have "flaky_kind (c_capps deafClient) (c_capps mem_client)"
    by (simp add: flaky_kind_def deafClient_def faulty_refl)
      (simp add: forbidden_def faulty_def api_error_def IsNotFound_def)
  then show ?thesis
    by (simp add: flaky_client_def refl faulty_refl) (simp add: deafClient_def refl faulty_refl)
qed

lemma sample_ready: "ready mem_lib mem_client (key_of sampleCapp) sampleWorld"
proof -
  have "reconcile_api mem_lib mem_client sampleCapp sampleWorld" by (rule mem_reconcile_api) simp_all
  then have "ready_live mem_lib mem_client sampleCapp sampleConfig sampleWorld"
    using sample_is_stored sample_calm sample_sources_clear by (simp add: ready_live_def)
  then show ?thesis unfolding ready_def by blast
qed

lemma eventful_loop:
  "\<exists>w'. loop mem_watch_lib mem_lib mem_client (key_of sampleCapp) (w0, True)
     [Unnoticed, Faulty, Elsewhere, Run] (w', False)"
proof -
  let ?step = "loop_step mem_watch_lib mem_lib mem_client (key_of sampleCapp)"
  let ?loop = "loop mem_watch_lib mem_lib mem_client (key_of sampleCapp)"
  have any: "?step (w0, True) Unnoticed (sampleWorld, True)" by (rule loop_step.unnoticed)
  have "\<exists>e. Reconcile mem_lib deafClient (key_of sampleCapp) sampleWorld = (Err e, sampleWorld)"
    by (simp add: Reconcile_def deafClient_def forbidden_def handle_Err api_error_def IsNotFound_def)
  then obtain e where "Reconcile mem_lib deafClient (key_of sampleCapp) sampleWorld = (Err e, sampleWorld)" ..
  from loop_step.faulty [OF deaf_flaky this] have fail: "?step (sampleWorld, True) Faulty (sampleWorld, True)" by simp
  have "Reconcile mem_lib mem_client (NamespacedName ''other'' ''app'') sampleWorld
      = (Ok \<lparr>RequeueAfter = 0\<rparr>, sampleWorld)"
    by (simp add: Reconcile_def mem_get_def tlookup_Cons handle_Err api_error_def IsNotFound_def)
  then have other: "?step (sampleWorld, True) Elsewhere (sampleWorld, True)"
    by (intro loop_step.tenant [OF mem_scoped_client, of "NamespacedName ''other'' ''app''"]) simp_all
  obtain w' where "Reconcile mem_lib mem_client (key_of sampleCapp) sampleWorld = (Ok \<lparr>RequeueAfter = 0\<rparr>, w')"
    by (rule ready_run [OF mem_loop_libs sample_ready])
  from loop_step.run [OF sample_ready this] have "?step (sampleWorld, True) Run (w', False)" by simp
  from loop.more [OF loop.more [OF loop.more [OF loop.more [OF loop.none any] fail] other] this]
  show ?thesis by auto
qed

theorem no_lost_wakeup_witness:
  "\<exists>w'. loop mem_watch_lib mem_lib mem_client (key_of sampleCapp) (emptyWorld, True)
     [Unnoticed, Faulty, Elsewhere, Run] (w', False) \<and> in_sync mem_lib (key_of sampleCapp) w'"
proof -
  obtain w' where "loop mem_watch_lib mem_lib mem_client (key_of sampleCapp) (emptyWorld, True)
     [Unnoticed, Faulty, Elsewhere, Run] (w', False)" using eventful_loop by blast
  moreover from no_lost_wakeup [OF mem_loop_libs _ this] have "in_sync mem_lib (key_of sampleCapp) w'"
    by (simp add: disturbed_def)
  ultimately show ?thesis by blast
qed



end
