(* ===== verification/GuardedWrites.thy ===== *)
theory GuardedWrites
  imports ScopedAccess CappRevisionController PanicFreedom
begin

text \<open>
  Optimistic concurrency. An update that carries the resource version of an object that was read
  is refused by the API server when someone else has written the object since; an update that
  carries another version, or none, may overwrite what no one has looked at. The theorem here says
  that the controllers only make updates of the first sort: a client that refuses all others, and
  every update of the kinds that are never updated, is as good as one that refuses none.
\<close>

section \<open>Versions\<close>

type_synonym version = "key \<times> string \<times> string"
type_synonym versions = "object_kind \<Rightarrow> version \<Rightarrow> bool"

definition version_of :: "('sp, 'st) resource \<Rightarrow> version" where
  "version_of r = (key_of r, UID (Meta r), ResourceVersion (Meta r))"

text \<open>
  The client that refuses an update of a version that is not among the given ones. Of the
  revisions, the secrets, the configurations and Knative's revisions it refuses every update.
\<close>

definition blind_write :: "'a act" where
  "blind_write = throw (new_error ''update of a version that was not read'')"

definition guarded_kind :: "(version \<Rightarrow> bool) \<Rightarrow> ('sp, 'st) kind_client \<Rightarrow> ('sp, 'st) kind_client" where
  "guarded_kind S kc =
     kc\<lparr>kupdate := (\<lambda>r. if S (version_of r) then kupdate kc r else blind_write)\<rparr>"

definition guarded :: "versions \<Rightarrow> client \<Rightarrow> client" where
  "guarded S cl =
     cl\<lparr>c_capps := guarded_kind (S CappKind) (c_capps cl),
        c_cappconfigs := guarded_kind (\<lambda>v. False) (c_cappconfigs cl),
        c_capprevisions := guarded_kind (\<lambda>v. False) (c_capprevisions cl),
        c_knrevisions := guarded_kind (\<lambda>v. False) (c_knrevisions cl),
        c_ksvcs := guarded_kind (S ServiceKind) (c_ksvcs cl),
        c_nfspvcs := guarded_kind (S NfsPvcKind) (c_nfspvcs cl),
        c_outputs := guarded_kind (S OutputKind) (c_outputs cl),
        c_flows := guarded_kind (S FlowKind) (c_flows cl),
        c_certificates := guarded_kind (S CertificateKind) (c_certificates cl),
        c_domainmappings := guarded_kind (S DomainMappingKind) (c_domainmappings cl),
        c_cnamerecords := guarded_kind (S CNAMERecordKind) (c_cnamerecords cl),
        c_pingsources := guarded_kind (S PingSourceKind) (c_pingsources cl),
        c_kafkasources := guarded_kind (S KafkaSourceKind) (c_kafkasources cl),
        c_secrets := guarded_kind (\<lambda>v. False) (c_secrets cl),
        c_statusUpdate := (\<lambda>c. if S CappKind (version_of c) then c_statusUpdate cl c else blind_write)\<rparr>"

definition reads_among :: "(version \<Rightarrow> bool) \<Rightarrow> ('sp, 'st) kind_client \<Rightarrow> bool" where
  "reads_among S kc \<longleftrightarrow> (\<forall>ns n w r v. kget kc ns n w = (Ok r, v) \<longrightarrow> S (version_of r))"

definition client_reads_among :: "versions \<Rightarrow> client \<Rightarrow> bool" where
  "client_reads_among S cl \<longleftrightarrow>
     reads_among (S CappKind) (c_capps cl) \<and> reads_among (S ServiceKind) (c_ksvcs cl) \<and> reads_among (S NfsPvcKind) (c_nfspvcs cl)
     \<and> reads_among (S OutputKind) (c_outputs cl) \<and> reads_among (S FlowKind) (c_flows cl)
     \<and> reads_among (S CertificateKind) (c_certificates cl)
     \<and> reads_among (S DomainMappingKind) (c_domainmappings cl)
     \<and> reads_among (S CNAMERecordKind) (c_cnamerecords cl)
     \<and> reads_among (S PingSourceKind) (c_pingsources cl)
     \<and> reads_among (S KafkaSourceKind) (c_kafkasources cl)"

lemma guarded_kind_same [simp]:
  "kget (guarded_kind S kc) = kget kc" "klist (guarded_kind S kc) = klist kc"
  "kcreate (guarded_kind S kc) = kcreate kc" "kdelete (guarded_kind S kc) = kdelete kc"
  "CreateResource (guarded_kind S kc) = CreateResource kc"
  "DeleteResource (guarded_kind S kc) = DeleteResource kc"
  by (auto simp: guarded_kind_def CreateResource_def DeleteResource_def fun_eq_iff)

lemma guarded_UpdateResource:
  "S (version_of r) \<Longrightarrow> UpdateResource (guarded_kind S kc) r = UpdateResource kc r"
  by (simp add: guarded_kind_def UpdateResource_def)

lemma guarded_clients [simp]:
  "c_capps (guarded S cl) = guarded_kind (S CappKind) (c_capps cl)"
  "c_cappconfigs (guarded S cl) = guarded_kind (\<lambda>v. False) (c_cappconfigs cl)"
  "c_capprevisions (guarded S cl) = guarded_kind (\<lambda>v. False) (c_capprevisions cl)"
  "c_knrevisions (guarded S cl) = guarded_kind (\<lambda>v. False) (c_knrevisions cl)"
  "c_ksvcs (guarded S cl) = guarded_kind (S ServiceKind) (c_ksvcs cl)"
  "c_nfspvcs (guarded S cl) = guarded_kind (S NfsPvcKind) (c_nfspvcs cl)"
  "c_outputs (guarded S cl) = guarded_kind (S OutputKind) (c_outputs cl)"
  "c_flows (guarded S cl) = guarded_kind (S FlowKind) (c_flows cl)"
  "c_certificates (guarded S cl) = guarded_kind (S CertificateKind) (c_certificates cl)"
  "c_domainmappings (guarded S cl) = guarded_kind (S DomainMappingKind) (c_domainmappings cl)"
  "c_cnamerecords (guarded S cl) = guarded_kind (S CNAMERecordKind) (c_cnamerecords cl)"
  "c_pingsources (guarded S cl) = guarded_kind (S PingSourceKind) (c_pingsources cl)"
  "c_kafkasources (guarded S cl) = guarded_kind (S KafkaSourceKind) (c_kafkasources cl)"
  "c_secrets (guarded S cl) = guarded_kind (\<lambda>v. False) (c_secrets cl)"
  by (simp_all add: guarded_def)

lemma guarded_statusUpdate:
  "S CappKind (version_of c) \<Longrightarrow> c_statusUpdate (guarded S cl) c = c_statusUpdate cl c"
  by (simp add: guarded_def)

lemma guarded_parts [simp]:
  "listManagedResources (guarded_kind S kc) = listManagedResources kc"
  "deleteOwnedResource l (guarded_kind S kc) = deleteOwnedResource l kc"
  "deleteOrphan (guarded_kind S kc) = deleteOrphan kc"
  "cleanUpNamed l (guarded_kind S kc) = cleanUpNamed l kc"
  "statusOrZero (guarded_kind S kc') = statusOrZero kc'"
  "listOwnedEventSources (guarded_kind S kc) = listOwnedEventSources kc"
  by (intro ext; unfold listManagedResources_def deleteOwnedResource_def deleteOrphan_def cleanUpNamed_def
      statusOrZero_def listOwnedEventSources_def guarded_kind_same; rule refl)+

lemma guarded_lists [simp]:
  "deleteOwnedResources l (guarded_kind S kc) = deleteOwnedResources l kc"
  "cleanUpListed l (guarded_kind S kc) = cleanUpListed l kc"
  "cleanUpOrphansOf (guarded_kind S kc) = cleanUpOrphansOf kc"
  by (intro ext; unfold deleteOwnedResources_def cleanUpListed_def cleanUpOrphansOf_def guarded_parts; rule refl)+

section \<open>The shared helpers\<close>

lemma handle_read:
  assumes "reads_among S kc" and "\<And>r. S (version_of r) \<Longrightarrow> f' r = f r"
  shows "handle (kget kc ns n) h f' = handle (kget kc ns n) h f"
proof
  fix w
  obtain x v where x: "kget kc ns n w = (x, v)" by (metis surj_pair)
  show "handle (kget kc ns n) h f' w = handle (kget kc ns n) h f w"
  proof (cases x)
    case (Ok r)
    with x have "kget kc ns n w = (Ok r, v)" by simp
    with assms(1) have "S (version_of r)" unfolding reads_among_def by blast
    with assms(2) x Ok show ?thesis by (simp add: handle_Ok)
  qed (use x in \<open>simp_all add: handle_def\<close>)
qed

lemma andThen_read:
  assumes "reads_among S kc" and "\<And>r. S (version_of r) \<Longrightarrow> f' r = f r"
  shows "andThen (kget kc ns n) f' = andThen (kget kc ns n) f"
  unfolding andThen_def by (rule handle_read [OF assms])

lemma andThen_owned:
  assumes "\<And>r'. version_of r' = version_of r \<Longrightarrow> f' r' = f r'"
  shows "andThen (lift (ensureOwnerReference l c r kind)) f' = andThen (lift (ensureOwnerReference l c r kind)) f"
  using assms
  by (cases "l_SetOwnerReference l c (Meta r)")
    (auto simp: ensureOwnerReference_def andThen_def handle_def fun_eq_iff version_of_def key_of_def)

lemma guarded_update:
  "S (version_of r) \<Longrightarrow> updateManagedResourceIfNeeded (UpdateResource (guarded_kind S kc)) r s s' os
     = updateManagedResourceIfNeeded (UpdateResource kc) r s s' os"
  by (simp add: updateManagedResourceIfNeeded_def guarded_UpdateResource)

lemma guarded_upsert:
  assumes "reads_among S kc"
  shows "upsert l (guarded_kind S kc) c d p = upsert l kc c d p"
  unfolding upsert_def guarded_kind_same
proof (rule handle_read [OF assms], rule andThen_owned)
  fix r r' :: "('a, 'b) resource"
  assume "S (version_of r)"
    and "version_of r' = version_of (r\<lparr>Spec := up_merge p (Spec r)\<rparr>)"
  then have "S (version_of r')" by (simp add: version_of_def key_of_def)
  then show "up_wrap p r' (updateManagedResourceIfNeeded (UpdateResource (guarded_kind S kc)) r' (Spec r)
      (Spec r') (OwnerReferences (Meta r)))
    = up_wrap p r' (updateManagedResourceIfNeeded (UpdateResource kc) r' (Spec r) (Spec r')
      (OwnerReferences (Meta r)))"
    by (simp add: guarded_update)
qed

section \<open>The controllers\<close>

locale reading_environment =
  fixes S :: versions and l :: lib and cl :: client
  assumes reads: "client_reads_among S cl"
begin

lemma kinds:
  "reads_among (S CappKind) (c_capps cl)" "reads_among (S ServiceKind) (c_ksvcs cl)" "reads_among (S NfsPvcKind) (c_nfspvcs cl)"
  "reads_among (S OutputKind) (c_outputs cl)" "reads_among (S FlowKind) (c_flows cl)"
  "reads_among (S CertificateKind) (c_certificates cl)"
  "reads_among (S DomainMappingKind) (c_domainmappings cl)"
  "reads_among (S CNAMERecordKind) (c_cnamerecords cl)"
  "reads_among (S PingSourceKind) (c_pingsources cl)"
  "reads_among (S KafkaSourceKind) (c_kafkasources cl)"
  using reads by (simp_all add: client_reads_among_def)

lemmas upserts = kinds [THEN guarded_upsert]

lemma cleanUps:
  "ksvc_CleanUp l (guarded S cl) = ksvc_CleanUp l cl" "nfs_CleanUp l (guarded S cl) = nfs_CleanUp l cl"
  "output_CleanUp l (guarded S cl) = output_CleanUp l cl" "flow_CleanUp l (guarded S cl) = flow_CleanUp l cl"
  "cert_CleanUp l (guarded S cl) = cert_CleanUp l cl" "dm_CleanUp l (guarded S cl) = dm_CleanUp l cl"
  "dns_CleanUp l (guarded S cl) = dns_CleanUp l cl" "ping_CleanUp l (guarded S cl) = ping_CleanUp l cl"
  "kafka_CleanUp l (guarded S cl) = kafka_CleanUp l cl"
  by (intro ext; unfold ksvc_CleanUp_named nfs_CleanUp_listed output_CleanUp_def flow_CleanUp_def
      cert_CleanUp_listed dns_CleanUp_listed ping_CleanUp_listed kafka_CleanUp_listed dm_CleanUp_def
      getPreviousDomainMappings_def dm_cleanUpItem_def guarded_clients guarded_kind_same guarded_parts
      guarded_lists; rule refl)+

lemma plain_manages:
  "ksvc_Manage l (guarded S cl) g = ksvc_Manage l cl g" "nfs_Manage l (guarded S cl) g = nfs_Manage l cl g"
  "output_Manage l (guarded S cl) = output_Manage l cl" "flow_Manage l (guarded S cl) = flow_Manage l cl"
  "cert_Manage l (guarded S cl) g = cert_Manage l cl g"
  "ping_Manage l (guarded S cl) g = ping_Manage l cl g"
  "kafka_Manage l (guarded S cl) g = kafka_Manage l cl g"
  by (intro ext; unfold ksvc_Manage_def ksvc_createOrUpdate_upsert nfs_Manage_def nfs_createOrUpdate_upserts
      output_Manage_named flow_Manage_named manageNamed_def cert_Manage_def cert_createOrUpdate_upsert
      ping_Manage_sources kafka_Manage_sources manageSources_def guarded_clients guarded_lists guarded_parts
      cleanUps upserts; rule refl)+

text \<open>The two managers that are not an upsert word by word.\<close>

lemma dm_manages: "dm_Manage l (guarded S cl) g = dm_Manage l cl g"
proof (rule ext)
  fix c
  have prepare: "dm_prepareResource (guarded S cl) g c = dm_prepareResource cl g c"
    unfolding dm_prepareResource_def guarded_clients guarded_kind_same by (rule refl)
  have "dm_createOrUpdate l (guarded S cl) g c = dm_createOrUpdate l cl g c"
    unfolding dm_createOrUpdate_def prepare guarded_clients guarded_kind_same
    by (intro arg_cong2 [where f = andThen] refl ext)
      (rule handle_read [OF kinds(7), THEN fun_cong], rule andThen_owned, rule guarded_update,
        simp add: version_of_def key_of_def)
  then show "dm_Manage l (guarded S cl) g c = dm_Manage l cl g c"
    unfolding dm_Manage_def cleanUps by (rule arg_cong)
qed

lemma dns_manages: "dns_Manage l (guarded S cl) g = dns_Manage l cl g"
proof (rule ext)
  fix c
  have update: "(\<lambda>needs. if \<not> needs then ok ()
        else andThen (lift (ensureOwnerReference l c orig DNSRecord)) (\<lambda>dnsRecord.
          let dnsRecord = dnsRecord\<lparr>Spec := (Spec dnsRecord)
                \<lparr>cn_ForProvider := cn_ForProvider (Spec d),
                 cn_ProviderConfigReference := cn_ProviderConfigReference (Spec d)\<rparr>\<rparr>
          in if \<not> managedResourceNeedsUpdate (Spec orig) (Spec dnsRecord)
                    (OwnerReferences (Meta orig)) (OwnerReferences (Meta dnsRecord))
             then ok ()
             else UpdateResource (guarded_kind (S CNAMERecordKind) (c_cnamerecords cl)) dnsRecord))
      = (\<lambda>needs. if \<not> needs then ok ()
        else andThen (lift (ensureOwnerReference l c orig DNSRecord)) (\<lambda>dnsRecord.
          let dnsRecord = dnsRecord\<lparr>Spec := (Spec dnsRecord)
                \<lparr>cn_ForProvider := cn_ForProvider (Spec d),
                 cn_ProviderConfigReference := cn_ProviderConfigReference (Spec d)\<rparr>\<rparr>
          in if \<not> managedResourceNeedsUpdate (Spec orig) (Spec dnsRecord)
                    (OwnerReferences (Meta orig)) (OwnerReferences (Meta dnsRecord))
             then ok () else UpdateResource (c_cnamerecords cl) dnsRecord))"
    if "S CNAMERecordKind (version_of orig)" for orig d
    by (intro ext if_cong [OF refl refl] andThen_owned [THEN fun_cong])
      (use that in \<open>simp add: Let_def guarded_UpdateResource version_of_def key_of_def\<close>)
  have "dns_createOrUpdate l (guarded S cl) g c = dns_createOrUpdate l cl g c"
    unfolding dns_createOrUpdate_def guarded_clients guarded_kind_same
    by (intro arg_cong2 [where f = andThen] refl ext)
      (rule handle_read [OF kinds(8), THEN fun_cong], rule arg_cong2 [where f = andThen, OF refl update])
  then show "dns_Manage l (guarded S cl) g c = dns_Manage l cl g c"
    unfolding dns_Manage_def cleanUps by (rule arg_cong)
qed

lemma managers: "resourceManagers l (guarded S cl) g = resourceManagers l cl g"
  unfolding resourceManagers_def cleanUps plain_manages dm_manages dns_manages by (rule refl)

lemma status_volumes: "buildVolumesStatusOf (guarded S cl) c vs = buildVolumesStatusOf cl c vs"
  by (induction vs) simp_all

lemma status: "SyncStatus l (guarded S cl) c ms g errs = SyncStatus l cl c ms g errs"
proof -
  have observed: "observeStatus l (guarded S cl) = observeStatus l cl"
    by (intro ext; unfold observeStatus_def buildKnativeStatus_def buildRevisionsStatus_def
      buildLoggingStatus_def buildRouteStatus_def buildDomainMappingStatus_def
      buildDNSRecordStatus_get buildCertificateStatus_def buildVolumesStatus_def
      buildEventingStatus_def status_volumes guarded_clients guarded_kind_same guarded_parts; rule refl)
  show ?thesis
    unfolding SyncStatus_def observed guarded_clients guarded_kind_same
  proof (rule andThen_read [OF kinds(1)])
    fix r :: capp
    assume "S CappKind (version_of r)"
    then have same: "c_statusUpdate (guarded S cl) (r\<lparr>Status := s\<rparr>) = c_statusUpdate cl (r\<lparr>Status := s\<rparr>)" for s
      by (intro guarded_statusUpdate) (simp add: version_of_def key_of_def)
    show "andThen (observeStatus l cl c (Status r) ms g errs) (\<lambda>status.
        if stripVolatileStatusFields (Status r) = stripVolatileStatusFields status then ok ()
        else c_statusUpdate (guarded S cl) (r\<lparr>Status := status\<rparr>))
      = andThen (observeStatus l cl c (Status r) ms g errs) (\<lambda>status.
        if stripVolatileStatusFields (Status r) = stripVolatileStatusFields status then ok ()
        else c_statusUpdate cl (r\<lparr>Status := status\<rparr>))"
      unfolding same by (rule refl)
  qed
qed

lemma finalizers:
  assumes "S CappKind (version_of c)"
  shows "ensureFinalizer l (guarded S cl) c = ensureFinalizer l cl c"
    and "removeFinalizer l (guarded S cl) c = removeFinalizer l cl c"
proof -
  have "UpdateResource (guarded_kind (S CappKind) (c_capps cl)) (setFinalizers c fs)
      = UpdateResource (c_capps cl) (setFinalizers c fs)" for fs
    using assms by (intro guarded_UpdateResource) (simp add: setFinalizers_def version_of_def key_of_def)
  then show "ensureFinalizer l (guarded S cl) c = ensureFinalizer l cl c"
    and "removeFinalizer l (guarded S cl) c = removeFinalizer l cl c"
    unfolding ensureFinalizer_def removeFinalizer_def guarded_clients by simp_all
qed

lemma capp_run: "Reconcile l (guarded S cl) req = Reconcile l cl req"
proof -
  have config: "GetCappConfig (guarded S cl) = GetCappConfig cl"
    unfolding GetCappConfig_def guarded_clients guarded_kind_same by (rule refl)
  show ?thesis
    unfolding Reconcile_def config managers guarded_clients guarded_kind_same
  proof (rule handle_read [OF kinds(1)], goal_cases)
    case (1 c)
    show ?case
      unfolding handleResourceDeletion_def SyncApplication_def status finalizers [OF 1] by (rule refl)
  qed
qed

lemma revision_run: "ReconcileRevision l (guarded S cl) req = ReconcileRevision l cl req"
proof -
  have config: "GetCappConfig (guarded S cl) = GetCappConfig cl"
    unfolding GetCappConfig_def guarded_clients guarded_kind_same by (rule refl)
  have parts: "GetCappRevisions l (guarded S cl) = GetCappRevisions l cl"
    "CreateCappRevision l (guarded S cl) = CreateCappRevision l cl"
    "DeleteCappRevision (guarded S cl) = DeleteCappRevision cl"
    by (intro ext; unfold GetCappRevisions_def CreateCappRevision_def DeleteCappRevision_def
      guarded_clients guarded_kind_same; rule refl)+
  have sync: "syncCappRevision l (guarded S cl) = syncCappRevision l cl"
    by (intro ext; unfold syncCappRevision_def HandleCappCreation_def HandleCappUpdate_def config parts
      guarded_clients guarded_kind_same; rule refl)
  show ?thesis
    unfolding ReconcileRevision_def sync config guarded_clients guarded_kind_same by (rule refl)
qed

end

section \<open>A screened client\<close>

text \<open>
  Any client becomes one that reads among the given versions when its other answers are
  replaced by an error. If these are the versions that a run reads, the run does not notice.
\<close>

definition screened_kind :: "(version \<Rightarrow> bool) \<Rightarrow> ('sp, 'st) kind_client \<Rightarrow> ('sp, 'st) kind_client" where
  "screened_kind S kc = kc\<lparr>kget := (\<lambda>ns n. andThen (kget kc ns n) (\<lambda>r.
     if S (version_of r) then ok r else throw (new_error ''version is not served'')))\<rparr>"

definition screened :: "versions \<Rightarrow> client \<Rightarrow> client" where
  "screened S cl =
     cl\<lparr>c_capps := screened_kind (S CappKind) (c_capps cl),
        c_ksvcs := screened_kind (S ServiceKind) (c_ksvcs cl),
        c_nfspvcs := screened_kind (S NfsPvcKind) (c_nfspvcs cl),
        c_outputs := screened_kind (S OutputKind) (c_outputs cl),
        c_flows := screened_kind (S FlowKind) (c_flows cl),
        c_certificates := screened_kind (S CertificateKind) (c_certificates cl),
        c_domainmappings := screened_kind (S DomainMappingKind) (c_domainmappings cl),
        c_cnamerecords := screened_kind (S CNAMERecordKind) (c_cnamerecords cl),
        c_pingsources := screened_kind (S PingSourceKind) (c_pingsources cl),
        c_kafkasources := screened_kind (S KafkaSourceKind) (c_kafkasources cl)\<rparr>"

lemma screened_reads: "reads_among S (screened_kind S kc)"
  by (auto simp: reads_among_def screened_kind_def andThen_eq_Ok split: if_splits)

lemma screened_client_reads: "client_reads_among S (screened S cl)"
  by (simp add: client_reads_among_def screened_def screened_reads)

interpretation screened: reading_environment S l "screened S cl" for S :: versions and l cl
  by unfold_locales (rule screened_client_reads)

section \<open>The property\<close>

text \<open>
  C12: No blind writes. If every object that the API server returns has one of the versions \<open>S\<close>,
  so has every object that a run of either controller passes to an update, of the object or of
  its status: a client that refuses any other update, and all updates of revisions, secrets and
  configurations, gives the same run. In particular no update omits the version or takes it from
  another object, so none overwrites a change that the run has not read.
\<close>

theorem no_blind_writes:
  assumes "client_reads_among S cl"
  shows "Reconcile l (guarded S cl) req w = Reconcile l cl req w
    \<and> ReconcileRevision l (guarded S cl) req w = ReconcileRevision l cl req w"
proof -
  from assms have env: "reading_environment S cl" by unfold_locales
  show ?thesis
    unfolding reading_environment.capp_run [OF env] reading_environment.revision_run [OF env]
    by (intro conjI refl)
qed

text \<open>The Capp of the sample is served in one version; an update of another is refused.\<close>

definition onlySample :: versions where
  "onlySample k v \<longleftrightarrow> k \<noteq> CappKind \<or> v = version_of sampleCapp"

theorem no_blind_writes_witness:
  "Reconcile mem_lib (guarded onlySample (screened onlySample mem_client)) (key_of sampleCapp) sampleWorld
     = Reconcile mem_lib (screened onlySample mem_client) (key_of sampleCapp) sampleWorld
   \<and> kget (c_capps (screened onlySample mem_client)) ''team'' ''web'' sampleWorld = (Ok sampleCapp, sampleWorld)
   \<and> kupdate (c_capps (guarded onlySample (screened onlySample mem_client)))
       (sampleCapp\<lparr>Meta := (Meta sampleCapp)\<lparr>ResourceVersion := ''9''\<rparr>\<rparr>) sampleWorld
     = blind_write sampleWorld"
proof (intro conjI)
  show "Reconcile mem_lib (guarded onlySample (screened onlySample mem_client)) (key_of sampleCapp) sampleWorld
     = Reconcile mem_lib (screened onlySample mem_client) (key_of sampleCapp) sampleWorld"
    using no_blind_writes [OF screened_client_reads] by (rule conjunct1)
  show "kget (c_capps (screened onlySample mem_client)) ''team'' ''web'' sampleWorld = (Ok sampleCapp, sampleWorld)"
    by (simp add: screened_def screened_kind_def mem_get_def andThen_Ok onlySample_def)
  show "kupdate (c_capps (guarded onlySample (screened onlySample mem_client)))
       (sampleCapp\<lparr>Meta := (Meta sampleCapp)\<lparr>ResourceVersion := ''9''\<rparr>\<rparr>) sampleWorld
     = blind_write sampleWorld"
    by (simp add: guarded_kind_def onlySample_def version_of_def sample_defs)
qed

end
