(* ===== verification/Permissions.thy ===== *)
theory Permissions
  imports CappReconcile CappRevisionController CappWebhooks
begin

text \<open>
  The permissions of the operator: the RBAC markers above the two controllers, from which
  \<open>config/rbac/role.yaml\<close> is generated, an API server that enforces them, and that the program
  asks for nothing they do not grant.
\<close>

section \<open>The markers\<close>

text \<open>A rule: group, resource and verbs.\<close>

type_synonym rbac_rule = "string \<times> string \<times> string list"

definition capp_controller_rules :: "rbac_rule list" where
  "capp_controller_rules =
    [(''rcs.dana.io'', ''capps'',
       [''get'', ''list'', ''watch'', ''create'', ''update'', ''patch'', ''delete'']),
     (''rcs.dana.io'', ''capps/status'', [''get'', ''update'', ''patch'']),
     (''rcs.dana.io'', ''capps/finalizers'', [''update'']),
     (''rcs.dana.io'', ''cappconfigs'', [''get'', ''list'', ''watch'']),
     (''serving.knative.dev'', ''services'',
       [''get'', ''list'', ''watch'', ''update'', ''create'', ''delete'']),
     (''serving.knative.dev'', ''domainmappings'',
       [''get'', ''list'', ''watch'', ''update'', ''create'', ''delete'']),
     (''serving.knative.dev'', ''revisions'',
       [''get'', ''list'', ''watch'', ''update'', ''create'']),
     (''logging.banzaicloud.io'', ''syslogngflows'',
       [''get'', ''list'', ''watch'', ''update'', ''create'', ''delete'']),
     (''logging.banzaicloud.io'', ''syslogngoutputs'',
       [''get'', ''list'', ''watch'', ''update'', ''create'', ''delete'']),
     ('''', ''nodes'', [''get'', ''list'', ''watch'']),
     ('''', ''secrets'',
       [''get'', ''list'', ''watch'', ''update'', ''create'', ''patch'', ''delete'']),
     ('''', ''configmaps'', [''get'', ''list'', ''watch'']),
     ('''', ''events'', [''get'', ''list'', ''watch'', ''update'', ''create'', ''patch'']),
     (''events.k8s.io'', ''events'',
       [''get'', ''list'', ''watch'', ''update'', ''create'', ''patch'']),
     (''nfspvc.dana.io'', ''nfspvcs'',
       [''get'', ''list'', ''watch'', ''update'', ''create'', ''delete'']),
     (''record.dns-v2.m.crossplane.io'', ''cnamerecords'',
       [''get'', ''list'', ''watch'', ''update'', ''create'', ''delete'']),
     (''cert-manager.io'', ''certificates'',
       [''get'', ''list'', ''watch'', ''update'', ''create'', ''delete'']),
     (''sources.knative.dev'', ''pingsources'',
       [''get'', ''list'', ''watch'', ''update'', ''create'', ''delete'']),
     (''sources.knative.dev'', ''kafkasources'',
       [''get'', ''list'', ''watch'', ''update'', ''create'', ''delete''])]"

definition revision_controller_rules :: "rbac_rule list" where
  "revision_controller_rules =
    [(''rcs.dana.io'', ''capps'',
       [''get'', ''list'', ''watch'', ''create'', ''update'', ''patch'', ''delete'']),
     (''rcs.dana.io'', ''capps/status'', [''get'', ''update'', ''patch'']),
     (''rcs.dana.io'', ''capps/finalizers'', [''update'']),
     (''rcs.dana.io'', ''capprevisions'',
       [''get'', ''list'', ''watch'', ''create'', ''update'', ''patch'', ''delete''])]"

definition manager_role :: "rbac_rule list" where
  "manager_role = capp_controller_rules @ revision_controller_rules"

definition permits :: "rbac_rule list \<Rightarrow> string \<Rightarrow> string \<Rightarrow> string \<Rightarrow> bool" where
  "permits rules grp res verb \<longleftrightarrow>
     list_ex (\<lambda>(g, r, vs). g = grp \<and> r = res \<and> verb \<in> set vs) rules"

section \<open>A client whose calls are checked against a role\<close>

text \<open>
  A call that the role does not permit is refused with \<open>Forbidden\<close>. The manager's client reads
  from a cache, whose informer gets, lists and watches the kind.
\<close>

definition forbidden :: "string \<Rightarrow> string \<Rightarrow> 'a act" where
  "forbidden grp res = throw (api_error (OtherReason ''Forbidden'') (res @ ''.'' @ grp))"

definition checked :: "rbac_rule list \<Rightarrow> string \<Rightarrow> string \<Rightarrow> string list \<Rightarrow> 'a act \<Rightarrow> 'a act" where
  "checked rules grp res verbs m =
     (if list_all (permits rules grp res) verbs then m else forbidden grp res)"

definition reading :: "string list" where
  "reading = [''get'', ''list'', ''watch'']"

definition guard_kind ::
  "rbac_rule list \<Rightarrow> string \<Rightarrow> string \<Rightarrow> ('sp, 'st) kind_client \<Rightarrow> ('sp, 'st) kind_client" where
  "guard_kind rules grp res kc = \<lparr>
     kget = (\<lambda>ns n. checked rules grp res reading (kget kc ns n)),
     klist = (\<lambda>ns sel limit. checked rules grp res reading (klist kc ns sel limit)),
     kcreate = (\<lambda>r. checked rules grp res [''create''] (kcreate kc r)),
     kupdate = (\<lambda>r. checked rules grp res [''update''] (kupdate kc r)),
     kdelete = (\<lambda>r. checked rules grp res [''delete''] (kdelete kc r)) \<rparr>"

definition guarded :: "rbac_rule list \<Rightarrow> client \<Rightarrow> client" where
  "guarded rules cl = \<lparr>
     c_capps = guard_kind rules ''rcs.dana.io'' ''capps'' (c_capps cl),
     c_cappconfigs = guard_kind rules ''rcs.dana.io'' ''cappconfigs'' (c_cappconfigs cl),
     c_capprevisions = guard_kind rules ''rcs.dana.io'' ''capprevisions'' (c_capprevisions cl),
     c_ksvcs = guard_kind rules ''serving.knative.dev'' ''services'' (c_ksvcs cl),
     c_knrevisions = guard_kind rules ''serving.knative.dev'' ''revisions'' (c_knrevisions cl),
     c_nfspvcs = guard_kind rules ''nfspvc.dana.io'' ''nfspvcs'' (c_nfspvcs cl),
     c_outputs = guard_kind rules ''logging.banzaicloud.io'' ''syslogngoutputs'' (c_outputs cl),
     c_flows = guard_kind rules ''logging.banzaicloud.io'' ''syslogngflows'' (c_flows cl),
     c_certificates = guard_kind rules ''cert-manager.io'' ''certificates'' (c_certificates cl),
     c_domainmappings = guard_kind rules ''serving.knative.dev'' ''domainmappings'' (c_domainmappings cl),
     c_cnamerecords = guard_kind rules ''record.dns-v2.m.crossplane.io'' ''cnamerecords'' (c_cnamerecords cl),
     c_pingsources = guard_kind rules ''sources.knative.dev'' ''pingsources'' (c_pingsources cl),
     c_kafkasources = guard_kind rules ''sources.knative.dev'' ''kafkasources'' (c_kafkasources cl),
     c_secrets = guard_kind rules '''' ''secrets'' (c_secrets cl),
     c_allCapps = checked rules ''rcs.dana.io'' ''capps'' reading (c_allCapps cl),
     c_statusUpdate = (\<lambda>c. checked rules ''rcs.dana.io'' ''capps/status'' [''update''] (c_statusUpdate cl c)) \<rparr>"

abbreviation granted :: "client \<Rightarrow> client" where
  "granted \<equiv> guarded manager_role"

section \<open>What the role leaves as it is\<close>

named_theorems permitted

lemma guard_kind_all:
  assumes "list_all (permits rules grp res) (reading @ [''create'', ''update'', ''delete''])"
  shows "guard_kind rules grp res kc = kc"
  using assms by (simp add: guard_kind_def checked_def)

lemma permits_manager_role:
  "permits manager_role grp res verb \<longleftrightarrow>
     list_ex (\<lambda>(g, r, vs). g = grp \<and> r = res \<and> verb \<in> set vs)
       (capp_controller_rules @ revision_controller_rules)"
  by (simp add: permits_def manager_role_def)

lemma guarded_client [permitted]:
  shows "c_capps (granted cl) = c_capps cl"
  and "c_capprevisions (granted cl) = c_capprevisions cl"
  and "c_ksvcs (granted cl) = c_ksvcs cl"
  and "c_nfspvcs (granted cl) = c_nfspvcs cl"
  and "c_outputs (granted cl) = c_outputs cl"
  and "c_flows (granted cl) = c_flows cl"
  and "c_certificates (granted cl) = c_certificates cl"
  and "c_domainmappings (granted cl) = c_domainmappings cl"
  and "c_cnamerecords (granted cl) = c_cnamerecords cl"
  and "c_pingsources (granted cl) = c_pingsources cl"
  and "c_kafkasources (granted cl) = c_kafkasources cl"
  and "c_secrets (granted cl) = c_secrets cl"
  and "c_allCapps (granted cl) = c_allCapps cl"
  and "c_statusUpdate (granted cl) = c_statusUpdate cl"
  unfolding guarded_def client.simps
  by (simp_all add: guard_kind_all checked_def reading_def permits_manager_role
      capp_controller_rules_def revision_controller_rules_def)

text \<open>The configuration and Knative's revisions are only read.\<close>

lemma guarded_reads [permitted]:
  shows "kget (c_cappconfigs (granted cl)) = kget (c_cappconfigs cl)"
  and "klist (c_cappconfigs (granted cl)) = klist (c_cappconfigs cl)"
  and "kget (c_knrevisions (granted cl)) = kget (c_knrevisions cl)"
  and "klist (c_knrevisions (granted cl)) = klist (c_knrevisions cl)"
  unfolding guarded_def client.simps guard_kind_def
  by (simp_all add: checked_def reading_def permits_manager_role
      capp_controller_rules_def revision_controller_rules_def)

section \<open>Every operation asks for permitted calls only\<close>

lemma granted_GetCappConfig [permitted]: "GetCappConfig (granted cl) = GetCappConfig cl"
  by (intro ext) (unfold GetCappConfig_def permitted, rule refl)

lemma granted_ksvc_CleanUp [permitted]: "ksvc_CleanUp lib (granted cl) = ksvc_CleanUp lib cl"
  by (intro ext) (unfold ksvc_CleanUp_def permitted, rule refl)

lemma granted_ksvc_createOrUpdate [permitted]: "ksvc_createOrUpdate lib (granted cl) = ksvc_createOrUpdate lib cl"
  by (intro ext) (unfold ksvc_createOrUpdate_def permitted, rule refl)

lemma granted_ksvc_Manage [permitted]: "ksvc_Manage lib (granted cl) = ksvc_Manage lib cl"
  by (intro ext) (unfold ksvc_Manage_def permitted, rule refl)

lemma granted_dm_prepareResource [permitted]: "dm_prepareResource (granted cl) = dm_prepareResource cl"
  by (intro ext) (unfold dm_prepareResource_def permitted, rule refl)

lemma granted_getPreviousDomainMappings [permitted]: "getPreviousDomainMappings (granted cl) = getPreviousDomainMappings cl"
  by (intro ext) (unfold getPreviousDomainMappings_def permitted, rule refl)

lemma granted_dm_cleanUpItem [permitted]: "dm_cleanUpItem lib (granted cl) = dm_cleanUpItem lib cl"
  by (intro ext) (unfold dm_cleanUpItem_def permitted, rule refl)

lemma granted_dm_CleanUp [permitted]: "dm_CleanUp lib (granted cl) = dm_CleanUp lib cl"
  by (intro ext) (unfold dm_CleanUp_def permitted, rule refl)

lemma granted_dm_createOrUpdate [permitted]: "dm_createOrUpdate lib (granted cl) = dm_createOrUpdate lib cl"
  by (intro ext) (unfold dm_createOrUpdate_def permitted, rule refl)

lemma granted_dm_Manage [permitted]: "dm_Manage lib (granted cl) = dm_Manage lib cl"
  by (intro ext) (unfold dm_Manage_def permitted, rule refl)

lemma granted_getPreviousCertificates [permitted]: "getPreviousCertificates (granted cl) = getPreviousCertificates cl"
  by (intro ext) (unfold getPreviousCertificates_def permitted, rule refl)

lemma granted_cert_CleanUp [permitted]: "cert_CleanUp lib (granted cl) = cert_CleanUp lib cl"
  by (intro ext) (unfold cert_CleanUp_def permitted, rule refl)

lemma granted_cert_createOrUpdate [permitted]: "cert_createOrUpdate lib (granted cl) = cert_createOrUpdate lib cl"
  by (intro ext) (unfold cert_createOrUpdate_def permitted, rule refl)

lemma granted_cert_Manage [permitted]: "cert_Manage lib (granted cl) = cert_Manage lib cl"
  by (intro ext) (unfold cert_Manage_def permitted, rule refl)

lemma granted_getPreviousDNSRecords [permitted]: "getPreviousDNSRecords (granted cl) = getPreviousDNSRecords cl"
  by (intro ext) (unfold getPreviousDNSRecords_def permitted, rule refl)

lemma granted_dns_CleanUp [permitted]: "dns_CleanUp lib (granted cl) = dns_CleanUp lib cl"
  by (intro ext) (unfold dns_CleanUp_def permitted, rule refl)

lemma granted_dns_createOrUpdate [permitted]: "dns_createOrUpdate lib (granted cl) = dns_createOrUpdate lib cl"
  by (intro ext) (unfold dns_createOrUpdate_def permitted, rule refl)

lemma granted_dns_Manage [permitted]: "dns_Manage lib (granted cl) = dns_Manage lib cl"
  by (intro ext) (unfold dns_Manage_def permitted, rule refl)

lemma granted_getPreviousNFSPVCs [permitted]: "getPreviousNFSPVCs (granted cl) = getPreviousNFSPVCs cl"
  by (intro ext) (unfold getPreviousNFSPVCs_def permitted, rule refl)

lemma granted_nfs_CleanUp [permitted]: "nfs_CleanUp lib (granted cl) = nfs_CleanUp lib cl"
  by (intro ext) (unfold nfs_CleanUp_def permitted, rule refl)

lemma granted_nfs_createOrUpdate [permitted]: "nfs_createOrUpdate lib (granted cl) = nfs_createOrUpdate lib cl"
  by (intro ext) (unfold nfs_createOrUpdate_def permitted, rule refl)

lemma granted_nfs_Manage [permitted]: "nfs_Manage lib (granted cl) = nfs_Manage lib cl"
  by (intro ext) (unfold nfs_Manage_def permitted, rule refl)

lemma granted_output_CleanUp [permitted]: "output_CleanUp lib (granted cl) = output_CleanUp lib cl"
  by (intro ext) (unfold output_CleanUp_def permitted, rule refl)

lemma granted_output_createOrUpdate [permitted]: "output_createOrUpdate lib (granted cl) = output_createOrUpdate lib cl"
  by (intro ext) (unfold output_createOrUpdate_def permitted, rule refl)

lemma granted_output_Manage [permitted]: "output_Manage lib (granted cl) = output_Manage lib cl"
  by (intro ext) (unfold output_Manage_def permitted, rule refl)

lemma granted_flow_CleanUp [permitted]: "flow_CleanUp lib (granted cl) = flow_CleanUp lib cl"
  by (intro ext) (unfold flow_CleanUp_def permitted, rule refl)

lemma granted_flow_createOrUpdate [permitted]: "flow_createOrUpdate lib (granted cl) = flow_createOrUpdate lib cl"
  by (intro ext) (unfold flow_createOrUpdate_def permitted, rule refl)

lemma granted_flow_Manage [permitted]: "flow_Manage lib (granted cl) = flow_Manage lib cl"
  by (intro ext) (unfold flow_Manage_def permitted, rule refl)

lemma granted_getPingSources [permitted]: "getPingSources (granted cl) = getPingSources cl"
  by (intro ext) (unfold getPingSources_def permitted, rule refl)

lemma granted_ping_CleanUp [permitted]: "ping_CleanUp lib (granted cl) = ping_CleanUp lib cl"
  by (intro ext) (unfold ping_CleanUp_def permitted, rule refl)

lemma granted_ping_createOrUpdate [permitted]: "ping_createOrUpdate lib (granted cl) = ping_createOrUpdate lib cl"
  by (intro ext) (unfold ping_createOrUpdate_def permitted, rule refl)

lemma granted_ping_cleanUpOrphans [permitted]: "ping_cleanUpOrphans (granted cl) = ping_cleanUpOrphans cl"
  by (intro ext) (unfold ping_cleanUpOrphans_def permitted, rule refl)

lemma granted_ping_Manage [permitted]: "ping_Manage lib (granted cl) = ping_Manage lib cl"
  by (intro ext) (unfold ping_Manage_def permitted, rule refl)

lemma granted_getKafkaSources [permitted]: "getKafkaSources (granted cl) = getKafkaSources cl"
  by (intro ext) (unfold getKafkaSources_def permitted, rule refl)

lemma granted_kafka_CleanUp [permitted]: "kafka_CleanUp lib (granted cl) = kafka_CleanUp lib cl"
  by (intro ext) (unfold kafka_CleanUp_def permitted, rule refl)

lemma granted_kafka_createOrUpdate [permitted]: "kafka_createOrUpdate lib (granted cl) = kafka_createOrUpdate lib cl"
  by (intro ext) (unfold kafka_createOrUpdate_def permitted, rule refl)

lemma granted_kafka_cleanUpOrphans [permitted]: "kafka_cleanUpOrphans (granted cl) = kafka_cleanUpOrphans cl"
  by (intro ext) (unfold kafka_cleanUpOrphans_def permitted, rule refl)

lemma granted_kafka_Manage [permitted]: "kafka_Manage lib (granted cl) = kafka_Manage lib cl"
  by (intro ext) (unfold kafka_Manage_def permitted, rule refl)

lemma granted_buildRevisionsStatus [permitted]: "buildRevisionsStatus lib (granted cl) = buildRevisionsStatus lib cl"
  by (intro ext) (unfold buildRevisionsStatus_def permitted, rule refl)

lemma granted_buildKnativeStatus [permitted]: "buildKnativeStatus lib (granted cl) = buildKnativeStatus lib cl"
  by (intro ext) (unfold buildKnativeStatus_def permitted, rule refl)

lemma granted_buildLoggingStatus [permitted]: "buildLoggingStatus lib (granted cl) = buildLoggingStatus lib cl"
  by (intro ext) (unfold buildLoggingStatus_def permitted, rule refl)

lemma granted_buildDomainMappingStatus [permitted]: "buildDomainMappingStatus (granted cl) = buildDomainMappingStatus cl"
  by (intro ext) (unfold buildDomainMappingStatus_def permitted, rule refl)

lemma granted_buildCNAMERecordStatus [permitted]: "buildCNAMERecordStatus (granted cl) = buildCNAMERecordStatus cl"
  by (intro ext) (unfold buildCNAMERecordStatus_def permitted, rule refl)

lemma granted_buildDNSRecordStatus [permitted]: "buildDNSRecordStatus (granted cl) = buildDNSRecordStatus cl"
  by (intro ext) (unfold buildDNSRecordStatus_def permitted, rule refl)

lemma granted_buildCertificateStatus [permitted]: "buildCertificateStatus (granted cl) = buildCertificateStatus cl"
  by (intro ext) (unfold buildCertificateStatus_def permitted, rule refl)

lemma granted_buildRouteStatus [permitted]: "buildRouteStatus (granted cl) = buildRouteStatus cl"
  by (intro ext) (unfold buildRouteStatus_def permitted, rule refl)

lemma granted_buildVolumesStatusOf [permitted]: "buildVolumesStatusOf (granted cl) = buildVolumesStatusOf cl"
proof (intro ext)
  fix c vs w
  show "buildVolumesStatusOf (granted cl) c vs w = buildVolumesStatusOf cl c vs w"
  proof (induction vs arbitrary: w)
    case (Cons v vs)
    then have "buildVolumesStatusOf (granted cl) c vs = buildVolumesStatusOf cl c vs" by (rule ext)
    then show ?case unfolding buildVolumesStatusOf.simps permitted by (simp only:)
  qed simp
qed

lemma granted_buildVolumesStatus [permitted]: "buildVolumesStatus (granted cl) = buildVolumesStatus cl"
  by (intro ext) (unfold buildVolumesStatus_def permitted, rule refl)

lemma granted_buildEventingStatus [permitted]: "buildEventingStatus lib (granted cl) = buildEventingStatus lib cl"
  by (intro ext) (unfold buildEventingStatus_def permitted, rule refl)

lemma granted_observeStatus [permitted]: "observeStatus lib (granted cl) = observeStatus lib cl"
  by (intro ext) (unfold observeStatus_def permitted, rule refl)

lemma granted_SyncStatus [permitted]: "SyncStatus lib (granted cl) = SyncStatus lib cl"
  by (intro ext) (unfold SyncStatus_def permitted, rule refl)

lemma granted_removeFinalizer [permitted]: "removeFinalizer lib (granted cl) = removeFinalizer lib cl"
  by (intro ext) (unfold removeFinalizer_def permitted, rule refl)

lemma granted_handleResourceDeletion [permitted]: "handleResourceDeletion lib (granted cl) = handleResourceDeletion lib cl"
  by (intro ext) (unfold handleResourceDeletion_def permitted, rule refl)

lemma granted_ensureFinalizer [permitted]: "ensureFinalizer lib (granted cl) = ensureFinalizer lib cl"
  by (intro ext) (unfold ensureFinalizer_def permitted, rule refl)

lemma granted_resourceManagers [permitted]: "resourceManagers lib (granted cl) = resourceManagers lib cl"
  by (intro ext) (unfold resourceManagers_def permitted, rule refl)

lemma granted_SyncApplication [permitted]: "SyncApplication lib (granted cl) = SyncApplication lib cl"
  by (intro ext) (unfold SyncApplication_def permitted, rule refl)

lemma granted_Reconcile [permitted]: "Reconcile lib (granted cl) = Reconcile lib cl"
  by (intro ext) (unfold Reconcile_def permitted, rule refl)

lemma granted_findCappsForCappConfig [permitted]: "findCappsForCappConfig (granted cl) = findCappsForCappConfig cl"
  by (intro ext) (unfold findCappsForCappConfig_def permitted, rule refl)

lemma granted_SetupWithManager [permitted]: "SetupWithManager p0 (granted cl) = SetupWithManager p0 cl"
proof (intro ext)
  fix e w
  show "SetupWithManager p0 (granted cl) e w = SetupWithManager p0 cl e w"
    by (cases e) (simp_all add: permitted)
qed

lemma granted_GetCappRevisions [permitted]: "GetCappRevisions lib (granted cl) = GetCappRevisions lib cl"
  by (intro ext) (unfold GetCappRevisions_def permitted, rule refl)

lemma granted_CreateCappRevision [permitted]: "CreateCappRevision lib (granted cl) = CreateCappRevision lib cl"
  by (intro ext) (unfold CreateCappRevision_def permitted, rule refl)

lemma granted_DeleteCappRevision [permitted]: "DeleteCappRevision (granted cl) = DeleteCappRevision cl"
  by (intro ext) (unfold DeleteCappRevision_def permitted, rule refl)

lemma granted_HandleCappCreation [permitted]: "HandleCappCreation lib (granted cl) = HandleCappCreation lib cl"
  by (intro ext) (unfold HandleCappCreation_def permitted, rule refl)

lemma granted_HandleCappUpdate [permitted]: "HandleCappUpdate lib (granted cl) = HandleCappUpdate lib cl"
  by (intro ext) (unfold HandleCappUpdate_def permitted, rule refl)

lemma granted_syncCappRevision [permitted]: "syncCappRevision lib (granted cl) = syncCappRevision lib cl"
  by (intro ext) (unfold syncCappRevision_def permitted, rule refl)

lemma granted_ReconcileRevision [permitted]: "ReconcileRevision lib (granted cl) = ReconcileRevision lib cl"
  by (intro ext) (unfold ReconcileRevision_def permitted, rule refl)

lemma granted_mutator_Handle [permitted]: "mutator_Handle p0 p1 (granted cl) = mutator_Handle p0 p1 cl"
  by (intro ext) (unfold mutator_Handle_def permitted, rule refl)

lemma granted_validateSecretHasKeys [permitted]: "validateSecretHasKeys (granted cl) = validateSecretHasKeys cl"
  by (intro ext) (unfold validateSecretHasKeys_def permitted, rule refl)

lemma granted_validateSource [permitted]: "validateSource lib (granted cl) = validateSource lib cl"
  by (intro ext) (unfold validateSource_def permitted, rule refl)

lemma granted_validateSources [permitted]: "validateSources lib (granted cl) = validateSources lib cl"
proof (intro ext)
  fix c limit names i ss w
  show "validateSources lib (granted cl) c limit names i ss w = validateSources lib cl c limit names i ss w"
  proof (induction ss arbitrary: names i w)
    case (Cons s ss)
    then have "validateSources lib (granted cl) c limit names' i' ss = validateSources lib cl c limit names' i' ss"
      for names' i' by (rule ext)
    then show ?case unfolding validateSources.simps permitted by (simp only:)
  qed simp
qed

lemma granted_validateEventSources [permitted]: "validateEventSources lib (granted cl) = validateEventSources lib cl"
  by (intro ext) (unfold validateEventSources_def permitted, rule refl)

lemma granted_validator_handle [permitted]: "validator_handle lib (granted cl) = validator_handle lib cl"
  by (intro ext) (unfold validator_handle_def permitted, rule refl)

lemma granted_validator_Handle [permitted]: "validator_Handle lib p1 (granted cl) = validator_Handle lib p1 cl"
  by (intro ext) (unfold validator_Handle_def permitted, rule refl)

section \<open>The role suffices\<close>

text \<open>
  C7: the permissions that the markers declare are enough. Against an API server that refuses every
  call the role does not grant, both controllers, both webhooks and the watches do exactly what they
  do with unlimited permissions, for any client, object and request; and the events that they
  record may be created.
\<close>

theorem manager_role_suffices:
  "Reconcile lib (guarded manager_role cl) = Reconcile lib cl
   \<and> ReconcileRevision lib (guarded manager_role cl) = ReconcileRevision lib cl
   \<and> mutator_Handle decode marshal (guarded manager_role cl) = mutator_Handle decode marshal cl
   \<and> validator_Handle lib decode (guarded manager_role cl) = validator_Handle lib decode cl
   \<and> SetupWithManager wl (guarded manager_role cl) = SetupWithManager wl cl
   \<and> permits manager_role ''events.k8s.io'' ''events'' ''create''"
  by (simp add: permitted permits_manager_role capp_controller_rules_def)

end
