(* ===== verification/GoHeap.thy ===== *)
theory GoHeap
  imports GoPrelude "HOL-Library.AList"
begin

text \<open>
  Go's memory, as far as the generated deep copies need it: values with pointers, slices and maps
  into a heap that only grows, the statements that the generator emits, and what it means that a
  function copies a value of a type deeply.
\<close>

section \<open>Values and the heap\<close>

text \<open>
  A struct is the map of its fields; a slice is an array with an offset and a length. The heap
  is the list of its cells, an address is an index into it.
\<close>

datatype gval =
  Prim string
| Struct "string \<Rightarrow> gval option"
| NilRef
| PtrTo nat
| SliceOf nat nat nat
| MapRef nat

datatype cell = Var gval | Arr "gval list" | Table "(string \<times> gval) list"

type_synonym heap = "cell list"

type_synonym copier = "gval \<Rightarrow> (heap, gval) action"

definition cell_at :: "heap \<Rightarrow> nat \<Rightarrow> cell option" where
  "cell_at h a = (if a < length h then Some (h ! a) else None)"

definition crash :: "(heap, 'a) action" where
  "crash = lift (Panic ''invalid memory address or nil pointer dereference'')"

definition alloc :: "cell \<Rightarrow> (heap, nat) action" where
  "alloc c h = (Ok (length h), h @ [c])"

definition loadVar :: "nat \<Rightarrow> (heap, gval) action" where
  "loadVar a h = (case cell_at h a of Some (Var v) \<Rightarrow> (Ok v, h) | _ \<Rightarrow> crash h)"

definition storeVar :: "nat \<Rightarrow> gval \<Rightarrow> (heap, unit) action" where
  "storeVar a v h = (case cell_at h a of Some (Var _) \<Rightarrow> (Ok (), h[a := Var v]) | _ \<Rightarrow> crash h)"

definition loadElem :: "nat \<Rightarrow> nat \<Rightarrow> (heap, gval) action" where
  "loadElem a i h =
     (case cell_at h a of
        Some (Arr xs) \<Rightarrow> if i < length xs then (Ok (xs ! i), h) else crash h
      | _ \<Rightarrow> crash h)"

definition storeElem :: "nat \<Rightarrow> nat \<Rightarrow> gval \<Rightarrow> (heap, unit) action" where
  "storeElem a i v h =
     (case cell_at h a of
        Some (Arr xs) \<Rightarrow> if i < length xs then (Ok (), h[a := Arr (xs[i := v])]) else crash h
      | _ \<Rightarrow> crash h)"

definition loadTable :: "nat \<Rightarrow> (heap, (string \<times> gval) list) action" where
  "loadTable a h = (case cell_at h a of Some (Table es) \<Rightarrow> (Ok es, h) | _ \<Rightarrow> crash h)"

definition storeEntry :: "nat \<Rightarrow> string \<Rightarrow> gval \<Rightarrow> (heap, unit) action" where
  "storeEntry a key v h =
     (case cell_at h a of
        Some (Table es) \<Rightarrow> (Ok (), h[a := Table (AList.update key v es)])
      | _ \<Rightarrow> crash h)"

section \<open>The statements of the generator\<close>

text \<open>
  \<open>if in.X != nil { *out = new(T); (*in).DeepCopyInto(*out) }\<close>, and with \<open>k = ok\<close> the form
  \<open>**out = **in\<close>.
\<close>

fun copyPtr :: "copier \<Rightarrow> copier" where
  "copyPtr k NilRef = ok NilRef"
| "copyPtr k (PtrTo a) =
     andThen (alloc (Var NilRef)) (\<lambda>b.
     andThen (loadVar a) (\<lambda>x.
     andThen (k x) (\<lambda>y.
     andThen (storeVar b y) (\<lambda>_. ok (PtrTo b)))))"
| "copyPtr k _ = crash"

text \<open>
  \<open>if in.X != nil { *out = make([]T, len(*in)); for i := range *in { .. } }\<close>; with \<open>k = ok\<close>
  it is \<open>copy(*out, *in)\<close>.
\<close>

fun copyElems :: "copier \<Rightarrow> nat \<Rightarrow> nat \<Rightarrow> nat \<Rightarrow> nat \<Rightarrow> (heap, unit) action" where
  "copyElems k a i b 0 = ok ()"
| "copyElems k a i b (Suc n) =
     andThen (copyElems k a i b n) (\<lambda>_.
     andThen (loadElem a (i + n)) (\<lambda>x.
     andThen (k x) (\<lambda>y. storeElem b n y)))"

fun copySlice :: "copier \<Rightarrow> copier" where
  "copySlice k NilRef = ok NilRef"
| "copySlice k (SliceOf a i n) =
     andThen (alloc (Arr (replicate n NilRef))) (\<lambda>b.
     andThen (copyElems k a i b n) (\<lambda>_. ok (SliceOf b 0 n)))"
| "copySlice k _ = crash"

text \<open>
  \<open>if in.X != nil { *out = make(map[string]T, len(*in)); for key, val := range *in { .. } }\<close>, the
  entries in whatever order the table has them.
\<close>

fun copyEntries :: "copier \<Rightarrow> nat \<Rightarrow> (string \<times> gval) list \<Rightarrow> (heap, unit) action" where
  "copyEntries k b [] = ok ()"
| "copyEntries k b ((key, v) # es) =
     andThen (k v) (\<lambda>y. andThen (storeEntry b key y) (\<lambda>_. copyEntries k b es))"

fun copyMap :: "copier \<Rightarrow> copier" where
  "copyMap k NilRef = ok NilRef"
| "copyMap k (MapRef a) =
     andThen (alloc (Table [])) (\<lambda>b.
     andThen (loadTable a) (\<lambda>es.
     andThen (copyEntries k b es) (\<lambda>_. ok (MapRef b))))"
| "copyMap k _ = crash"

text \<open>
  \<open>*out = *in\<close>, and then for some of the fields \<open>in.F.DeepCopyInto(&out.F)\<close> or one of the forms
  above; \<open>out.F = in.F\<close> is the copier \<open>ok\<close>.
\<close>

fun fieldOf :: "string \<Rightarrow> gval \<Rightarrow> gval result" where
  "fieldOf f (Struct vs) = (case vs f of Some v \<Rightarrow> Ok v | None \<Rightarrow> Panic f)"
| "fieldOf f _ = Panic f"

fun setField :: "string \<Rightarrow> gval \<Rightarrow> gval \<Rightarrow> gval" where
  "setField f y (Struct vs) = Struct (vs(f \<mapsto> y))"
| "setField f y v = v"

fun copyFields :: "(string \<times> copier) list \<Rightarrow> gval \<Rightarrow> copier" where
  "copyFields [] i out = ok out"
| "copyFields ((f, k) # ks) i out =
     andThen (lift (fieldOf f i)) (\<lambda>x. andThen (k x) (\<lambda>y. copyFields ks i (setField f y out)))"

definition copyStruct :: "(string \<times> copier) list \<Rightarrow> copier" where
  "copyStruct ks v = copyFields ks v v"

text \<open>
  \<open>if in == nil { return nil }; out := new(T); in.DeepCopyInto(out); return out\<close>, and the wrapper
  that returns an interface, which is nil itself for a nil pointer.
\<close>

definition DeepCopy :: "copier \<Rightarrow> copier" where
  "DeepCopy k = copyPtr k"

definition DeepCopyObject :: "copier \<Rightarrow> gval \<Rightarrow> (heap, gval option) action" where
  "DeepCopyObject deepCopy p =
     andThen (deepCopy p) (\<lambda>c. ok (case c of NilRef \<Rightarrow> None | _ \<Rightarrow> Some c))"

section \<open>Types and what a value of a type holds\<close>

datatype gtype = TPrim | TStruct "(string \<times> gtype) list" | TPtr gtype | TSlice gtype | TMap gtype

datatype tree =
  Leaf string
| Node "(string \<times> tree) list"
| Null
| To tree
| Elems "tree list"
| Entries "(string \<times> tree) list"

text \<open>Reading a value out of the heap; \<open>None\<close> when it is not a value of the type.\<close>

primrec rd :: "gtype \<Rightarrow> heap \<Rightarrow> gval \<Rightarrow> tree option" where
  "rd TPrim = (\<lambda>h v. case v of Prim s \<Rightarrow> Some (Leaf s) | _ \<Rightarrow> None)"
| "rd (TStruct fs) = (\<lambda>h v. case v of
     Struct vs \<Rightarrow> map_option Node (those (map (\<lambda>(f, r). case vs f of
         Some u \<Rightarrow> map_option (Pair f) (r h u) | None \<Rightarrow> None) (map (map_prod id rd) fs)))
   | _ \<Rightarrow> None)"
| "rd (TPtr t) = (\<lambda>h v. case v of
     NilRef \<Rightarrow> Some Null
   | PtrTo a \<Rightarrow> (case cell_at h a of Some (Var u) \<Rightarrow> map_option To (rd t h u) | _ \<Rightarrow> None)
   | _ \<Rightarrow> None)"
| "rd (TSlice t) = (\<lambda>h v. case v of
     NilRef \<Rightarrow> Some Null
   | SliceOf a i n \<Rightarrow>
       (case cell_at h a of
          Some (Arr xs) \<Rightarrow>
            if i + n \<le> length xs then map_option Elems (those (map (rd t h) (take n (drop i xs))))
            else None
        | _ \<Rightarrow> None)
   | _ \<Rightarrow> None)"
| "rd (TMap t) = (\<lambda>h v. case v of
     NilRef \<Rightarrow> Some Null
   | MapRef a \<Rightarrow>
       (case cell_at h a of
          Some (Table es) \<Rightarrow>
            if distinct (map fst es)
            then map_option Entries (those (map (\<lambda>(k, u). map_option (Pair k) (rd t h u)) es))
            else None
        | _ \<Rightarrow> None)
   | _ \<Rightarrow> None)"

text \<open>Types whose values hold no references.\<close>

primrec flat :: "gtype \<Rightarrow> bool" where
  "flat TPrim \<longleftrightarrow> True"
| "flat (TStruct fs) \<longleftrightarrow> list_all snd (map (map_prod id flat) fs)"
| "flat (TPtr t) \<longleftrightarrow> False"
| "flat (TSlice t) \<longleftrightarrow> False"
| "flat (TMap t) \<longleftrightarrow> False"

text \<open>
  \<open>k\<close> copies deeply: from any value of the type it makes one that reads the same, by only adding
  to the heap, and that reads the same whatever becomes of the cells that were there before.
\<close>

definition deep_copies :: "gtype \<Rightarrow> copier \<Rightarrow> bool" where
  "deep_copies t k \<longleftrightarrow>
     (\<forall>h v x. rd t h v = Some x \<longrightarrow>
        (\<exists>v' new. k v h = (Ok v', h @ new)
           \<and> (\<forall>old. length old = length h \<longrightarrow> rd t (old @ new) v' = Some x)))"

section \<open>Reading\<close>

lemma those_Some: "those xs = Some ys \<longleftrightarrow> list_all2 (\<lambda>x y. x = Some y) xs ys"
proof (induction xs arbitrary: ys)
  case (Cons x xs)
  then show ?case by (cases x; cases ys) auto
qed auto

lemma cell_at_append: "cell_at h a = Some c \<Longrightarrow> cell_at (h @ new) a = Some c"
  by (auto simp: cell_at_def nth_append split: if_splits)

lemma cell_at_Some: "cell_at h a = Some c \<Longrightarrow> a < length h \<and> h ! a = c"
  by (auto simp: cell_at_def split: if_splits)

lemma cell_at_new: "length old = n \<Longrightarrow> cell_at (old @ c # new) n = Some c"
  by (auto simp: cell_at_def)

lemma rd_Struct:
  "rd (TStruct fs) h v = Some x \<longleftrightarrow> (\<exists>vs xs. v = Struct vs \<and> x = Node xs
     \<and> list_all2 (\<lambda>(f, t) (g, y). g = f \<and> (\<exists>u. vs f = Some u \<and> rd t h u = Some y)) fs xs)"
proof -
  have "those (map (\<lambda>(f, r). case vs f of Some u \<Rightarrow> map_option (Pair f) (r h u) | None \<Rightarrow> None)
      (map (map_prod id rd) fs)) = Some xs
    \<longleftrightarrow> list_all2 (\<lambda>(f, t) (g, y). g = f \<and> (\<exists>u. vs f = Some u \<and> rd t h u = Some y)) fs xs" for vs xs
    unfolding those_Some list.rel_map
    by (rule arg_cong [where f = "\<lambda>P. list_all2 P fs xs"]) (auto simp: fun_eq_iff split: option.splits)
  then show ?thesis by (auto split: gval.splits)
qed

lemma rd_Ptr:
  "rd (TPtr t) h v = Some x \<longleftrightarrow> v = NilRef \<and> x = Null
     \<or> (\<exists>a u y. v = PtrTo a \<and> cell_at h a = Some (Var u) \<and> rd t h u = Some y \<and> x = To y)"
  by (auto split: gval.splits option.splits cell.splits)

lemma rd_Slice:
  "rd (TSlice t) h v = Some x \<longleftrightarrow> v = NilRef \<and> x = Null
     \<or> (\<exists>a i n xs ys. v = SliceOf a i n \<and> cell_at h a = Some (Arr xs) \<and> i + n \<le> length xs
          \<and> x = Elems ys \<and> list_all2 (\<lambda>u y. rd t h u = Some y) (take n (drop i xs)) ys)"
  by (auto simp: those_Some list.rel_map split: gval.splits option.splits cell.splits if_splits)

lemma rd_Map:
  "rd (TMap t) h v = Some x \<longleftrightarrow> v = NilRef \<and> x = Null
     \<or> (\<exists>a es ys. v = MapRef a \<and> cell_at h a = Some (Table es) \<and> distinct (map fst es) \<and> x = Entries ys
          \<and> list_all2 (\<lambda>(k, u) (k', y). k' = k \<and> rd t h u = Some y) es ys)"
proof -
  have "those (map (\<lambda>(k, u). map_option (Pair k) (rd t h u)) es) = Some ys
      \<longleftrightarrow> list_all2 (\<lambda>(k, u) (k', y). k' = k \<and> rd t h u = Some y) es ys" for es ys
    unfolding those_Some list.rel_map
    by (rule arg_cong [where f = "\<lambda>P. list_all2 P es ys"]) (auto simp: fun_eq_iff)
  then show ?thesis by (auto split: gval.splits option.splits cell.splits if_splits)
qed

lemmas rd_iffs = rd_Struct rd_Ptr rd_Slice rd_Map

text \<open>Growing the heap changes nothing.\<close>

lemma rd_append: "rd t h v = Some x \<Longrightarrow> rd t (h @ new) v = Some x"
proof (induction t arbitrary: v x)
  case TPrim
  then show ?case by simp
next
  case (TStruct fs)
  have step: "rd t (h @ new) u = Some y" if "(f, t) \<in> set fs" "rd t h u = Some y" for f t u y
    using TStruct.IH [OF that(1), of t u y] that(2) by simp
  from TStruct.prems show ?case
    unfolding rd_Struct by (elim exE conjE) (auto elim!: list.rel_mono_strong intro: step)
next
  case (TPtr t)
  from TPtr.prems show ?case
    unfolding rd_Ptr by (elim disjE exE conjE) (auto intro: TPtr.IH cell_at_append)
next
  case (TSlice t)
  from TSlice.prems show ?case
    unfolding rd_Slice
    by (elim disjE exE conjE) (auto intro!: cell_at_append elim!: list_all2_mono intro: TSlice.IH)
next
  case (TMap t)
  from TMap.prems show ?case
    unfolding rd_Map
    by (elim disjE exE conjE) (auto intro!: cell_at_append elim!: list_all2_mono intro: TMap.IH)
qed

lemma flat_rd: "flat t \<Longrightarrow> rd t h v = Some x \<Longrightarrow> rd t h' v = Some x"
proof (induction t arbitrary: v x)
  case (TStruct fs)
  have step: "rd t h' u = Some y" if "(f, t) \<in> set fs" "rd t h u = Some y" for f t u y
    using TStruct.IH [OF that(1), of t u y] TStruct.prems(1) that by (auto simp: list_all_iff)
  from TStruct.prems(2) show ?case
    unfolding rd_Struct by (elim exE conjE) (auto elim!: list.rel_mono_strong intro: step)
qed simp_all

section \<open>The statements copy deeply\<close>

named_theorems deep

lemma deep_copiesD:
  assumes "deep_copies t k" and "rd t h v = Some x"
  obtains v' new where "k v h = (Ok v', h @ new)" "\<And>old. length old = length h \<Longrightarrow> rd t (old @ new) v' = Some x"
  using assms unfolding deep_copies_def by blast

lemma deep_flat [deep]: "flat t \<Longrightarrow> deep_copies t ok"
  unfolding deep_copies_def ok_def
proof (intro allI impI)
  fix h v x
  assume "flat t" "rd t h v = Some x"
  then show "\<exists>v' new. (Ok v, h) = (Ok v', h @ new) \<and> (\<forall>old. length old = length h \<longrightarrow> rd t (old @ new) v' = Some x)"
    using flat_rd [of t h v x] by (intro exI [of _ v] exI [of _ "[]"]) simp
qed

lemma deep_Ptr [deep]:
  assumes k: "deep_copies t k"
  shows "deep_copies (TPtr t) (copyPtr k)"
  unfolding deep_copies_def
proof (intro allI impI)
  fix h v x
  assume "rd (TPtr t) h v = Some x"
  then consider "v = NilRef" "x = Null"
    | a u y where "v = PtrTo a" "cell_at h a = Some (Var u)" "rd t h u = Some y" "x = To y"
    unfolding rd_Ptr by blast
  then show "\<exists>v' new. copyPtr k v h = (Ok v', h @ new)
      \<and> (\<forall>old. length old = length h \<longrightarrow> rd (TPtr t) (old @ new) v' = Some x)"
  proof cases
    case 1
    then show ?thesis by (intro exI [of _ NilRef] exI [of _ "[]"]) simp
  next
    case 2
    have "rd t (h @ [Var NilRef]) u = Some y" using 2(3) by (rule rd_append)
    with k obtain w new where w: "k u (h @ [Var NilRef]) = (Ok w, (h @ [Var NilRef]) @ new)"
      "\<And>old. length old = length (h @ [Var NilRef]) \<Longrightarrow> rd t (old @ new) w = Some y"
      by (rule deep_copiesD) blast
    have load: "loadVar a (h @ [Var NilRef]) = (Ok u, h @ [Var NilRef])"
      using cell_at_append [OF 2(2)] by (simp add: loadVar_def)
    have store: "storeVar (length h) w ((h @ [Var NilRef]) @ new) = (Ok (), h @ Var w # new)"
      by (simp add: storeVar_def cell_at_def nth_append list_update_append)
    have "copyPtr k v h = (Ok (PtrTo (length h)), h @ Var w # new)"
      unfolding 2(1) copyPtr.simps
      by (rule andThen_eqI, rule alloc_def, rule andThen_eqI, rule load, rule andThen_eqI, rule w(1),
          rule andThen_eqI, rule store, rule ok_run)
    moreover have "rd (TPtr t) (old @ Var w # new) (PtrTo (length h)) = Some x" if "length old = length h" for old
    proof -
      have "rd t (old @ Var w # new) w = Some y" using w(2) [of "old @ [Var w]"] that by simp
      with cell_at_new [OF that] 2(4) show ?thesis unfolding rd_Ptr by blast
    qed
    ultimately show ?thesis by blast
  qed
qed

text \<open>
  The loop over a slice: after \<open>n\<close> rounds the first \<open>n\<close> elements of the new array are copies.
\<close>

lemma copyElems_run:
  assumes k: "deep_copies t k" and a: "cell_at h a = Some (Arr xs)" and len: "i + m \<le> length xs"
    and ys: "list_all2 (\<lambda>u y. rd t h u = Some y) (take m (drop i xs)) ys"
  shows "n \<le> m \<Longrightarrow> \<exists>ws new. copyElems k a i (length h) n (h @ [Arr (replicate m NilRef)])
        = (Ok (), h @ Arr (ws @ replicate (m - n) NilRef) # new)
      \<and> length ws = n
      \<and> (\<forall>old. length old = Suc (length h) \<longrightarrow>
           list_all2 (\<lambda>u y. rd t (old @ new) u = Some y) ws (take n ys))"
proof (induction n)
  case 0
  show ?case by (intro exI [of _ "[]"]) simp
next
  case (Suc n)
  then obtain ws new where run: "copyElems k a i (length h) n (h @ [Arr (replicate m NilRef)])
        = (Ok (), h @ Arr (ws @ replicate (m - n) NilRef) # new)"
      and ws: "length ws = n"
        "\<And>old. length old = Suc (length h) \<Longrightarrow> list_all2 (\<lambda>u y. rd t (old @ new) u = Some y) ws (take n ys)"
    by auto
  let ?H = "h @ Arr (ws @ replicate (m - n) NilRef) # new"
  have n: "n < m" "length ys = m" using Suc.prems len list_all2_lengthD [OF ys] by simp_all
  have load: "loadElem a (i + n) ?H = (Ok (xs ! (i + n)), ?H)"
    using cell_at_append [OF a] len n(1) by (simp add: loadElem_def)
  have "rd t h (xs ! (i + n)) = Some (ys ! n)"
    using list_all2_nthD [OF ys, of n] n(1) len by simp
  then have "rd t ?H (xs ! (i + n)) = Some (ys ! n)" by (rule rd_append)
  with k obtain w new' where w: "k (xs ! (i + n)) ?H = (Ok w, ?H @ new')"
      "\<And>old. length old = length ?H \<Longrightarrow> rd t (old @ new') w = Some (ys ! n)"
    by (rule deep_copiesD) blast
  have "(ws @ replicate (m - n) NilRef)[n := w] = (ws @ [w]) @ replicate (m - Suc n) NilRef"
    using ws(1) n(1) by (simp add: list_update_append Suc_diff_Suc [symmetric])
  then have store: "storeElem (length h) n w (?H @ new')
      = (Ok (), h @ Arr ((ws @ [w]) @ replicate (m - Suc n) NilRef) # (new @ new'))"
    using ws(1) n(1) by (simp add: storeElem_def cell_at_new list_update_append)
  have "copyElems k a i (length h) (Suc n) (h @ [Arr (replicate m NilRef)])
      = (Ok (), h @ Arr ((ws @ [w]) @ replicate (m - Suc n) NilRef) # (new @ new'))"
    unfolding copyElems.simps
    by (rule andThen_eqI, rule run, rule andThen_eqI, rule load, rule andThen_eqI, rule w(1), rule store)
  moreover have "list_all2 (\<lambda>u y. rd t (old @ new @ new') u = Some y) (ws @ [w]) (take (Suc n) ys)"
    if old: "length old = Suc (length h)" for old
  proof -
    have "rd t ((old @ new) @ new') w = Some (ys ! n)" using w(2) [of "old @ new"] old by simp
    moreover have "list_all2 (\<lambda>u y. rd t ((old @ new) @ new') u = Some y) ws (take n ys)"
      using ws(2) [OF old] by (rule list_all2_mono) (rule rd_append)
    moreover have "take (Suc n) ys = take n ys @ [ys ! n]" using n by (simp add: take_Suc_conv_app_nth)
    ultimately show ?thesis by (simp add: list_all2_appendI)
  qed
  ultimately show ?case using ws(1)
    by (intro exI [of _ "ws @ [w]"] exI [of _ "new @ new'"]) simp
qed

lemma deep_Slice [deep]:
  assumes k: "deep_copies t k"
  shows "deep_copies (TSlice t) (copySlice k)"
  unfolding deep_copies_def
proof (intro allI impI)
  fix h v x
  assume "rd (TSlice t) h v = Some x"
  then consider "v = NilRef" "x = Null"
    | a i n xs ys where "v = SliceOf a i n" "cell_at h a = Some (Arr xs)" "i + n \<le> length xs" "x = Elems ys"
        "list_all2 (\<lambda>u y. rd t h u = Some y) (take n (drop i xs)) ys"
    unfolding rd_Slice by blast
  then show "\<exists>v' new. copySlice k v h = (Ok v', h @ new)
      \<and> (\<forall>old. length old = length h \<longrightarrow> rd (TSlice t) (old @ new) v' = Some x)"
  proof cases
    case 1
    then show ?thesis by (intro exI [of _ NilRef] exI [of _ "[]"]) simp
  next
    case 2
    from copyElems_run [OF k 2(2,3,5), of n] obtain ws new where
      run: "copyElems k a i (length h) n (h @ [Arr (replicate n NilRef)]) = (Ok (), h @ Arr ws # new)"
      and ws: "length ws = n" "\<And>old. length old = Suc (length h) \<Longrightarrow>
        list_all2 (\<lambda>u y. rd t (old @ new) u = Some y) ws ys"
      using list_all2_lengthD [OF 2(5)] 2(3) by auto
    have "copySlice k v h = (Ok (SliceOf (length h) 0 n), h @ Arr ws # new)"
      unfolding 2(1) copySlice.simps
      by (rule andThen_eqI, rule alloc_def, rule andThen_eqI, rule run, rule ok_run)
    moreover have "rd (TSlice t) (old @ Arr ws # new) (SliceOf (length h) 0 n) = Some x"
      if "length old = length h" for old
    proof -
      have "list_all2 (\<lambda>u y. rd t (old @ Arr ws # new) u = Some y) (take n (drop 0 ws)) ys"
        using ws(2) [of "old @ [Arr ws]"] that ws(1) by simp
      with cell_at_new [OF that] 2(4) ws(1) show ?thesis unfolding rd_Slice by auto
    qed
    ultimately show ?thesis by blast
  qed
qed

lemma update_new: "key \<notin> fst ` set es \<Longrightarrow> AList.update key v es = es @ [(key, v)]"
  by (induction es) auto

abbreviation entries_read :: "gtype \<Rightarrow> heap \<Rightarrow> (string \<times> gval) list \<Rightarrow> (string \<times> tree) list \<Rightarrow> bool" where
  "entries_read t h \<equiv> list_all2 (\<lambda>(k, u) (k', y). k' = k \<and> rd t h u = Some y)"

lemma entries_read_append: "entries_read t h es ys \<Longrightarrow> entries_read t (h @ new) es ys"
  by (erule list_all2_mono) (auto intro: rd_append)

lemma copyEntries_run:
  assumes k: "deep_copies t k"
  shows "\<lbrakk>entries_read t h es ys; distinct (map fst (ds @ es));
      \<And>old. length old = Suc (length h) \<Longrightarrow> entries_read t (old @ new) ds zs\<rbrakk> \<Longrightarrow>
    \<exists>ds' new'. copyEntries k (length h) es (h @ Table ds # new) = (Ok (), h @ Table ds' # new')
      \<and> map fst ds' = map fst (ds @ es)
      \<and> (\<forall>old. length old = Suc (length h) \<longrightarrow> entries_read t (old @ new') ds' (zs @ ys))"
proof (induction es arbitrary: ds new zs ys)
  case Nil
  then show ?case by auto
next
  case (Cons e es)
  obtain key u where e: "e = (key, u)" by (cases e)
  with Cons.prems(1) obtain y ys' where ys: "ys = (key, y) # ys'" "rd t h u = Some y" "entries_read t h es ys'"
    by (auto simp: list_all2_Cons1)
  let ?H = "h @ Table ds # new"
  have "rd t ?H u = Some y" using ys(2) by (rule rd_append)
  with k obtain w more where w: "k u ?H = (Ok w, ?H @ more)"
      "\<And>old. length old = length ?H \<Longrightarrow> rd t (old @ more) w = Some y"
    by (rule deep_copiesD) blast
  have "AList.update key w ds = ds @ [(key, w)]" using Cons.prems(2) e by (auto intro: update_new)
  then have store: "storeEntry (length h) key w (?H @ more) = (Ok (), h @ Table (ds @ [(key, w)]) # (new @ more))"
    by (simp add: storeEntry_def cell_at_new list_update_append)
  have read: "entries_read t (old @ new @ more) (ds @ [(key, w)]) (zs @ [(key, y)])"
    if old: "length old = Suc (length h)" for old
  proof -
    have "rd t ((old @ new) @ more) w = Some y" using w(2) [of "old @ new"] old by simp
    with entries_read_append [OF Cons.prems(3) [OF old], of more] show ?thesis
      by (simp add: list_all2_appendI)
  qed
  have "distinct (map fst ((ds @ [(key, w)]) @ es))" using Cons.prems(2) e by simp
  from Cons.IH [OF ys(3) this read] obtain ds' new' where
    rest: "copyEntries k (length h) es (h @ Table (ds @ [(key, w)]) # (new @ more)) = (Ok (), h @ Table ds' # new')"
      "map fst ds' = map fst ((ds @ [(key, w)]) @ es)"
      "\<forall>old. length old = Suc (length h) \<longrightarrow> entries_read t (old @ new') ds' ((zs @ [(key, y)]) @ ys')"
    by blast
  have "copyEntries k (length h) (e # es) ?H = (Ok (), h @ Table ds' # new')"
    unfolding e copyEntries.simps
    by (rule andThen_eqI, rule w(1), rule andThen_eqI, rule store, rule rest(1))
  with rest(2,3) show ?case by (intro exI [of _ ds'] exI [of _ new']) (simp add: e ys(1))
qed

lemma deep_Map [deep]:
  assumes k: "deep_copies t k"
  shows "deep_copies (TMap t) (copyMap k)"
  unfolding deep_copies_def
proof (intro allI impI)
  fix h v x
  assume "rd (TMap t) h v = Some x"
  then consider "v = NilRef" "x = Null"
    | a es ys where "v = MapRef a" "cell_at h a = Some (Table es)" "distinct (map fst es)" "x = Entries ys"
        "entries_read t h es ys"
    unfolding rd_Map by blast
  then show "\<exists>v' new. copyMap k v h = (Ok v', h @ new)
      \<and> (\<forall>old. length old = length h \<longrightarrow> rd (TMap t) (old @ new) v' = Some x)"
  proof cases
    case 1
    then show ?thesis by (intro exI [of _ NilRef] exI [of _ "[]"]) simp
  next
    case 2
    have "\<exists>ds new. copyEntries k (length h) es (h @ [Table []]) = (Ok (), h @ Table ds # new)
      \<and> map fst ds = map fst ([] @ es)
      \<and> (\<forall>old. length old = Suc (length h) \<longrightarrow> entries_read t (old @ new) ds ([] @ ys))"
      by (rule copyEntries_run [OF k 2(5)]) (use 2(3) in simp_all)
    then obtain ds new where run: "copyEntries k (length h) es (h @ [Table []]) = (Ok (), h @ Table ds # new)"
      and ds: "map fst ds = map fst es"
        "\<And>old. length old = Suc (length h) \<Longrightarrow> entries_read t (old @ new) ds ys" by auto
    have load: "loadTable a (h @ [Table []]) = (Ok es, h @ [Table []])"
      using cell_at_append [OF 2(2)] by (simp add: loadTable_def)
    have "copyMap k v h = (Ok (MapRef (length h)), h @ Table ds # new)"
      unfolding 2(1) copyMap.simps
      by (rule andThen_eqI, rule alloc_def, rule andThen_eqI, rule load, rule andThen_eqI, rule run, rule ok_run)
    moreover have "rd (TMap t) (old @ Table ds # new) (MapRef (length h)) = Some x"
      if "length old = length h" for old
    proof -
      have "entries_read t (old @ Table ds # new) ds ys" using ds(2) [of "old @ [Table ds]"] that by simp
      with cell_at_new [OF that] 2(3,4) ds(1) show ?thesis unfolding rd_Map by auto
    qed
    ultimately show ?thesis by blast
  qed
qed

text \<open>
  The statements for the fields of a struct: those that are named are copied, the others keep
  what the assignment \<open>*out = *in\<close> has put there.
\<close>

definition field_read :: "gtype \<Rightarrow> heap \<Rightarrow> (string \<Rightarrow> gval option) \<Rightarrow> string \<Rightarrow> tree \<Rightarrow> bool" where
  "field_read t h vs f y \<longleftrightarrow> (\<exists>u. vs f = Some u \<and> rd t h u = Some y)"

lemma field_read_append: "field_read t h vs f y \<Longrightarrow> field_read t (h @ new) vs f y"
  by (auto simp: field_read_def intro: rd_append)

lemma copyFields_run:
  assumes "\<And>f k. (f, k) \<in> set ks \<Longrightarrow> deep_copies (T f) k \<and> field_read (T f) h vs f (Y f)"
  shows "\<exists>us' new'. copyFields ks (Struct vs) (Struct us) (h @ new) = (Ok (Struct us'), h @ new @ new')
    \<and> (\<forall>f. f \<notin> fst ` set ks \<longrightarrow> us' f = us f)
    \<and> (\<forall>f \<in> fst ` set ks. \<forall>old. length old = length h \<longrightarrow> field_read (T f) (old @ new @ new') us' f (Y f))"
  using assms
proof (induction ks arbitrary: us new)
  case Nil
  then show ?case by (intro exI [of _ us] exI [of _ "[]"]) simp
next
  case (Cons fk ks)
  obtain f k where fk: "fk = (f, k)" by (cases fk)
  with Cons.prems [of f k] obtain u where k: "deep_copies (T f) k" and u: "vs f = Some u" "rd (T f) h u = Some (Y f)"
    by (auto simp: field_read_def)
  have "rd (T f) (h @ new) u = Some (Y f)" using u(2) by (rule rd_append)
  with k obtain w new1 where w: "k u (h @ new) = (Ok w, (h @ new) @ new1)"
      "\<And>old. length old = length (h @ new) \<Longrightarrow> rd (T f) (old @ new1) w = Some (Y f)"
    by (rule deep_copiesD) blast
  have "deep_copies (T f) k \<and> field_read (T f) h vs f (Y f)" if "(f, k) \<in> set ks" for f k
    by (rule Cons.prems) (simp add: that)
  from Cons.IH [OF this, of "us(f \<mapsto> w)" "new @ new1", unfolded append_assoc] obtain us' new' where
    rest: "copyFields ks (Struct vs) (Struct (us(f \<mapsto> w))) (h @ new @ new1) = (Ok (Struct us'), h @ new @ new1 @ new')"
      "\<And>f'. f' \<notin> fst ` set ks \<Longrightarrow> us' f' = (us(f \<mapsto> w)) f'"
      "\<And>f' old. f' \<in> fst ` set ks \<Longrightarrow> length old = length h \<Longrightarrow>
         field_read (T f') (old @ new @ new1 @ new') us' f' (Y f')"
    by blast
  have "copyFields (fk # ks) (Struct vs) (Struct us) (h @ new) = (Ok (Struct us'), h @ new @ new1 @ new')"
    unfolding fk copyFields.simps
    by (rule andThen_eqI, simp add: u(1), rule andThen_eqI, rule w(1), simp add: rest(1))
  moreover have "field_read (T f) (old @ new @ new1 @ new') us' f (Y f)" if old: "length old = length h" for old
  proof (cases "f \<in> fst ` set ks")
    case True
    then show ?thesis using old by (rule rest(3))
  next
    case False
    have "rd (T f) ((old @ new) @ new1) w = Some (Y f)" using w(2) [of "old @ new"] old by simp
    from rd_append [OF this, of new'] rest(2) [OF False] show ?thesis by (simp add: field_read_def)
  qed
  ultimately show ?case
    using rest(2,3) by (intro exI [of _ us'] exI [of _ "new1 @ new'"]) (auto simp: fk)
qed

text \<open>A struct is copied deeply when every field without a statement holds no references.\<close>

definition fields_deep :: "(string \<times> gtype) list \<Rightarrow> (string \<times> copier) list \<Rightarrow> bool" where
  "fields_deep fs ks \<longleftrightarrow> distinct (map fst fs)
     \<and> list_all (\<lambda>(f, k). case map_of fs f of Some t \<Rightarrow> deep_copies t k | None \<Rightarrow> False) ks
     \<and> list_all (\<lambda>(f, t). f \<in> fst ` set ks \<or> flat t) fs"

lemma struct_fields:
  assumes "distinct (map fst fs)"
  shows "rd (TStruct fs) h v = Some x \<longleftrightarrow> (\<exists>vs xs. v = Struct vs \<and> x = Node xs \<and> map fst xs = map fst fs
     \<and> (\<forall>f t. (f, t) \<in> set fs \<longrightarrow> field_read t h vs f (the (map_of xs f))))"
proof -
  have "list_all2 (\<lambda>(f, t) (g, y). g = f \<and> field_read t h vs f y) fs xs
    \<longleftrightarrow> map fst xs = map fst fs \<and> (\<forall>f t. (f, t) \<in> set fs \<longrightarrow> field_read t h vs f (the (map_of xs f)))" for vs xs
    using assms
  proof (induction fs arbitrary: xs)
    case (Cons ft fs)
    obtain f t where ft: "ft = (f, t)" by (cases ft)
    show ?case
    proof (cases xs)
      case (Cons gy xs')
      obtain g y where gy: "gy = (g, y)" by (cases gy)
      have "f' \<noteq> f" if "(f', t) \<in> set fs" for f' t
        using Cons.prems ft that by (force simp: image_iff)
      with Cons.IH [of xs'] Cons.prems show ?thesis by (auto simp: ft gy Cons)
    qed simp
  qed simp
  then show ?thesis unfolding rd_Struct field_read_def [symmetric] by (auto simp: Ball_def)
qed

lemma deep_Struct:
  assumes "fields_deep fs ks"
  shows "deep_copies (TStruct fs) (copyStruct ks)"
  unfolding deep_copies_def
proof (intro allI impI)
  fix h v x
  assume rd: "rd (TStruct fs) h v = Some x"
  have fs: "distinct (map fst fs)" using assms by (simp add: fields_deep_def)
  from rd obtain vs xs where v: "v = Struct vs" "x = Node xs" "map fst xs = map fst fs"
      "\<And>f t. (f, t) \<in> set fs \<Longrightarrow> field_read t h vs f (the (map_of xs f))"
    unfolding struct_fields [OF fs] by blast
  let ?T = "\<lambda>f. the (map_of fs f)" and ?Y = "\<lambda>f. the (map_of xs f)"
  have ks: "deep_copies (?T f) k \<and> (f, ?T f) \<in> set fs" if "(f, k) \<in> set ks" for f k
    using assms that by (auto simp: fields_deep_def list_all_iff split: option.splits dest: map_of_SomeD)
  then have "deep_copies (?T f) k \<and> field_read (?T f) h vs f (?Y f)" if "(f, k) \<in> set ks" for f k
    using v(4) that by blast
  from copyFields_run [of ks ?T h vs ?Y vs "[]", OF this, unfolded append_Nil append_Nil2] obtain us new where
    run: "copyFields ks (Struct vs) (Struct vs) h = (Ok (Struct us), h @ new)"
    and us: "\<And>f. f \<notin> fst ` set ks \<Longrightarrow> us f = vs f"
      "\<And>f old. f \<in> fst ` set ks \<Longrightarrow> length old = length h \<Longrightarrow> field_read (?T f) (old @ new) us f (?Y f)"
    by blast
  have "field_read t (old @ new) us f (?Y f)" if "(f, t) \<in> set fs" "length old = length h" for f t old
  proof (cases "f \<in> fst ` set ks")
    case True
    moreover have "?T f = t" using that(1) fs by simp
    ultimately show ?thesis using us(2) [OF True that(2)] by simp
  next
    case False
    with assms that(1) have "flat t" by (auto simp: fields_deep_def list_all_iff)
    with v(4) [OF that(1)] us(1) [OF False] flat_rd show ?thesis unfolding field_read_def by metis
  qed
  then have "rd (TStruct fs) (old @ new) (Struct us) = Some x" if "length old = length h" for old
    unfolding struct_fields [OF fs] using v(2,3) that by blast
  with run v(1) show "\<exists>v' new. copyStruct ks v h = (Ok v', h @ new)
      \<and> (\<forall>old. length old = length h \<longrightarrow> rd (TStruct fs) (old @ new) v' = Some x)"
    unfolding copyStruct_def by blast
qed

text \<open>
  A pointer that is copied by \<open>DeepCopyObject\<close> is a new one.
\<close>

lemma copyPtr_new:
  assumes "copyPtr k (PtrTo a) h = (Ok v, h')"
  shows "v = PtrTo (length h)"
  using assms by (auto simp: andThen_def handle_def alloc_def ok_def throw_def split: prod.splits result.splits)

lemma DeepCopyObject_run:
  assumes k: "deep_copies t k" and rd: "rd (TPtr t) h (PtrTo a) = Some x"
  shows "\<exists>b new. DeepCopyObject (DeepCopy k) (PtrTo a) h = (Ok (Some (PtrTo b)), h @ new) \<and> length h \<le> b
    \<and> (\<forall>old. length old = length h \<longrightarrow> rd (TPtr t) (old @ new) (PtrTo b) = Some x)"
proof -
  from deep_Ptr [OF k] rd obtain v new where run: "copyPtr k (PtrTo a) h = (Ok v, h @ new)"
      "\<And>old. length old = length h \<Longrightarrow> rd (TPtr t) (old @ new) v = Some x"
    by (rule deep_copiesD) blast
  have v: "v = PtrTo (length h)" using run(1) by (rule copyPtr_new)
  have "DeepCopyObject (DeepCopy k) (PtrTo a) h = (Ok (Some v), h @ new)"
    unfolding DeepCopyObject_def DeepCopy_def
    by (rule andThen_eqI, rule run(1)) (simp add: v)
  with run(2) show ?thesis unfolding v by blast
qed

end
