(* ===== verification/DeepCopies.thy ===== *)
theory DeepCopies
  imports GoHeap
begin

text \<open>
  The deep copies of the API types, \<open>src/api/v1alpha1/zz_generated.deepcopy.go\<close>, one group of
  definitions per type: its fields, \<open>DeepCopyInto\<close>, \<open>DeepCopy\<close> and, for an object or a list of
  objects, \<open>DeepCopyObject\<close>. A type of another module and its deep copy are looked up by name in
  \<open>X\<close> and \<open>D\<close>.
\<close>

type_synonym library = "string \<Rightarrow> gtype"
type_synonym copiers = "string \<Rightarrow> copier"

section \<open>The types and their copies\<close>

definition AutoscaleConfig_type :: "library \<Rightarrow> gtype" where
  "AutoscaleConfig_type X = TStruct
    [(''RPS'', TPrim), (''CPU'', TPrim), (''Memory'', TPrim), (''Concurrency'', TPrim),
     (''ActivationScale'', TPrim), (''MinReplicasLimit'', TPrim),
     (''MaxReplicasLimit'', TPrim), (''MaxScaleDelay'', TPrim)]"

definition AutoscaleConfig_DeepCopyInto :: "copiers \<Rightarrow> copier" where
  "AutoscaleConfig_DeepCopyInto D = copyStruct []"

definition AutoscaleConfig_DeepCopy :: "copiers \<Rightarrow> copier" where
  "AutoscaleConfig_DeepCopy D = DeepCopy (AutoscaleConfig_DeepCopyInto D)"

definition ScaleSpec_type :: "library \<Rightarrow> gtype" where
  "ScaleSpec_type X = TStruct
    [(''Metric'', TPrim), (''MinReplicas'', TPtr TPrim), (''MaxReplicas'', TPtr TPrim),
     (''ScaleDelaySeconds'', TPtr TPrim)]"

definition ScaleSpec_DeepCopyInto :: "copiers \<Rightarrow> copier" where
  "ScaleSpec_DeepCopyInto D = copyStruct
    [(''MinReplicas'', copyPtr ok), (''MaxReplicas'', copyPtr ok),
     (''ScaleDelaySeconds'', copyPtr ok)]"

definition ScaleSpec_DeepCopy :: "copiers \<Rightarrow> copier" where
  "ScaleSpec_DeepCopy D = DeepCopy (ScaleSpec_DeepCopyInto D)"

definition RouteSpec_type :: "library \<Rightarrow> gtype" where
  "RouteSpec_type X = TStruct
    [(''Hostname'', TPrim), (''TlsEnabled'', TPrim),
     (''TrafficTarget'', X ''knativev1.TrafficTarget''),
     (''RouteTimeoutSeconds'', TPtr TPrim)]"

definition RouteSpec_DeepCopyInto :: "copiers \<Rightarrow> copier" where
  "RouteSpec_DeepCopyInto D = copyStruct
    [(''TrafficTarget'', D ''knativev1.TrafficTarget''),
     (''RouteTimeoutSeconds'', copyPtr ok)]"

definition RouteSpec_DeepCopy :: "copiers \<Rightarrow> copier" where
  "RouteSpec_DeepCopy D = DeepCopy (RouteSpec_DeepCopyInto D)"

definition LogSpec_type :: "library \<Rightarrow> gtype" where
  "LogSpec_type X = TStruct
    [(''Type'', TPrim), (''Host'', TPrim), (''Index'', TPrim), (''User'', TPrim),
     (''PasswordSecret'', TPrim)]"

definition LogSpec_DeepCopyInto :: "copiers \<Rightarrow> copier" where
  "LogSpec_DeepCopyInto D = copyStruct []"

definition LogSpec_DeepCopy :: "copiers \<Rightarrow> copier" where
  "LogSpec_DeepCopy D = DeepCopy (LogSpec_DeepCopyInto D)"

definition NFSVolume_type :: "library \<Rightarrow> gtype" where
  "NFSVolume_type X = TStruct
    [(''Server'', TPrim), (''Path'', TPrim), (''Name'', TPrim),
     (''Capacity'', TMap (X ''resource.Quantity''))]"

definition NFSVolume_DeepCopyInto :: "copiers \<Rightarrow> copier" where
  "NFSVolume_DeepCopyInto D = copyStruct [(''Capacity'', copyMap (D ''resource.Quantity''))]"

definition NFSVolume_DeepCopy :: "copiers \<Rightarrow> copier" where
  "NFSVolume_DeepCopy D = DeepCopy (NFSVolume_DeepCopyInto D)"

definition VolumesSpec_type :: "library \<Rightarrow> gtype" where
  "VolumesSpec_type X = TStruct [(''NFSVolumes'', TSlice (NFSVolume_type X))]"

definition VolumesSpec_DeepCopyInto :: "copiers \<Rightarrow> copier" where
  "VolumesSpec_DeepCopyInto D = copyStruct [(''NFSVolumes'', copySlice (NFSVolume_DeepCopyInto D))]"

definition VolumesSpec_DeepCopy :: "copiers \<Rightarrow> copier" where
  "VolumesSpec_DeepCopy D = DeepCopy (VolumesSpec_DeepCopyInto D)"

definition PingSourceConfiguration_type :: "library \<Rightarrow> gtype" where
  "PingSourceConfiguration_type X = TStruct
    [(''Schedule'', TPrim), (''Data'', TPrim)]"

definition PingSourceConfiguration_DeepCopyInto :: "copiers \<Rightarrow> copier" where
  "PingSourceConfiguration_DeepCopyInto D = copyStruct []"

definition PingSourceConfiguration_DeepCopy :: "copiers \<Rightarrow> copier" where
  "PingSourceConfiguration_DeepCopy D = DeepCopy (PingSourceConfiguration_DeepCopyInto D)"

definition KafkaSourceConfiguration_type :: "library \<Rightarrow> gtype" where
  "KafkaSourceConfiguration_type X = TStruct
    [(''BootstrapServers'', TSlice TPrim), (''Topics'', TSlice TPrim),
     (''ConsumerGroup'', TPrim), (''Consumers'', TPtr TPrim),
     (''SecretRef'', X ''corev1.LocalObjectReference'')]"

definition KafkaSourceConfiguration_DeepCopyInto :: "copiers \<Rightarrow> copier" where
  "KafkaSourceConfiguration_DeepCopyInto D = copyStruct
    [(''BootstrapServers'', copySlice ok), (''Topics'', copySlice ok),
     (''Consumers'', copyPtr ok), (''SecretRef'', ok)]"

definition KafkaSourceConfiguration_DeepCopy :: "copiers \<Rightarrow> copier" where
  "KafkaSourceConfiguration_DeepCopy D = DeepCopy (KafkaSourceConfiguration_DeepCopyInto D)"

definition SourceConfiguration_type :: "library \<Rightarrow> gtype" where
  "SourceConfiguration_type X = TStruct
    [(''Name'', TPrim), (''URI'', TPtr (X ''kapis.URL'')),
     (''PingSourceConfiguration'', TPtr (PingSourceConfiguration_type X)),
     (''KafkaSourceConfiguration'', TPtr (KafkaSourceConfiguration_type X))]"

definition SourceConfiguration_DeepCopyInto :: "copiers \<Rightarrow> copier" where
  "SourceConfiguration_DeepCopyInto D = copyStruct
    [(''URI'', copyPtr (D ''kapis.URL'')), (''PingSourceConfiguration'', copyPtr ok),
     (''KafkaSourceConfiguration'', copyPtr (KafkaSourceConfiguration_DeepCopyInto D))]"

definition SourceConfiguration_DeepCopy :: "copiers \<Rightarrow> copier" where
  "SourceConfiguration_DeepCopy D = DeepCopy (SourceConfiguration_DeepCopyInto D)"

definition EventSourcesSpec_type :: "library \<Rightarrow> gtype" where
  "EventSourcesSpec_type X = TStruct [(''Sources'', TSlice (SourceConfiguration_type X))]"

definition EventSourcesSpec_DeepCopyInto :: "copiers \<Rightarrow> copier" where
  "EventSourcesSpec_DeepCopyInto D = copyStruct [(''Sources'', copySlice (SourceConfiguration_DeepCopyInto D))]"

definition EventSourcesSpec_DeepCopy :: "copiers \<Rightarrow> copier" where
  "EventSourcesSpec_DeepCopy D = DeepCopy (EventSourcesSpec_DeepCopyInto D)"

definition CappSpec_type :: "library \<Rightarrow> gtype" where
  "CappSpec_type X = TStruct
    [(''State'', TPrim), (''ScaleSpec'', ScaleSpec_type X),
     (''ConfigurationSpec'', X ''knativev1.ConfigurationSpec''),
     (''RouteSpec'', RouteSpec_type X), (''LogSpec'', LogSpec_type X),
     (''VolumesSpec'', VolumesSpec_type X), (''EventSourcesSpec'', EventSourcesSpec_type X)]"

definition CappSpec_DeepCopyInto :: "copiers \<Rightarrow> copier" where
  "CappSpec_DeepCopyInto D = copyStruct
    [(''ScaleSpec'', ScaleSpec_DeepCopyInto D),
     (''ConfigurationSpec'', D ''knativev1.ConfigurationSpec''),
     (''RouteSpec'', RouteSpec_DeepCopyInto D), (''LogSpec'', ok),
     (''VolumesSpec'', VolumesSpec_DeepCopyInto D),
     (''EventSourcesSpec'', EventSourcesSpec_DeepCopyInto D)]"

definition CappSpec_DeepCopy :: "copiers \<Rightarrow> copier" where
  "CappSpec_DeepCopy D = DeepCopy (CappSpec_DeepCopyInto D)"

definition RevisionInfo_type :: "library \<Rightarrow> gtype" where
  "RevisionInfo_type X = TStruct
    [(''RevisionStatus'', X ''knativev1.RevisionStatus''), (''RevisionName'', TPrim)]"

definition RevisionInfo_DeepCopyInto :: "copiers \<Rightarrow> copier" where
  "RevisionInfo_DeepCopyInto D = copyStruct [(''RevisionStatus'', D ''knativev1.RevisionStatus'')]"

definition RevisionInfo_DeepCopy :: "copiers \<Rightarrow> copier" where
  "RevisionInfo_DeepCopy D = DeepCopy (RevisionInfo_DeepCopyInto D)"

definition StateStatus_type :: "library \<Rightarrow> gtype" where
  "StateStatus_type X = TStruct
    [(''State'', TPrim), (''LastChange'', X ''metav1.Time'')]"

definition StateStatus_DeepCopyInto :: "copiers \<Rightarrow> copier" where
  "StateStatus_DeepCopyInto D = copyStruct [(''LastChange'', D ''metav1.Time'')]"

definition StateStatus_DeepCopy :: "copiers \<Rightarrow> copier" where
  "StateStatus_DeepCopy D = DeepCopy (StateStatus_DeepCopyInto D)"

definition LoggingStatus_type :: "library \<Rightarrow> gtype" where
  "LoggingStatus_type X = TStruct
    [(''SyslogNGFlow'', X ''loggingv1beta1.SyslogNGFlowStatus''),
     (''SyslogNGOutput'', X ''loggingv1beta1.SyslogNGOutputStatus''),
     (''Conditions'', TSlice (X ''metav1.Condition''))]"

definition LoggingStatus_DeepCopyInto :: "copiers \<Rightarrow> copier" where
  "LoggingStatus_DeepCopyInto D = copyStruct
    [(''SyslogNGFlow'', D ''loggingv1beta1.SyslogNGFlowStatus''),
     (''SyslogNGOutput'', D ''loggingv1beta1.SyslogNGOutputStatus''),
     (''Conditions'', copySlice (D ''metav1.Condition''))]"

definition LoggingStatus_DeepCopy :: "copiers \<Rightarrow> copier" where
  "LoggingStatus_DeepCopy D = DeepCopy (LoggingStatus_DeepCopyInto D)"

definition DNSRecordObjectStatus_type :: "library \<Rightarrow> gtype" where
  "DNSRecordObjectStatus_type X = TStruct [(''CNAMERecordObjectStatus'', X ''dnsrecordv1alpha1.CNAMERecordStatus'')]"

definition DNSRecordObjectStatus_DeepCopyInto :: "copiers \<Rightarrow> copier" where
  "DNSRecordObjectStatus_DeepCopyInto D = copyStruct [(''CNAMERecordObjectStatus'', D ''dnsrecordv1alpha1.CNAMERecordStatus'')]"

definition DNSRecordObjectStatus_DeepCopy :: "copiers \<Rightarrow> copier" where
  "DNSRecordObjectStatus_DeepCopy D = DeepCopy (DNSRecordObjectStatus_DeepCopyInto D)"

definition RouteStatus_type :: "library \<Rightarrow> gtype" where
  "RouteStatus_type X = TStruct
    [(''DomainMappingObjectStatus'', X ''knativev1beta1.DomainMappingStatus''),
     (''DNSRecordObjectStatus'', DNSRecordObjectStatus_type X),
     (''CertificateObjectStatus'', X ''cmapi.CertificateStatus'')]"

definition RouteStatus_DeepCopyInto :: "copiers \<Rightarrow> copier" where
  "RouteStatus_DeepCopyInto D = copyStruct
    [(''DomainMappingObjectStatus'', D ''knativev1beta1.DomainMappingStatus''),
     (''DNSRecordObjectStatus'', DNSRecordObjectStatus_DeepCopyInto D),
     (''CertificateObjectStatus'', D ''cmapi.CertificateStatus'')]"

definition RouteStatus_DeepCopy :: "copiers \<Rightarrow> copier" where
  "RouteStatus_DeepCopy D = DeepCopy (RouteStatus_DeepCopyInto D)"

definition NFSVolumeStatus_type :: "library \<Rightarrow> gtype" where
  "NFSVolumeStatus_type X = TStruct
    [(''VolumeName'', TPrim), (''NFSPVCStatus'', X ''nfspvcv1alpha1.NfsPvcStatus'')]"

definition NFSVolumeStatus_DeepCopyInto :: "copiers \<Rightarrow> copier" where
  "NFSVolumeStatus_DeepCopyInto D = copyStruct [(''NFSPVCStatus'', ok)]"

definition NFSVolumeStatus_DeepCopy :: "copiers \<Rightarrow> copier" where
  "NFSVolumeStatus_DeepCopy D = DeepCopy (NFSVolumeStatus_DeepCopyInto D)"

definition VolumesStatus_type :: "library \<Rightarrow> gtype" where
  "VolumesStatus_type X = TStruct [(''NFSVolumesStatus'', TSlice (NFSVolumeStatus_type X))]"

definition VolumesStatus_DeepCopyInto :: "copiers \<Rightarrow> copier" where
  "VolumesStatus_DeepCopyInto D = copyStruct [(''NFSVolumesStatus'', copySlice ok)]"

definition VolumesStatus_DeepCopy :: "copiers \<Rightarrow> copier" where
  "VolumesStatus_DeepCopy D = DeepCopy (VolumesStatus_DeepCopyInto D)"

definition EventSourceStatus_type :: "library \<Rightarrow> gtype" where
  "EventSourceStatus_type X = TStruct
    [(''Name'', TPrim), (''Condition'', X ''kapis.Condition'')]"

definition EventSourceStatus_DeepCopyInto :: "copiers \<Rightarrow> copier" where
  "EventSourceStatus_DeepCopyInto D = copyStruct [(''Condition'', D ''kapis.Condition'')]"

definition EventSourceStatus_DeepCopy :: "copiers \<Rightarrow> copier" where
  "EventSourceStatus_DeepCopy D = DeepCopy (EventSourceStatus_DeepCopyInto D)"

definition EventingStatus_type :: "library \<Rightarrow> gtype" where
  "EventingStatus_type X = TStruct [(''EventSources'', TSlice (EventSourceStatus_type X))]"

definition EventingStatus_DeepCopyInto :: "copiers \<Rightarrow> copier" where
  "EventingStatus_DeepCopyInto D = copyStruct [(''EventSources'', copySlice (EventSourceStatus_DeepCopyInto D))]"

definition EventingStatus_DeepCopy :: "copiers \<Rightarrow> copier" where
  "EventingStatus_DeepCopy D = DeepCopy (EventingStatus_DeepCopyInto D)"

definition CappStatus_type :: "library \<Rightarrow> gtype" where
  "CappStatus_type X = TStruct
    [(''KnativeObjectStatus'', X ''knativev1.ServiceStatus''),
     (''RevisionInfo'', TSlice (RevisionInfo_type X)), (''StateStatus'', StateStatus_type X),
     (''LoggingStatus'', LoggingStatus_type X), (''RouteStatus'', RouteStatus_type X),
     (''VolumesStatus'', VolumesStatus_type X), (''EventingStatus'', EventingStatus_type X),
     (''Conditions'', TSlice (X ''metav1.Condition''))]"

definition CappStatus_DeepCopyInto :: "copiers \<Rightarrow> copier" where
  "CappStatus_DeepCopyInto D = copyStruct
    [(''KnativeObjectStatus'', D ''knativev1.ServiceStatus''),
     (''RevisionInfo'', copySlice (RevisionInfo_DeepCopyInto D)),
     (''StateStatus'', StateStatus_DeepCopyInto D),
     (''LoggingStatus'', LoggingStatus_DeepCopyInto D),
     (''RouteStatus'', RouteStatus_DeepCopyInto D),
     (''VolumesStatus'', VolumesStatus_DeepCopyInto D),
     (''EventingStatus'', EventingStatus_DeepCopyInto D),
     (''Conditions'', copySlice (D ''metav1.Condition''))]"

definition CappStatus_DeepCopy :: "copiers \<Rightarrow> copier" where
  "CappStatus_DeepCopy D = DeepCopy (CappStatus_DeepCopyInto D)"

definition Capp_type :: "library \<Rightarrow> gtype" where
  "Capp_type X = TStruct
    [(''TypeMeta'', X ''metav1.TypeMeta''), (''ObjectMeta'', X ''metav1.ObjectMeta''),
     (''Spec'', CappSpec_type X), (''Status'', CappStatus_type X)]"

definition Capp_DeepCopyInto :: "copiers \<Rightarrow> copier" where
  "Capp_DeepCopyInto D = copyStruct
    [(''TypeMeta'', ok), (''ObjectMeta'', D ''metav1.ObjectMeta''),
     (''Spec'', CappSpec_DeepCopyInto D), (''Status'', CappStatus_DeepCopyInto D)]"

definition Capp_DeepCopy :: "copiers \<Rightarrow> copier" where
  "Capp_DeepCopy D = DeepCopy (Capp_DeepCopyInto D)"

definition Capp_DeepCopyObject :: "copiers \<Rightarrow> gval \<Rightarrow> (heap, gval option) action" where
  "Capp_DeepCopyObject D = DeepCopyObject (Capp_DeepCopy D)"

definition IssuerRef_type :: "library \<Rightarrow> gtype" where
  "IssuerRef_type X = TStruct
    [(''Name'', TPrim), (''Kind'', TPrim), (''Group'', TPrim)]"

definition IssuerRef_DeepCopyInto :: "copiers \<Rightarrow> copier" where
  "IssuerRef_DeepCopyInto D = copyStruct []"

definition IssuerRef_DeepCopy :: "copiers \<Rightarrow> copier" where
  "IssuerRef_DeepCopy D = DeepCopy (IssuerRef_DeepCopyInto D)"

definition DNSConfig_type :: "library \<Rightarrow> gtype" where
  "DNSConfig_type X = TStruct
    [(''Zone'', TPrim), (''CNAME'', TPrim), (''Provider'', TPrim),
     (''IssuerRef'', IssuerRef_type X)]"

definition DNSConfig_DeepCopyInto :: "copiers \<Rightarrow> copier" where
  "DNSConfig_DeepCopyInto D = copyStruct [(''IssuerRef'', ok)]"

definition DNSConfig_DeepCopy :: "copiers \<Rightarrow> copier" where
  "DNSConfig_DeepCopy D = DeepCopy (DNSConfig_DeepCopyInto D)"

definition HostnamePattern_type :: "library \<Rightarrow> gtype" where
  "HostnamePattern_type X = TStruct
    [(''Match'', TPrim), (''Explanation'', TPrim)]"

definition HostnamePattern_DeepCopyInto :: "copiers \<Rightarrow> copier" where
  "HostnamePattern_DeepCopyInto D = copyStruct []"

definition HostnamePattern_DeepCopy :: "copiers \<Rightarrow> copier" where
  "HostnamePattern_DeepCopy D = DeepCopy (HostnamePattern_DeepCopyInto D)"

definition CappConfigSpec_type :: "library \<Rightarrow> gtype" where
  "CappConfigSpec_type X = TStruct
    [(''DNSConfig'', DNSConfig_type X), (''AutoscaleConfig'', AutoscaleConfig_type X),
     (''DefaultResources'', X ''corev1.ResourceRequirements''),
     (''AllowedHostnamePatterns'', TSlice (HostnamePattern_type X)),
     (''RevisionHistoryLimit'', TPrim), (''MaxKafkaConsumers'', TPrim)]"

definition CappConfigSpec_DeepCopyInto :: "copiers \<Rightarrow> copier" where
  "CappConfigSpec_DeepCopyInto D = copyStruct
    [(''DNSConfig'', ok), (''AutoscaleConfig'', ok),
     (''DefaultResources'', D ''corev1.ResourceRequirements''),
     (''AllowedHostnamePatterns'', copySlice ok)]"

definition CappConfigSpec_DeepCopy :: "copiers \<Rightarrow> copier" where
  "CappConfigSpec_DeepCopy D = DeepCopy (CappConfigSpec_DeepCopyInto D)"

definition CappConfigStatus_type :: "library \<Rightarrow> gtype" where
  "CappConfigStatus_type X = TStruct []"

definition CappConfigStatus_DeepCopyInto :: "copiers \<Rightarrow> copier" where
  "CappConfigStatus_DeepCopyInto D = copyStruct []"

definition CappConfigStatus_DeepCopy :: "copiers \<Rightarrow> copier" where
  "CappConfigStatus_DeepCopy D = DeepCopy (CappConfigStatus_DeepCopyInto D)"

definition CappConfig_type :: "library \<Rightarrow> gtype" where
  "CappConfig_type X = TStruct
    [(''TypeMeta'', X ''metav1.TypeMeta''), (''ObjectMeta'', X ''metav1.ObjectMeta''),
     (''Spec'', CappConfigSpec_type X), (''Status'', CappConfigStatus_type X)]"

definition CappConfig_DeepCopyInto :: "copiers \<Rightarrow> copier" where
  "CappConfig_DeepCopyInto D = copyStruct
    [(''TypeMeta'', ok), (''ObjectMeta'', D ''metav1.ObjectMeta''),
     (''Spec'', CappConfigSpec_DeepCopyInto D), (''Status'', ok)]"

definition CappConfig_DeepCopy :: "copiers \<Rightarrow> copier" where
  "CappConfig_DeepCopy D = DeepCopy (CappConfig_DeepCopyInto D)"

definition CappConfig_DeepCopyObject :: "copiers \<Rightarrow> gval \<Rightarrow> (heap, gval option) action" where
  "CappConfig_DeepCopyObject D = DeepCopyObject (CappConfig_DeepCopy D)"

definition CappConfigList_type :: "library \<Rightarrow> gtype" where
  "CappConfigList_type X = TStruct
    [(''TypeMeta'', X ''metav1.TypeMeta''), (''ListMeta'', X ''metav1.ListMeta''),
     (''Items'', TSlice (CappConfig_type X))]"

definition CappConfigList_DeepCopyInto :: "copiers \<Rightarrow> copier" where
  "CappConfigList_DeepCopyInto D = copyStruct
    [(''TypeMeta'', ok), (''ListMeta'', D ''metav1.ListMeta''),
     (''Items'', copySlice (CappConfig_DeepCopyInto D))]"

definition CappConfigList_DeepCopy :: "copiers \<Rightarrow> copier" where
  "CappConfigList_DeepCopy D = DeepCopy (CappConfigList_DeepCopyInto D)"

definition CappConfigList_DeepCopyObject :: "copiers \<Rightarrow> gval \<Rightarrow> (heap, gval option) action" where
  "CappConfigList_DeepCopyObject D = DeepCopyObject (CappConfigList_DeepCopy D)"

definition CappList_type :: "library \<Rightarrow> gtype" where
  "CappList_type X = TStruct
    [(''TypeMeta'', X ''metav1.TypeMeta''), (''ListMeta'', X ''metav1.ListMeta''),
     (''Items'', TSlice (Capp_type X))]"

definition CappList_DeepCopyInto :: "copiers \<Rightarrow> copier" where
  "CappList_DeepCopyInto D = copyStruct
    [(''TypeMeta'', ok), (''ListMeta'', D ''metav1.ListMeta''),
     (''Items'', copySlice (Capp_DeepCopyInto D))]"

definition CappList_DeepCopy :: "copiers \<Rightarrow> copier" where
  "CappList_DeepCopy D = DeepCopy (CappList_DeepCopyInto D)"

definition CappList_DeepCopyObject :: "copiers \<Rightarrow> gval \<Rightarrow> (heap, gval option) action" where
  "CappList_DeepCopyObject D = DeepCopyObject (CappList_DeepCopy D)"

definition CappTemplate_type :: "library \<Rightarrow> gtype" where
  "CappTemplate_type X = TStruct
    [(''Spec'', CappSpec_type X), (''Labels'', TMap TPrim), (''Annotations'', TMap TPrim)]"

definition CappTemplate_DeepCopyInto :: "copiers \<Rightarrow> copier" where
  "CappTemplate_DeepCopyInto D = copyStruct
    [(''Spec'', CappSpec_DeepCopyInto D), (''Labels'', copyMap ok),
     (''Annotations'', copyMap ok)]"

definition CappTemplate_DeepCopy :: "copiers \<Rightarrow> copier" where
  "CappTemplate_DeepCopy D = DeepCopy (CappTemplate_DeepCopyInto D)"

definition CappRevisionSpec_type :: "library \<Rightarrow> gtype" where
  "CappRevisionSpec_type X = TStruct
    [(''RevisionNumber'', TPrim), (''CappTemplate'', CappTemplate_type X)]"

definition CappRevisionSpec_DeepCopyInto :: "copiers \<Rightarrow> copier" where
  "CappRevisionSpec_DeepCopyInto D = copyStruct [(''CappTemplate'', CappTemplate_DeepCopyInto D)]"

definition CappRevisionSpec_DeepCopy :: "copiers \<Rightarrow> copier" where
  "CappRevisionSpec_DeepCopy D = DeepCopy (CappRevisionSpec_DeepCopyInto D)"

definition CappRevision_type :: "library \<Rightarrow> gtype" where
  "CappRevision_type X = TStruct
    [(''TypeMeta'', X ''metav1.TypeMeta''), (''ObjectMeta'', X ''metav1.ObjectMeta''),
     (''Spec'', CappRevisionSpec_type X)]"

definition CappRevision_DeepCopyInto :: "copiers \<Rightarrow> copier" where
  "CappRevision_DeepCopyInto D = copyStruct
    [(''TypeMeta'', ok), (''ObjectMeta'', D ''metav1.ObjectMeta''),
     (''Spec'', CappRevisionSpec_DeepCopyInto D)]"

definition CappRevision_DeepCopy :: "copiers \<Rightarrow> copier" where
  "CappRevision_DeepCopy D = DeepCopy (CappRevision_DeepCopyInto D)"

definition CappRevision_DeepCopyObject :: "copiers \<Rightarrow> gval \<Rightarrow> (heap, gval option) action" where
  "CappRevision_DeepCopyObject D = DeepCopyObject (CappRevision_DeepCopy D)"

definition CappRevisionList_type :: "library \<Rightarrow> gtype" where
  "CappRevisionList_type X = TStruct
    [(''TypeMeta'', X ''metav1.TypeMeta''), (''ListMeta'', X ''metav1.ListMeta''),
     (''Items'', TSlice (CappRevision_type X))]"

definition CappRevisionList_DeepCopyInto :: "copiers \<Rightarrow> copier" where
  "CappRevisionList_DeepCopyInto D = copyStruct
    [(''TypeMeta'', ok), (''ListMeta'', D ''metav1.ListMeta''),
     (''Items'', copySlice (CappRevision_DeepCopyInto D))]"

definition CappRevisionList_DeepCopy :: "copiers \<Rightarrow> copier" where
  "CappRevisionList_DeepCopy D = DeepCopy (CappRevisionList_DeepCopyInto D)"

definition CappRevisionList_DeepCopyObject :: "copiers \<Rightarrow> gval \<Rightarrow> (heap, gval option) action" where
  "CappRevisionList_DeepCopyObject D = DeepCopyObject (CappRevisionList_DeepCopy D)"

section \<open>What the library promises\<close>

text \<open>
  The types with a deep copy of their own, and those that the generator assigns because their
  fields hold no references.
\<close>

definition copied_types :: "string list" where
  "copied_types =
    [''cmapi.CertificateStatus'', ''corev1.ResourceRequirements'',
     ''dnsrecordv1alpha1.CNAMERecordStatus'', ''kapis.Condition'', ''kapis.URL'',
     ''knativev1.ConfigurationSpec'', ''knativev1.RevisionStatus'',
     ''knativev1.ServiceStatus'', ''knativev1.TrafficTarget'',
     ''knativev1beta1.DomainMappingStatus'', ''loggingv1beta1.SyslogNGFlowStatus'',
     ''loggingv1beta1.SyslogNGOutputStatus'', ''metav1.Condition'', ''metav1.ListMeta'',
     ''metav1.ObjectMeta'', ''metav1.Time'', ''resource.Quantity'']"

definition assigned_types :: "string list" where
  "assigned_types = [''corev1.LocalObjectReference'', ''metav1.TypeMeta'', ''nfspvcv1alpha1.NfsPvcStatus'']"

definition library_copies :: "library \<Rightarrow> copiers \<Rightarrow> bool" where
  "library_copies X D \<longleftrightarrow>
     (\<forall>n \<in> set copied_types. deep_copies (X n) (D n)) \<and> (\<forall>n \<in> set assigned_types. flat (X n))"

lemma library_deep [deep]: "\<lbrakk>library_copies X D; n \<in> set copied_types\<rbrakk> \<Longrightarrow> deep_copies (X n) (D n)"
  by (simp add: library_copies_def)

lemma library_flat [deep]: "\<lbrakk>library_copies X D; n \<in> set assigned_types\<rbrakk> \<Longrightarrow> flat (X n)"
  by (simp add: library_copies_def)

lemma copied [deep]: "n \<in> set copied_types \<longleftrightarrow> n \<in> {''cmapi.CertificateStatus'', ''corev1.ResourceRequirements'',
     ''dnsrecordv1alpha1.CNAMERecordStatus'', ''kapis.Condition'', ''kapis.URL'',
     ''knativev1.ConfigurationSpec'', ''knativev1.RevisionStatus'',
     ''knativev1.ServiceStatus'', ''knativev1.TrafficTarget'',
     ''knativev1beta1.DomainMappingStatus'', ''loggingv1beta1.SyslogNGFlowStatus'',
     ''loggingv1beta1.SyslogNGOutputStatus'', ''metav1.Condition'', ''metav1.ListMeta'',
     ''metav1.ObjectMeta'', ''metav1.Time'', ''resource.Quantity''}"
  by (simp add: copied_types_def)

lemma assigned [deep]: "n \<in> set assigned_types \<longleftrightarrow> n \<in> {''corev1.LocalObjectReference'', ''metav1.TypeMeta'', ''nfspvcv1alpha1.NfsPvcStatus''}"
  by (simp add: assigned_types_def)

section \<open>Every generated copy is deep\<close>

lemma AutoscaleConfig_flat [deep]: "library_copies X D \<Longrightarrow> flat (AutoscaleConfig_type X)"
  by (simp add: AutoscaleConfig_type_def deep)

lemma LogSpec_flat [deep]: "library_copies X D \<Longrightarrow> flat (LogSpec_type X)"
  by (simp add: LogSpec_type_def deep)

lemma PingSourceConfiguration_flat [deep]: "library_copies X D \<Longrightarrow> flat (PingSourceConfiguration_type X)"
  by (simp add: PingSourceConfiguration_type_def deep)

lemma NFSVolumeStatus_flat [deep]: "library_copies X D \<Longrightarrow> flat (NFSVolumeStatus_type X)"
  by (simp add: NFSVolumeStatus_type_def deep)

lemma IssuerRef_flat [deep]: "library_copies X D \<Longrightarrow> flat (IssuerRef_type X)"
  by (simp add: IssuerRef_type_def deep)

lemma DNSConfig_flat [deep]: "library_copies X D \<Longrightarrow> flat (DNSConfig_type X)"
  by (simp add: DNSConfig_type_def deep)

lemma HostnamePattern_flat [deep]: "library_copies X D \<Longrightarrow> flat (HostnamePattern_type X)"
  by (simp add: HostnamePattern_type_def deep)

lemma CappConfigStatus_flat [deep]: "library_copies X D \<Longrightarrow> flat (CappConfigStatus_type X)"
  by (simp add: CappConfigStatus_type_def deep)

lemma AutoscaleConfig_deep [deep]:
  "library_copies X D \<Longrightarrow> deep_copies (AutoscaleConfig_type X) (AutoscaleConfig_DeepCopyInto D)"
  unfolding AutoscaleConfig_type_def AutoscaleConfig_DeepCopyInto_def by (rule deep_Struct) (simp add: fields_deep_def deep)

lemma ScaleSpec_deep [deep]:
  "library_copies X D \<Longrightarrow> deep_copies (ScaleSpec_type X) (ScaleSpec_DeepCopyInto D)"
  unfolding ScaleSpec_type_def ScaleSpec_DeepCopyInto_def by (rule deep_Struct) (simp add: fields_deep_def deep)

lemma RouteSpec_deep [deep]:
  "library_copies X D \<Longrightarrow> deep_copies (RouteSpec_type X) (RouteSpec_DeepCopyInto D)"
  unfolding RouteSpec_type_def RouteSpec_DeepCopyInto_def by (rule deep_Struct) (simp add: fields_deep_def deep)

lemma LogSpec_deep [deep]:
  "library_copies X D \<Longrightarrow> deep_copies (LogSpec_type X) (LogSpec_DeepCopyInto D)"
  unfolding LogSpec_type_def LogSpec_DeepCopyInto_def by (rule deep_Struct) (simp add: fields_deep_def deep)

lemma NFSVolume_deep [deep]:
  "library_copies X D \<Longrightarrow> deep_copies (NFSVolume_type X) (NFSVolume_DeepCopyInto D)"
  unfolding NFSVolume_type_def NFSVolume_DeepCopyInto_def by (rule deep_Struct) (simp add: fields_deep_def deep)

lemma VolumesSpec_deep [deep]:
  "library_copies X D \<Longrightarrow> deep_copies (VolumesSpec_type X) (VolumesSpec_DeepCopyInto D)"
  unfolding VolumesSpec_type_def VolumesSpec_DeepCopyInto_def by (rule deep_Struct) (simp add: fields_deep_def deep)

lemma PingSourceConfiguration_deep [deep]:
  "library_copies X D \<Longrightarrow> deep_copies (PingSourceConfiguration_type X) (PingSourceConfiguration_DeepCopyInto D)"
  unfolding PingSourceConfiguration_type_def PingSourceConfiguration_DeepCopyInto_def by (rule deep_Struct) (simp add: fields_deep_def deep)

lemma KafkaSourceConfiguration_deep [deep]:
  "library_copies X D \<Longrightarrow> deep_copies (KafkaSourceConfiguration_type X) (KafkaSourceConfiguration_DeepCopyInto D)"
  unfolding KafkaSourceConfiguration_type_def KafkaSourceConfiguration_DeepCopyInto_def by (rule deep_Struct) (simp add: fields_deep_def deep)

lemma SourceConfiguration_deep [deep]:
  "library_copies X D \<Longrightarrow> deep_copies (SourceConfiguration_type X) (SourceConfiguration_DeepCopyInto D)"
  unfolding SourceConfiguration_type_def SourceConfiguration_DeepCopyInto_def by (rule deep_Struct) (simp add: fields_deep_def deep)

lemma EventSourcesSpec_deep [deep]:
  "library_copies X D \<Longrightarrow> deep_copies (EventSourcesSpec_type X) (EventSourcesSpec_DeepCopyInto D)"
  unfolding EventSourcesSpec_type_def EventSourcesSpec_DeepCopyInto_def by (rule deep_Struct) (simp add: fields_deep_def deep)

lemma CappSpec_deep [deep]:
  "library_copies X D \<Longrightarrow> deep_copies (CappSpec_type X) (CappSpec_DeepCopyInto D)"
  unfolding CappSpec_type_def CappSpec_DeepCopyInto_def by (rule deep_Struct) (simp add: fields_deep_def deep)

lemma RevisionInfo_deep [deep]:
  "library_copies X D \<Longrightarrow> deep_copies (RevisionInfo_type X) (RevisionInfo_DeepCopyInto D)"
  unfolding RevisionInfo_type_def RevisionInfo_DeepCopyInto_def by (rule deep_Struct) (simp add: fields_deep_def deep)

lemma StateStatus_deep [deep]:
  "library_copies X D \<Longrightarrow> deep_copies (StateStatus_type X) (StateStatus_DeepCopyInto D)"
  unfolding StateStatus_type_def StateStatus_DeepCopyInto_def by (rule deep_Struct) (simp add: fields_deep_def deep)

lemma LoggingStatus_deep [deep]:
  "library_copies X D \<Longrightarrow> deep_copies (LoggingStatus_type X) (LoggingStatus_DeepCopyInto D)"
  unfolding LoggingStatus_type_def LoggingStatus_DeepCopyInto_def by (rule deep_Struct) (simp add: fields_deep_def deep)

lemma DNSRecordObjectStatus_deep [deep]:
  "library_copies X D \<Longrightarrow> deep_copies (DNSRecordObjectStatus_type X) (DNSRecordObjectStatus_DeepCopyInto D)"
  unfolding DNSRecordObjectStatus_type_def DNSRecordObjectStatus_DeepCopyInto_def by (rule deep_Struct) (simp add: fields_deep_def deep)

lemma RouteStatus_deep [deep]:
  "library_copies X D \<Longrightarrow> deep_copies (RouteStatus_type X) (RouteStatus_DeepCopyInto D)"
  unfolding RouteStatus_type_def RouteStatus_DeepCopyInto_def by (rule deep_Struct) (simp add: fields_deep_def deep)

lemma NFSVolumeStatus_deep [deep]:
  "library_copies X D \<Longrightarrow> deep_copies (NFSVolumeStatus_type X) (NFSVolumeStatus_DeepCopyInto D)"
  unfolding NFSVolumeStatus_type_def NFSVolumeStatus_DeepCopyInto_def by (rule deep_Struct) (simp add: fields_deep_def deep)

lemma VolumesStatus_deep [deep]:
  "library_copies X D \<Longrightarrow> deep_copies (VolumesStatus_type X) (VolumesStatus_DeepCopyInto D)"
  unfolding VolumesStatus_type_def VolumesStatus_DeepCopyInto_def by (rule deep_Struct) (simp add: fields_deep_def deep)

lemma EventSourceStatus_deep [deep]:
  "library_copies X D \<Longrightarrow> deep_copies (EventSourceStatus_type X) (EventSourceStatus_DeepCopyInto D)"
  unfolding EventSourceStatus_type_def EventSourceStatus_DeepCopyInto_def by (rule deep_Struct) (simp add: fields_deep_def deep)

lemma EventingStatus_deep [deep]:
  "library_copies X D \<Longrightarrow> deep_copies (EventingStatus_type X) (EventingStatus_DeepCopyInto D)"
  unfolding EventingStatus_type_def EventingStatus_DeepCopyInto_def by (rule deep_Struct) (simp add: fields_deep_def deep)

lemma CappStatus_deep [deep]:
  "library_copies X D \<Longrightarrow> deep_copies (CappStatus_type X) (CappStatus_DeepCopyInto D)"
  unfolding CappStatus_type_def CappStatus_DeepCopyInto_def by (rule deep_Struct) (simp add: fields_deep_def deep)

lemma Capp_deep [deep]:
  "library_copies X D \<Longrightarrow> deep_copies (Capp_type X) (Capp_DeepCopyInto D)"
  unfolding Capp_type_def Capp_DeepCopyInto_def by (rule deep_Struct) (simp add: fields_deep_def deep)

lemma IssuerRef_deep [deep]:
  "library_copies X D \<Longrightarrow> deep_copies (IssuerRef_type X) (IssuerRef_DeepCopyInto D)"
  unfolding IssuerRef_type_def IssuerRef_DeepCopyInto_def by (rule deep_Struct) (simp add: fields_deep_def deep)

lemma DNSConfig_deep [deep]:
  "library_copies X D \<Longrightarrow> deep_copies (DNSConfig_type X) (DNSConfig_DeepCopyInto D)"
  unfolding DNSConfig_type_def DNSConfig_DeepCopyInto_def by (rule deep_Struct) (simp add: fields_deep_def deep)

lemma HostnamePattern_deep [deep]:
  "library_copies X D \<Longrightarrow> deep_copies (HostnamePattern_type X) (HostnamePattern_DeepCopyInto D)"
  unfolding HostnamePattern_type_def HostnamePattern_DeepCopyInto_def by (rule deep_Struct) (simp add: fields_deep_def deep)

lemma CappConfigSpec_deep [deep]:
  "library_copies X D \<Longrightarrow> deep_copies (CappConfigSpec_type X) (CappConfigSpec_DeepCopyInto D)"
  unfolding CappConfigSpec_type_def CappConfigSpec_DeepCopyInto_def by (rule deep_Struct) (simp add: fields_deep_def deep)

lemma CappConfigStatus_deep [deep]:
  "library_copies X D \<Longrightarrow> deep_copies (CappConfigStatus_type X) (CappConfigStatus_DeepCopyInto D)"
  unfolding CappConfigStatus_type_def CappConfigStatus_DeepCopyInto_def by (rule deep_Struct) (simp add: fields_deep_def deep)

lemma CappConfig_deep [deep]:
  "library_copies X D \<Longrightarrow> deep_copies (CappConfig_type X) (CappConfig_DeepCopyInto D)"
  unfolding CappConfig_type_def CappConfig_DeepCopyInto_def by (rule deep_Struct) (simp add: fields_deep_def deep)

lemma CappConfigList_deep [deep]:
  "library_copies X D \<Longrightarrow> deep_copies (CappConfigList_type X) (CappConfigList_DeepCopyInto D)"
  unfolding CappConfigList_type_def CappConfigList_DeepCopyInto_def by (rule deep_Struct) (simp add: fields_deep_def deep)

lemma CappList_deep [deep]:
  "library_copies X D \<Longrightarrow> deep_copies (CappList_type X) (CappList_DeepCopyInto D)"
  unfolding CappList_type_def CappList_DeepCopyInto_def by (rule deep_Struct) (simp add: fields_deep_def deep)

lemma CappTemplate_deep [deep]:
  "library_copies X D \<Longrightarrow> deep_copies (CappTemplate_type X) (CappTemplate_DeepCopyInto D)"
  unfolding CappTemplate_type_def CappTemplate_DeepCopyInto_def by (rule deep_Struct) (simp add: fields_deep_def deep)

lemma CappRevisionSpec_deep [deep]:
  "library_copies X D \<Longrightarrow> deep_copies (CappRevisionSpec_type X) (CappRevisionSpec_DeepCopyInto D)"
  unfolding CappRevisionSpec_type_def CappRevisionSpec_DeepCopyInto_def by (rule deep_Struct) (simp add: fields_deep_def deep)

lemma CappRevision_deep [deep]:
  "library_copies X D \<Longrightarrow> deep_copies (CappRevision_type X) (CappRevision_DeepCopyInto D)"
  unfolding CappRevision_type_def CappRevision_DeepCopyInto_def by (rule deep_Struct) (simp add: fields_deep_def deep)

lemma CappRevisionList_deep [deep]:
  "library_copies X D \<Longrightarrow> deep_copies (CappRevisionList_type X) (CappRevisionList_DeepCopyInto D)"
  unfolding CappRevisionList_type_def CappRevisionList_DeepCopyInto_def by (rule deep_Struct) (simp add: fields_deep_def deep)

lemmas copies_of = AutoscaleConfig_DeepCopy_def Capp_DeepCopy_def CappConfig_DeepCopy_def
  CappConfigList_DeepCopy_def CappConfigSpec_DeepCopy_def CappConfigStatus_DeepCopy_def
  CappList_DeepCopy_def CappRevision_DeepCopy_def CappRevisionList_DeepCopy_def
  CappRevisionSpec_DeepCopy_def CappSpec_DeepCopy_def CappStatus_DeepCopy_def
  CappTemplate_DeepCopy_def DNSConfig_DeepCopy_def DNSRecordObjectStatus_DeepCopy_def
  EventSourceStatus_DeepCopy_def EventSourcesSpec_DeepCopy_def EventingStatus_DeepCopy_def
  HostnamePattern_DeepCopy_def IssuerRef_DeepCopy_def KafkaSourceConfiguration_DeepCopy_def
  LogSpec_DeepCopy_def LoggingStatus_DeepCopy_def NFSVolume_DeepCopy_def
  NFSVolumeStatus_DeepCopy_def PingSourceConfiguration_DeepCopy_def RevisionInfo_DeepCopy_def
  RouteSpec_DeepCopy_def RouteStatus_DeepCopy_def ScaleSpec_DeepCopy_def
  SourceConfiguration_DeepCopy_def StateStatus_DeepCopy_def VolumesSpec_DeepCopy_def
  VolumesStatus_DeepCopy_def DeepCopy_def

lemmas objects_of = Capp_DeepCopyObject_def CappConfig_DeepCopyObject_def
  CappConfigList_DeepCopyObject_def CappList_DeepCopyObject_def CappRevision_DeepCopyObject_def
  CappRevisionList_DeepCopyObject_def

definition generated :: "library \<Rightarrow> copiers \<Rightarrow> (gtype \<times> copier \<times> copier) list" where
  "generated X D =
    [(AutoscaleConfig_type X, AutoscaleConfig_DeepCopyInto D, AutoscaleConfig_DeepCopy D),
     (Capp_type X, Capp_DeepCopyInto D, Capp_DeepCopy D),
     (CappConfig_type X, CappConfig_DeepCopyInto D, CappConfig_DeepCopy D),
     (CappConfigList_type X, CappConfigList_DeepCopyInto D, CappConfigList_DeepCopy D),
     (CappConfigSpec_type X, CappConfigSpec_DeepCopyInto D, CappConfigSpec_DeepCopy D),
     (CappConfigStatus_type X, CappConfigStatus_DeepCopyInto D, CappConfigStatus_DeepCopy D),
     (CappList_type X, CappList_DeepCopyInto D, CappList_DeepCopy D),
     (CappRevision_type X, CappRevision_DeepCopyInto D, CappRevision_DeepCopy D),
     (CappRevisionList_type X, CappRevisionList_DeepCopyInto D, CappRevisionList_DeepCopy D),
     (CappRevisionSpec_type X, CappRevisionSpec_DeepCopyInto D, CappRevisionSpec_DeepCopy D),
     (CappSpec_type X, CappSpec_DeepCopyInto D, CappSpec_DeepCopy D),
     (CappStatus_type X, CappStatus_DeepCopyInto D, CappStatus_DeepCopy D),
     (CappTemplate_type X, CappTemplate_DeepCopyInto D, CappTemplate_DeepCopy D),
     (DNSConfig_type X, DNSConfig_DeepCopyInto D, DNSConfig_DeepCopy D),
     (DNSRecordObjectStatus_type X, DNSRecordObjectStatus_DeepCopyInto D, DNSRecordObjectStatus_DeepCopy D),
     (EventSourceStatus_type X, EventSourceStatus_DeepCopyInto D, EventSourceStatus_DeepCopy D),
     (EventSourcesSpec_type X, EventSourcesSpec_DeepCopyInto D, EventSourcesSpec_DeepCopy D),
     (EventingStatus_type X, EventingStatus_DeepCopyInto D, EventingStatus_DeepCopy D),
     (HostnamePattern_type X, HostnamePattern_DeepCopyInto D, HostnamePattern_DeepCopy D),
     (IssuerRef_type X, IssuerRef_DeepCopyInto D, IssuerRef_DeepCopy D),
     (KafkaSourceConfiguration_type X, KafkaSourceConfiguration_DeepCopyInto D, KafkaSourceConfiguration_DeepCopy D),
     (LogSpec_type X, LogSpec_DeepCopyInto D, LogSpec_DeepCopy D),
     (LoggingStatus_type X, LoggingStatus_DeepCopyInto D, LoggingStatus_DeepCopy D),
     (NFSVolume_type X, NFSVolume_DeepCopyInto D, NFSVolume_DeepCopy D),
     (NFSVolumeStatus_type X, NFSVolumeStatus_DeepCopyInto D, NFSVolumeStatus_DeepCopy D),
     (PingSourceConfiguration_type X, PingSourceConfiguration_DeepCopyInto D, PingSourceConfiguration_DeepCopy D),
     (RevisionInfo_type X, RevisionInfo_DeepCopyInto D, RevisionInfo_DeepCopy D),
     (RouteSpec_type X, RouteSpec_DeepCopyInto D, RouteSpec_DeepCopy D),
     (RouteStatus_type X, RouteStatus_DeepCopyInto D, RouteStatus_DeepCopy D),
     (ScaleSpec_type X, ScaleSpec_DeepCopyInto D, ScaleSpec_DeepCopy D),
     (SourceConfiguration_type X, SourceConfiguration_DeepCopyInto D, SourceConfiguration_DeepCopy D),
     (StateStatus_type X, StateStatus_DeepCopyInto D, StateStatus_DeepCopy D),
     (VolumesSpec_type X, VolumesSpec_DeepCopyInto D, VolumesSpec_DeepCopy D),
     (VolumesStatus_type X, VolumesStatus_DeepCopyInto D, VolumesStatus_DeepCopy D)]"

definition root_objects :: "library \<Rightarrow> copiers \<Rightarrow> (gtype \<times> (gval \<Rightarrow> (heap, gval option) action)) list" where
  "root_objects X D =
    [(Capp_type X, Capp_DeepCopyObject D),
     (CappConfig_type X, CappConfig_DeepCopyObject D),
     (CappConfigList_type X, CappConfigList_DeepCopyObject D),
     (CappList_type X, CappList_DeepCopyObject D),
     (CappRevision_type X, CappRevision_DeepCopyObject D),
     (CappRevisionList_type X, CappRevisionList_DeepCopyObject D)]"

text \<open>
  \<open>library_sample\<close> and \<open>copiers_sample\<close> are a library whose metadata have labels.
\<close>

definition library_sample :: library where
  "library_sample n = (if n = ''metav1.ObjectMeta'' then TStruct [(''Labels'', TMap TPrim)] else TPrim)"

definition copiers_sample :: copiers where
  "copiers_sample n = (if n = ''metav1.ObjectMeta'' then copyStruct [(''Labels'', copyMap ok)] else ok)"

lemma library_copies_sample: "library_copies library_sample copiers_sample"
proof -
  have "deep_copies (library_sample n) (copiers_sample n)" for n
    by (simp add: library_sample_def copiers_sample_def deep deep_Struct fields_deep_def)
  moreover have "flat (library_sample n)" if "n \<in> set assigned_types" for n
    using that by (auto simp: assigned library_sample_def)
  ultimately show ?thesis by (simp add: library_copies_def)
qed

text \<open>An assignment alone shares what the pointers of a value refer to.\<close>

lemma assignment_shares: "\<not> deep_copies (TPtr TPrim) ok"
proof
  assume "deep_copies (TPtr TPrim) ok"
  moreover have "rd (TPtr TPrim) [Var (Prim ''1'')] (PtrTo 0) = Some (To (Leaf ''1''))"
    by (simp add: cell_at_def)
  ultimately obtain v' new where copy: "ok (PtrTo 0) [Var (Prim ''1'')] = (Ok v', [Var (Prim ''1'')] @ new)"
    and read: "\<And>old. length old = length [Var (Prim ''1'')] \<Longrightarrow> rd (TPtr TPrim) (old @ new) v' = Some (To (Leaf ''1''))"
    by (rule deep_copiesD) blast
  from read [of "[Var (Prim ''2'')]"] copy show False by (auto simp: ok_def cell_at_def)
qed

text \<open>
  C27: every generated copy is deep. For each of the 34 API types, \<open>DeepCopyInto\<close> and \<open>DeepCopy\<close> make,
  from any well-formed value, a value of the same type with the same content, without writing to a
  cell that was there before and without keeping a reference to one, whatever deep copies the
  library has for its own types.
\<close>

theorem generated_copies_are_deep:
  assumes "library_copies X D"
  shows "list_all (\<lambda>(t, into, copy). deep_copies t into \<and> deep_copies (TPtr t) copy) (generated X D)"
  by (simp add: generated_def assms deep copies_of)

theorem generated_copies_are_deep_witness:
  "list_all (\<lambda>(t, into, copy). deep_copies t into \<and> deep_copies (TPtr t) copy)
     (generated library_sample copiers_sample)"
  by (rule generated_copies_are_deep [OF library_copies_sample])

lemma root_objectE:
  assumes "library_copies X D" "(t, k) \<in> set (root_objects X D)"
  obtains into where "k = DeepCopyObject (DeepCopy into)" "deep_copies t into"
proof -
  have "(t, k) \<in> set (map (\<lambda>(t, into). (t, DeepCopyObject (DeepCopy into)))
      [(Capp_type X, Capp_DeepCopyInto D),
       (CappConfig_type X, CappConfig_DeepCopyInto D),
       (CappConfigList_type X, CappConfigList_DeepCopyInto D),
       (CappList_type X, CappList_DeepCopyInto D),
       (CappRevision_type X, CappRevision_DeepCopyInto D),
       (CappRevisionList_type X, CappRevisionList_DeepCopyInto D)])"
    using assms(2) by (simp add: root_objects_def objects_of copies_of)
  then obtain into where "k = DeepCopyObject (DeepCopy into)" "(t, into) \<in> set
      [(Capp_type X, Capp_DeepCopyInto D),
       (CappConfig_type X, CappConfig_DeepCopyInto D),
       (CappConfigList_type X, CappConfigList_DeepCopyInto D),
       (CappList_type X, CappList_DeepCopyInto D),
       (CappRevision_type X, CappRevision_DeepCopyInto D),
       (CappRevisionList_type X, CappRevisionList_DeepCopyInto D)]"
    by auto
  moreover from this(2) have "deep_copies t into" using assms(1) by (auto simp: deep)
  ultimately show thesis using that by blast
qed

text \<open>
  C28: what the informer cache hands out can be edited after \<open>DeepCopyObject\<close>: for an object of the
  group, or a list of them, the copy is a pointer of its own, it reads the same whatever is written
  to the cells of the original, and the original reads the same whatever is written to the cells of
  the copy; the copy of a nil pointer is a nil interface.
\<close>

theorem DeepCopyObject_separates:
  assumes "library_copies X D" "(t, k) \<in> set (root_objects X D)"
  shows "k NilRef h = (Ok None, h)
    \<and> (rd (TPtr t) h (PtrTo a) = Some x \<longrightarrow>
        (\<exists>b new. k (PtrTo a) h = (Ok (Some (PtrTo b)), h @ new) \<and> length h \<le> b
          \<and> (\<forall>old. length old = length h \<longrightarrow> rd (TPtr t) (old @ new) (PtrTo b) = Some x)
          \<and> (\<forall>new'. rd (TPtr t) (h @ new') (PtrTo a) = Some x)))"
proof -
  from assms(2) obtain into where k: "k = DeepCopyObject (DeepCopy into)" and into: "deep_copies t into"
    by (rule root_objectE [OF assms(1)])
  have "k NilRef h = (Ok None, h)" by (simp add: k DeepCopyObject_def DeepCopy_def run)
  moreover have "\<exists>b new. k (PtrTo a) h = (Ok (Some (PtrTo b)), h @ new) \<and> length h \<le> b
      \<and> (\<forall>old. length old = length h \<longrightarrow> rd (TPtr t) (old @ new) (PtrTo b) = Some x)
      \<and> (\<forall>new'. rd (TPtr t) (h @ new') (PtrTo a) = Some x)"
    if "rd (TPtr t) h (PtrTo a) = Some x"
    unfolding k using DeepCopyObject_run [OF into that] rd_append [OF that] by blast
  ultimately show ?thesis by blast
qed

theorem DeepCopyObject_separates_witness:
  "let h = [Var (Struct [''TypeMeta'' \<mapsto> Prim ''CappList'', ''ListMeta'' \<mapsto> Prim ''7'', ''Items'' \<mapsto> SliceOf 1 0 0]), Arr []];
       k = CappList_DeepCopyObject copiers_sample
   in k NilRef h = (Ok None, h) \<and> (\<exists>b new. k (PtrTo 0) h = (Ok (Some (PtrTo b)), h @ new) \<and> length h \<le> b)"
proof -
  let ?h = "[Var (Struct [''TypeMeta'' \<mapsto> Prim ''CappList'', ''ListMeta'' \<mapsto> Prim ''7'', ''Items'' \<mapsto> SliceOf 1 0 0]), Arr []]"
  have "(CappList_type library_sample, CappList_DeepCopyObject copiers_sample) \<in> set (root_objects library_sample copiers_sample)"
    by (simp add: root_objects_def)
  note separates = DeepCopyObject_separates [OF library_copies_sample this, of ?h 0
    "To (Node [(''TypeMeta'', Leaf ''CappList''), (''ListMeta'', Leaf ''7''), (''Items'', Elems [])])"]
  have "rd (TPtr (CappList_type library_sample)) ?h (PtrTo 0)
      = Some (To (Node [(''TypeMeta'', Leaf ''CappList''), (''ListMeta'', Leaf ''7''), (''Items'', Elems [])]))"
    by (simp add: cell_at_def CappList_type_def library_sample_def)
  with separates show ?thesis unfolding Let_def by blast
qed

end
