(* ===== verification/StartUp.thy ===== *)
theory StartUp
  imports GoPrelude
begin

text \<open>
  The start of the process: \<open>cmd/main.go\<close> and the registration of the API group,
  \<open>api/v1alpha1/groupversion_info.go\<close>. The state is the scheme and the list of the calls made so
  far; the calls into controller-runtime succeed or fail as the parameter \<open>su_Fails\<close> says.
\<close>

section \<open>Flags and options\<close>

text \<open>The variables of \<open>main\<close> after \<open>flag.Parse\<close>.\<close>

record flags =
  metricsAddr :: string
  enableLeaderElection :: bool
  probeAddr :: string
  ecsLogging :: bool
  logVerbosity :: int
  secureMetrics :: bool
  enableHTTP2 :: bool

definition default_flags :: flags where
  "default_flags = \<lparr> metricsAddr = '':8080'', enableLeaderElection = False, probeAddr = '':8081'',
     ecsLogging = True, logVerbosity = 0, secureMetrics = True, enableHTTP2 = False \<rparr>"

datatype level = InfoLevel | DebugLevel

datatype logger = EcsLogger level | ZapLogger level

text \<open>\<open>mo_TLSOpts\<close> counts the functions in \<open>tlsOpts\<close>, \<open>mo_FilterProvider\<close> names the filter.\<close>

record manager_options =
  mo_BindAddress :: string
  mo_SecureServing :: bool
  mo_TLSOpts :: nat
  mo_FilterProvider :: "string option"
  mo_HealthProbeBindAddress :: string
  mo_LeaderElection :: bool
  mo_LeaderElectionID :: string

section \<open>Calls and the process\<close>

datatype webhook = CappValidator | CappMutator

datatype controller = CappReconciler | CappRevisionReconciler

datatype call =
  AddToScheme string
| SetLogger logger
| GetConfigOrDie
| NewManager manager_options
| GetEventRecorder string
| SetupController controller
| GetWebhookServer
| Register string webhook
| AddHealthzCheck string
| AddReadyzCheck string
| Info string
| Error string
| Start

text \<open>A scheme: group, version and kind of the types it knows.\<close>

type_synonym scheme = "(string \<times> string \<times> string) list"

record process =
  p_calls :: "call list"
  p_scheme :: scheme

text \<open>
  \<open>su_AddToScheme\<close> are the \<open>AddToScheme\<close> of the other modules, by name, \<open>su_MetaKinds\<close> the kinds
  that \<open>metav1.AddToGroupVersion\<close> adds to a group, and \<open>su_Fails\<close> the error of a call after the
  calls before it.
\<close>

record startup_lib =
  su_AddToScheme :: "string \<Rightarrow> scheme \<Rightarrow> scheme result"
  su_MetaKinds :: "string list"
  su_Fails :: "call list \<Rightarrow> call \<Rightarrow> go_error option"

text \<open>\<open>os.Exit\<close> ends the process with a status, or \<open>main\<close> returns.\<close>

datatype ending = Returned | Exit nat

type_synonym 'a stage = "(process, 'a) action"

text \<open>A call without an error result, and one that may fail.\<close>

definition enact :: "call \<Rightarrow> unit stage" where
  "enact c p = (Ok (), p\<lparr>p_calls := p_calls p @ [c]\<rparr>)"

definition perform :: "startup_lib \<Rightarrow> call \<Rightarrow> unit stage" where
  "perform l c p =
     (case su_Fails l (p_calls p) c of
        None \<Rightarrow> Ok ()
      | Some e \<Rightarrow> Err e, p\<lparr>p_calls := p_calls p @ [c]\<rparr>)"

section \<open>groupversion_info.go\<close>

definition GroupVersion :: "string \<times> string" where
  "GroupVersion = (''rcs.dana.io'', ''v1alpha1'')"

definition AddKnownTypes :: "string \<times> string \<Rightarrow> string list \<Rightarrow> scheme \<Rightarrow> scheme" where
  "AddKnownTypes gv kinds s = s @ map (\<lambda>k. (fst gv, snd gv, k)) kinds"

definition addKnownTypes :: "startup_lib \<Rightarrow> scheme \<Rightarrow> scheme result" where
  "addKnownTypes l s =
     Ok (AddKnownTypes GroupVersion (su_MetaKinds l)
          (AddKnownTypes GroupVersion
            [''Capp'', ''CappList'', ''CappConfig'', ''CappConfigList'',
             ''CappRevision'', ''CappRevisionList''] s))"

section \<open>main.go: init\<close>

definition addToScheme :: "startup_lib \<Rightarrow> string \<Rightarrow> scheme \<Rightarrow> scheme result" where
  "addToScheme l m = (if m = ''cappv1alpha1'' then addKnownTypes l else su_AddToScheme l m)"

text \<open>\<open>utilruntime.Must\<close> panics on an error.\<close>

definition must :: "startup_lib \<Rightarrow> string \<Rightarrow> unit stage" where
  "must l m p =
     (let p' = p\<lparr>p_calls := p_calls p @ [AddToScheme m]\<rparr>
      in case addToScheme l m (p_scheme p) of
           Ok s \<Rightarrow> (Ok (), p'\<lparr>p_scheme := s\<rparr>)
         | Err e \<Rightarrow> (Panic (err_text e), p')
         | Panic e \<Rightarrow> (Panic e, p'))"

definition scheme_modules :: "string list" where
  "scheme_modules =
     [''clientgoscheme'', ''knativev1'', ''loggingv1beta1'', ''knativev1beta1'', ''cappv1alpha1'',
      ''nfspvcv1alpha1'', ''cmapi'', ''dnsrecordv1alpha1'', ''eventingv1'', ''kafkasourcev1'']"

definition initScheme :: "startup_lib \<Rightarrow> unit stage" where
  "initScheme l = forEach (must l) scheme_modules"

section \<open>main.go: main\<close>

definition initEcsLogger :: "level \<Rightarrow> unit stage" where
  "initEcsLogger lvl = enact (SetLogger (EcsLogger lvl))"

definition logLevel :: "flags \<Rightarrow> level" where
  "logLevel fl = (if logVerbosity fl > 0 then DebugLevel else InfoLevel)"

definition setUpLogging :: "flags \<Rightarrow> unit stage" where
  "setUpLogging fl =
     (if ecsLogging fl then initEcsLogger (logLevel fl) else enact (SetLogger (ZapLogger (logLevel fl))))"

text \<open>\<open>tlsOpts\<close> is declared and never assigned.\<close>

definition managerOptions :: "flags \<Rightarrow> manager_options" where
  "managerOptions fl = \<lparr>
     mo_BindAddress = metricsAddr fl,
     mo_SecureServing = secureMetrics fl,
     mo_TLSOpts = 0,
     mo_FilterProvider =
       (if secureMetrics fl then Some ''WithAuthenticationAndAuthorization'' else None),
     mo_HealthProbeBindAddress = probeAddr fl,
     mo_LeaderElection = enableLeaderElection fl,
     mo_LeaderElectionID = ''2c7d2533.rcs.dana.io'' \<rparr>"

text \<open>
  \<open>if err != nil { setupLog.Error(err, msg); os.Exit(1) }\<close>; \<open>GetConfigOrDie\<close> ends the process so
  itself.
\<close>

definition fatal :: "string \<Rightarrow> ending stage" where
  "fatal msg = andThen (enact (Error msg)) (\<lambda>_. ok (Exit 1))"

definition orExit :: "startup_lib \<Rightarrow> call \<Rightarrow> string \<Rightarrow> ending stage \<Rightarrow> ending stage" where
  "orExit l c msg rest = handle (perform l c) (\<lambda>_. fatal msg) (\<lambda>_. rest)"

definition registerWebhooks :: "(string \<Rightarrow> string) \<Rightarrow> unit stage" where
  "registerWebhooks Getenv =
     (if Getenv ''ENABLE_WEBHOOKS'' \<noteq> ''false''
      then andThen (enact GetWebhookServer) (\<lambda>_.
           andThen (enact (Register ''/validate-capp'' CappValidator)) (\<lambda>_.
           enact (Register ''/mutate-capp'' CappMutator)))
      else ok ())"

definition main :: "startup_lib \<Rightarrow> (string \<Rightarrow> string) \<Rightarrow> flags \<Rightarrow> ending stage" where
  "main l Getenv fl =
     andThen (setUpLogging fl) (\<lambda>_.
     orExit l GetConfigOrDie ''unable to get kubeconfig'' (
     orExit l (NewManager (managerOptions fl)) ''unable to start manager'' (
     andThen (enact (GetEventRecorder ''container-app-controller'')) (\<lambda>_.
     orExit l (SetupController CappReconciler) ''unable to create controller'' (
     andThen (enact (GetEventRecorder ''capprevision-controller'')) (\<lambda>_.
     orExit l (SetupController CappRevisionReconciler) ''unable to create controller'' (
     andThen (registerWebhooks Getenv) (\<lambda>_.
     orExit l (AddHealthzCheck ''healthz'') ''unable to set up health check'' (
     orExit l (AddReadyzCheck ''readyz'') ''unable to set up ready check'' (
     andThen (enact (Info ''starting manager'')) (\<lambda>_.
     orExit l Start ''problem running manager'' (ok Returned))))))))))))"

text \<open>The initialisation of the package, then \<open>main\<close>.\<close>

definition program :: "startup_lib \<Rightarrow> (string \<Rightarrow> string) \<Rightarrow> flags \<Rightarrow> ending stage" where
  "program l Getenv fl = andThen (initScheme l) (\<lambda>_. main l Getenv fl)"

section \<open>The start as a list of calls\<close>

text \<open>
  What the start amounts to: a list of calls, carried out one after the other up to the first that
  fails.
\<close>

definition webhooks_enabled :: "(string \<Rightarrow> string) \<Rightarrow> bool" where
  "webhooks_enabled Getenv \<longleftrightarrow> Getenv ''ENABLE_WEBHOOKS'' \<noteq> ''false''"

definition startup_calls :: "(string \<Rightarrow> string) \<Rightarrow> flags \<Rightarrow> call list" where
  "startup_calls Getenv fl =
     [SetLogger ((if ecsLogging fl then EcsLogger else ZapLogger) (logLevel fl)),
      GetConfigOrDie, NewManager (managerOptions fl),
      GetEventRecorder ''container-app-controller'', SetupController CappReconciler,
      GetEventRecorder ''capprevision-controller'', SetupController CappRevisionReconciler]
     @ (if webhooks_enabled Getenv
        then [GetWebhookServer, Register ''/validate-capp'' CappValidator, Register ''/mutate-capp'' CappMutator]
        else [])
     @ [AddHealthzCheck ''healthz'', AddReadyzCheck ''readyz'', Info ''starting manager'', Start]"

fun complaint :: "call \<Rightarrow> string option" where
  "complaint GetConfigOrDie = Some ''unable to get kubeconfig''"
| "complaint (NewManager os) = Some ''unable to start manager''"
| "complaint (SetupController c) = Some ''unable to create controller''"
| "complaint (AddHealthzCheck n) = Some ''unable to set up health check''"
| "complaint (AddReadyzCheck n) = Some ''unable to set up ready check''"
| "complaint Start = Some ''problem running manager''"
| "complaint c = None"

text \<open>\<open>fails l before c\<close>: the call is one that may fail and does, after the calls \<open>before\<close>.\<close>

definition fails :: "startup_lib \<Rightarrow> call list \<Rightarrow> call \<Rightarrow> bool" where
  "fails l before c \<longleftrightarrow> complaint c \<noteq> None \<and> su_Fails l before c \<noteq> None"

fun all_succeed :: "startup_lib \<Rightarrow> call list \<Rightarrow> call list \<Rightarrow> bool" where
  "all_succeed l before [] \<longleftrightarrow> True"
| "all_succeed l before (c # cs) \<longleftrightarrow> \<not> fails l before c \<and> all_succeed l (before @ [c]) cs"

fun carry_out :: "startup_lib \<Rightarrow> call list \<Rightarrow> ending stage" where
  "carry_out l [] = ok Returned"
| "carry_out l (c # cs) =
     (case complaint c of
        Some msg \<Rightarrow> orExit l c msg (carry_out l cs)
      | None \<Rightarrow> andThen (enact c) (\<lambda>_. carry_out l cs))"

lemma andThen_assoc: "andThen (andThen m f) g = andThen m (\<lambda>x. andThen (f x) g)"
  by (rule ext) (simp add: andThen_def handle_def split: prod.split result.split)

lemma andThen_ok: "andThen (ok x) f = f x"
  by (rule ext) (simp add: andThen_def handle_def)

lemma main_carries_out: "main l Getenv fl = carry_out l (startup_calls Getenv fl)"
  by (simp add: main_def setUpLogging_def initEcsLogger_def registerWebhooks_def startup_calls_def
      webhooks_enabled_def andThen_assoc andThen_ok cong: if_cong)

lemma orExit_run:
  "orExit l c msg rest p =
     (if su_Fails l (p_calls p) c = None then rest (p\<lparr>p_calls := p_calls p @ [c]\<rparr>)
      else (Ok (Exit 1), p\<lparr>p_calls := p_calls p @ [c, Error msg]\<rparr>))"
  by (simp add: orExit_def perform_def fatal_def handle_def andThen_def enact_def split: option.split)

lemma enact_run: "andThen (enact c) f p = f () (p\<lparr>p_calls := p_calls p @ [c]\<rparr>)"
  by (simp add: andThen_def handle_def enact_def)

lemma carry_out_succeeds:
  "all_succeed l (p_calls p) cs \<Longrightarrow> carry_out l cs p = (Ok Returned, p\<lparr>p_calls := p_calls p @ cs\<rparr>)"
proof (induction cs arbitrary: p)
  case (Cons c cs)
  with Cons.IH [of "p\<lparr>p_calls := p_calls p @ [c]\<rparr>"] show ?case
    by (cases "complaint c") (auto simp: enact_run orExit_run fails_def)
qed simp

lemma carry_out_stops:
  "\<not> all_succeed l (p_calls p) cs \<Longrightarrow> \<exists>before c after msg. cs = before @ c # after
     \<and> all_succeed l (p_calls p) before \<and> fails l (p_calls p @ before) c \<and> complaint c = Some msg
     \<and> carry_out l cs p = (Ok (Exit 1), p\<lparr>p_calls := p_calls p @ before @ [c, Error msg]\<rparr>)"
proof (induction cs arbitrary: p)
  case (Cons c cs)
  show ?case
  proof (cases "fails l (p_calls p) c")
    case True
    then obtain msg e where "complaint c = Some msg" "su_Fails l (p_calls p) c = Some e"
      by (auto simp: fails_def)
    with True have "c # cs = [] @ c # cs \<and> all_succeed l (p_calls p) [] \<and> fails l (p_calls p @ []) c
      \<and> complaint c = Some msg
      \<and> carry_out l (c # cs) p = (Ok (Exit 1), p\<lparr>p_calls := p_calls p @ [] @ [c, Error msg]\<rparr>)"
      by (simp add: orExit_run)
    then show ?thesis by blast
  next
    case False
    let ?p = "p\<lparr>p_calls := p_calls p @ [c]\<rparr>"
    have "carry_out l (c # cs) p = carry_out l cs ?p"
      using False by (cases "complaint c") (auto simp: fails_def orExit_run enact_run)
    moreover from Cons.prems False have "\<not> all_succeed l (p_calls ?p) cs" by simp
    from Cons.IH [OF this] obtain before d after msg where "cs = before @ d # after"
        "all_succeed l (p_calls ?p) before" "fails l (p_calls ?p @ before) d" "complaint d = Some msg"
        "carry_out l cs ?p = (Ok (Exit 1), ?p\<lparr>p_calls := p_calls ?p @ before @ [d, Error msg]\<rparr>)"
      by blast
    ultimately have "c # cs = (c # before) @ d # after \<and> all_succeed l (p_calls p) (c # before)
      \<and> fails l (p_calls p @ c # before) d \<and> complaint d = Some msg
      \<and> carry_out l (c # cs) p = (Ok (Exit 1), p\<lparr>p_calls := p_calls p @ (c # before) @ [d, Error msg]\<rparr>)"
      using False by simp
    then show ?thesis by blast
  qed
qed simp

text \<open>The flag for HTTP/2 changes nothing.\<close>

lemma enableHTTP2_ignored: "program l Getenv (fl\<lparr>enableHTTP2 := b\<rparr>) = program l Getenv fl"
  by (simp add: program_def main_carries_out startup_calls_def logLevel_def managerOptions_def)

section \<open>The scheme\<close>

text \<open>Registering a module is one call; it returns or panics.\<close>

lemma must_calls: "p_calls (snd (must l m p)) = p_calls p @ [AddToScheme m]"
  by (auto simp: must_def Let_def split: result.split)

lemma must_no_error: "fst (must l m p) \<noteq> Err e"
  by (auto simp: must_def Let_def split: result.split)

lemma forEach_must_no_error: "fst (forEach (must l) ms p) \<noteq> Err e"
proof (induction ms arbitrary: p)
  case (Cons m ms)
  show ?case
  proof (cases "must l m p")
    case (Pair r q)
    with must_no_error [of l m p] Cons.IH [of q] show ?thesis
      by (cases r) (auto simp: andThen_def handle_def)
  qed
qed simp

lemma forEach_must_calls: "set (p_calls (snd (forEach (must l) ms p))) \<subseteq> set (p_calls p) \<union> range AddToScheme"
proof (induction ms arbitrary: p)
  case (Cons m ms)
  show ?case
  proof (cases "must l m p")
    case (Pair r q)
    with must_calls [of l m p] Cons.IH [of q] show ?thesis
      by (cases r) (auto simp: andThen_def handle_def)
  qed
qed simp

text \<open>A library that only adds to the scheme, and what is in the scheme afterwards.\<close>

definition scheme_grows :: "startup_lib \<Rightarrow> bool" where
  "scheme_grows l \<longleftrightarrow> (\<forall>m s s'. su_AddToScheme l m s = Ok s' \<longrightarrow> set s \<subseteq> set s')"

definition capp_kinds :: "string list" where
  "capp_kinds = [''Capp'', ''CappList'', ''CappConfig'', ''CappConfigList'', ''CappRevision'', ''CappRevisionList'']"

definition knows_kinds :: "scheme \<Rightarrow> bool" where
  "knows_kinds s \<longleftrightarrow> (\<forall>k \<in> set capp_kinds. (fst GroupVersion, snd GroupVersion, k) \<in> set s)"

lemma scheme_growsD: "\<lbrakk>scheme_grows l; su_AddToScheme l m s = Ok s'\<rbrakk> \<Longrightarrow> set s \<subseteq> set s'"
  by (simp add: scheme_grows_def)

lemma addToScheme_adds:
  assumes "scheme_grows l" "addToScheme l m s = Ok s'"
  shows "set s \<subseteq> set s' \<and> (m = ''cappv1alpha1'' \<longrightarrow> knows_kinds s')"
proof (cases "m = ''cappv1alpha1''")
  case True
  with assms(2) have "s' = AddKnownTypes GroupVersion (su_MetaKinds l) (AddKnownTypes GroupVersion capp_kinds s)"
    by (simp add: addToScheme_def addKnownTypes_def capp_kinds_def)
  then show ?thesis by (auto simp: AddKnownTypes_def knows_kinds_def)
next
  case False
  with assms scheme_growsD [OF assms(1), of m s s'] show ?thesis by (simp add: addToScheme_def)
qed

lemma must_scheme:
  assumes "scheme_grows l" "must l m p = (Ok (), q)"
  shows "set (p_scheme p) \<subseteq> set (p_scheme q) \<and> (m = ''cappv1alpha1'' \<longrightarrow> knows_kinds (p_scheme q))"
proof -
  from assms(2) have "addToScheme l m (p_scheme p) = Ok (p_scheme q)"
    by (auto simp: must_def Let_def split: result.splits)
  with assms(1) show ?thesis by (rule addToScheme_adds)
qed

lemma forEach_must_scheme:
  assumes "scheme_grows l"
  shows "\<lbrakk>forEach (must l) ms p = (Ok (), q); ''cappv1alpha1'' \<in> set ms \<or> knows_kinds (p_scheme p)\<rbrakk> \<Longrightarrow>
    knows_kinds (p_scheme q)"
proof (induction ms arbitrary: p)
  case (Cons m ms)
  from Cons.prems(1) obtain p' where p': "must l m p = (Ok (), p')" "forEach (must l) ms p' = (Ok (), q)"
    by (auto simp: andThen_eq_Ok)
  with must_scheme [OF assms p'(1)] Cons.prems(2) show ?case
    by (intro Cons.IH [OF p'(2)]) (auto simp: knows_kinds_def)
qed simp

text \<open>
  Registering a list of modules in their order, as a function on the scheme, and what the
  process does for it: it stops with a panic at the first module that cannot be registered.
\<close>

fun register :: "startup_lib \<Rightarrow> string list \<Rightarrow> scheme \<Rightarrow> scheme result" where
  "register l [] s = Ok s"
| "register l (m # ms) s =
     (case addToScheme l m s of Ok s' \<Rightarrow> register l ms s' | Err e \<Rightarrow> Err e | Panic e \<Rightarrow> Panic e)"

definition registering :: "string list \<Rightarrow> scheme \<Rightarrow> process \<Rightarrow> process" where
  "registering ms s p = p\<lparr>p_calls := p_calls p @ map AddToScheme ms, p_scheme := s\<rparr>"

lemma must_run:
  "must l m p =
     (case addToScheme l m (p_scheme p) of
        Ok s \<Rightarrow> (Ok (), registering [m] s p)
      | Err e \<Rightarrow> (Panic (err_text e), registering [m] (p_scheme p) p)
      | Panic e \<Rightarrow> (Panic e, registering [m] (p_scheme p) p))"
  by (simp add: must_def registering_def split: result.split)

lemma registering_Cons: "registering ms s (registering [m] s' p) = registering (m # ms) s p"
  by (simp add: registering_def)

lemma register_ok:
  "register l ms (p_scheme p) = Ok s \<Longrightarrow> forEach (must l) ms p = (Ok (), registering ms s p)"
proof (induction ms arbitrary: p)
  case Nil
  then show ?case by (simp add: registering_def)
next
  case (Cons m ms)
  then obtain s' where s': "addToScheme l m (p_scheme p) = Ok s'" "register l ms s' = Ok s"
    by (auto split: result.splits)
  then have "must l m p = (Ok (), registering [m] s' p)" by (simp add: must_run)
  with Cons.IH [of "registering [m] s' p"] s'(2) show ?case
    by (simp add: run registering_Cons) (simp add: registering_def)
qed

lemma register_fails:
  assumes "\<And>s. register l ms (p_scheme p) \<noteq> Ok s"
  shows "\<exists>before m after s. ms = before @ m # after \<and> register l before (p_scheme p) = Ok s
     \<and> addToScheme l m s = register l ms (p_scheme p)
     \<and> forEach (must l) ms p =
         (case addToScheme l m s of Err e \<Rightarrow> Panic (err_text e) | Panic e \<Rightarrow> Panic e | Ok _ \<Rightarrow> Ok (),
          registering (before @ [m]) s p)"
  using assms
proof (induction ms arbitrary: p)
  case Nil
  from Nil [of "p_scheme p"] show ?case by simp
next
  case (Cons m ms)
  show ?case
  proof (cases "addToScheme l m (p_scheme p)")
    case (Ok s')
    let ?p = "registering [m] s' p"
    have p: "p_scheme ?p = s'" by (simp add: registering_def)
    from Cons.prems Ok have "\<And>s. register l ms (p_scheme ?p) \<noteq> Ok s" by (simp add: p)
    from Cons.IH [OF this] obtain before n after s where IH: "ms = before @ n # after"
        "register l before s' = Ok s" "addToScheme l n s = register l ms s'"
        "forEach (must l) ms ?p =
           (case addToScheme l n s of Err e \<Rightarrow> Panic (err_text e) | Panic e \<Rightarrow> Panic e | Ok _ \<Rightarrow> Ok (),
            registering (before @ [n]) s ?p)"
      unfolding p by blast
    have "must l m p = (Ok (), ?p)" using Ok by (simp add: must_run)
    with IH Ok show ?thesis
      by (intro exI [of _ "m # before"] exI [of _ n] exI [of _ after] exI [of _ s])
        (simp add: run registering_Cons)
  next
    case (Err e)
    then show ?thesis
      by (intro exI [of _ "[]"] exI [of _ m] exI [of _ ms] exI [of _ "p_scheme p"]) (simp add: run must_run)
  next
    case (Panic e)
    then show ?thesis
      by (intro exI [of _ "[]"] exI [of _ m] exI [of _ ms] exI [of _ "p_scheme p"]) (simp add: run must_run)
  qed
qed

lemma program_cases:
  "case initScheme l p of
     (Err e, p1) \<Rightarrow> False
   | (Panic e, p1) \<Rightarrow> program l Getenv fl p = (Panic e, p1)
   | (Ok _, p1) \<Rightarrow>
       (all_succeed l (p_calls p1) (startup_calls Getenv fl)
        \<and> program l Getenv fl p = (Ok Returned, p1\<lparr>p_calls := p_calls p1 @ startup_calls Getenv fl\<rparr>))
     \<or> (\<exists>before c after msg. startup_calls Getenv fl = before @ c # after
        \<and> all_succeed l (p_calls p1) before \<and> fails l (p_calls p1 @ before) c \<and> complaint c = Some msg
        \<and> program l Getenv fl p = (Ok (Exit 1), p1\<lparr>p_calls := p_calls p1 @ before @ [c, Error msg]\<rparr>))"
proof (cases "initScheme l p")
  case (Pair r p1)
  let ?cs = "startup_calls Getenv fl"
  show ?thesis
  proof (cases r)
    case (Ok u)
    with Pair have "program l Getenv fl p = carry_out l ?cs p1"
      by (simp add: program_def main_carries_out run)
    with Pair Ok carry_out_succeeds [of l p1 ?cs] carry_out_stops [of l p1 ?cs] show ?thesis
      by (cases "all_succeed l (p_calls p1) ?cs") auto
  next
    case (Err e)
    with Pair forEach_must_no_error [of l scheme_modules p e] show ?thesis by (simp add: initScheme_def)
  next
    case (Panic e)
    with Pair show ?thesis by (simp add: program_def run)
  qed
qed

lemma Start_is_last:
  assumes "startup_calls Getenv fl = before @ c # after" "Start \<in> set (before @ [c])"
  shows "after = []"
proof (rule ccontr)
  assume "after \<noteq> []"
  then have "before @ [c] @ butlast after = butlast (startup_calls Getenv fl)"
    using assms(1) by (simp add: butlast_append)
  then have "set (before @ [c]) \<subseteq> set (butlast (startup_calls Getenv fl))" by (metis append_assoc set_append Un_upper1)
  with assms(2) have "Start \<in> set (butlast (startup_calls Getenv fl))" by blast
  then show False by (auto simp: startup_calls_def butlast_append split: if_splits)
qed

lemma started:
  assumes grows: "scheme_grows l"
    and run: "program l Getenv fl \<lparr>p_calls = [], p_scheme = []\<rparr> = (r, p)" and start: "Start \<in> set (p_calls p)"
  shows "\<exists>(p1 :: process) tail. knows_kinds (p_scheme p) \<and> p_calls p = p_calls p1 @ startup_calls Getenv fl @ tail
    \<and> set (p_calls p1) \<subseteq> range AddToScheme \<and> set tail \<subseteq> range Error"
proof (cases "initScheme l \<lparr>p_calls = [], p_scheme = []\<rparr>")
  case (Pair u p1)
  have calls: "set (p_calls p1) \<subseteq> range AddToScheme"
    using forEach_must_calls [of l scheme_modules "\<lparr>p_calls = [], p_scheme = []\<rparr>"] Pair
    by (simp add: initScheme_def)
  note result = program_cases [where l = l and p = "\<lparr>p_calls = [], p_scheme = []\<rparr>" and Getenv = Getenv and fl = fl,
    unfolded Pair run prod.case]
  show ?thesis
  proof (cases u)
    case (Ok x)
    then have "knows_kinds (p_scheme p1)"
      using forEach_must_scheme [OF grows, of scheme_modules _ p1] Pair
      by (simp add: initScheme_def scheme_modules_def)
    moreover obtain tail where "p = p1\<lparr>p_calls := p_calls p1 @ startup_calls Getenv fl @ tail\<rparr>" "set tail \<subseteq> range Error"
    proof -
      from result Ok consider "p = p1\<lparr>p_calls := p_calls p1 @ startup_calls Getenv fl\<rparr>"
        | before c after msg where "startup_calls Getenv fl = before @ c # after"
            "p = p1\<lparr>p_calls := p_calls p1 @ before @ [c, Error msg]\<rparr>" by auto
      then show thesis
      proof cases
        case 1
        then show thesis by (intro that [of "[]"]) simp_all
      next
        case 2
        with start calls have "Start \<in> set (before @ [c])" by auto
        with 2(1) have "after = []" by (rule Start_is_last)
        with 2 show thesis by (intro that [of "[Error msg]"]) simp_all
      qed
    qed
    ultimately have "knows_kinds (p_scheme p) \<and> p_calls p = p_calls p1 @ startup_calls Getenv fl @ tail
      \<and> set (p_calls p1) \<subseteq> range AddToScheme \<and> set tail \<subseteq> range Error" using calls by simp
    then show ?thesis by blast
  next
    case (Err e)
    with result show ?thesis by simp
  next
    case (Panic e)
    with result start calls show ?thesis by auto
  qed
qed

section \<open>Properties\<close>

text \<open>
  C37: the process starts completely or not at all. The modules are registered in their order; if
  one cannot be, the process panics with its error before \<open>main\<close>, and makes no further call.
  Otherwise the calls of the start are made in their order; if none fails \<open>main\<close>
  returns, and the first that fails is the last one made: its error is logged under the message
  that belongs to it and the process exits with status 1.
\<close>

theorem start_up_all_or_nothing:
  "case register l scheme_modules (p_scheme p) of
     Ok s \<Rightarrow>
       (let p1 = registering scheme_modules s p in
          (all_succeed l (p_calls p1) (startup_calls Getenv fl)
           \<and> program l Getenv fl p = (Ok Returned, p1\<lparr>p_calls := p_calls p1 @ startup_calls Getenv fl\<rparr>))
        \<or> (\<exists>before c after msg. startup_calls Getenv fl = before @ c # after
           \<and> all_succeed l (p_calls p1) before \<and> fails l (p_calls p1 @ before) c \<and> complaint c = Some msg
           \<and> program l Getenv fl p = (Ok (Exit 1), p1\<lparr>p_calls := p_calls p1 @ before @ [c, Error msg]\<rparr>)))
   | Err e \<Rightarrow>
       \<exists>before m after s. scheme_modules = before @ m # after
         \<and> register l before (p_scheme p) = Ok s \<and> addToScheme l m s = Err e
         \<and> program l Getenv fl p = (Panic (err_text e), registering (before @ [m]) s p)
   | Panic e \<Rightarrow>
       \<exists>before m after s. scheme_modules = before @ m # after
         \<and> register l before (p_scheme p) = Ok s \<and> addToScheme l m s = Panic e
         \<and> program l Getenv fl p = (Panic e, registering (before @ [m]) s p)"
proof (cases "register l scheme_modules (p_scheme p)")
  case (Ok s)
  with register_ok [OF Ok] program_cases [where l = l and p = p] show ?thesis
    by (simp add: initScheme_def Let_def)
next
  case (Err e)
  with register_fails [of l scheme_modules p] obtain before m after s where
      "scheme_modules = before @ m # after" "register l before (p_scheme p) = Ok s" "addToScheme l m s = Err e"
      "forEach (must l) scheme_modules p = (Panic (err_text e), registering (before @ [m]) s p)" by auto
  with Err show ?thesis
    by (auto simp: program_def initScheme_def run simp del: forEach.simps)
next
  case (Panic e)
  with register_fails [of l scheme_modules p] obtain before m after s where
      "scheme_modules = before @ m # after" "register l before (p_scheme p) = Ok s" "addToScheme l m s = Panic e"
      "forEach (must l) scheme_modules p = (Panic e, registering (before @ [m]) s p)" by auto
  with Panic show ?thesis
    by (auto simp: program_def initScheme_def run simp del: forEach.simps)
qed

text \<open>
  C38: a manager that is started is ready. When \<open>Start\<close> is called, the scheme knows the six kinds
  of the group, both controllers and both checks have been set up, exactly the two webhooks are
  registered under their paths unless \<open>ENABLE_WEBHOOKS\<close> is \<open>false\<close>, in which case none is, and the
  metrics endpoint has the filter for authentication and authorization if and only if it is served
  securely, as the flag says.
\<close>

theorem manager_starts_ready:
  assumes "scheme_grows l"
    and "program l Getenv fl \<lparr>p_calls = [], p_scheme = []\<rparr> = (r, p)" "Start \<in> set (p_calls p)"
  shows "knows_kinds (p_scheme p)
    \<and> SetupController CappReconciler \<in> set (p_calls p) \<and> SetupController CappRevisionReconciler \<in> set (p_calls p)
    \<and> AddHealthzCheck ''healthz'' \<in> set (p_calls p) \<and> AddReadyzCheck ''readyz'' \<in> set (p_calls p)
    \<and> {(path, h). Register path h \<in> set (p_calls p)} =
        (if Getenv ''ENABLE_WEBHOOKS'' = ''false'' then {}
         else {(''/validate-capp'', CappValidator), (''/mutate-capp'', CappMutator)})
    \<and> (\<exists>opts. {os. NewManager os \<in> set (p_calls p)} = {opts}
         \<and> mo_SecureServing opts = secureMetrics fl
         \<and> mo_FilterProvider opts = (if secureMetrics fl then Some ''WithAuthenticationAndAuthorization'' else None))"
proof -
  from started [OF assms] obtain p1 :: process and tail where p: "knows_kinds (p_scheme p)"
    "p_calls p = p_calls p1 @ startup_calls Getenv fl @ tail"
    "set (p_calls p1) \<subseteq> range AddToScheme" "set tail \<subseteq> range Error" by blast
  have calls: "c \<in> set (p_calls p) \<longleftrightarrow> c \<in> set (startup_calls Getenv fl)"
    if "c \<notin> range AddToScheme" "c \<notin> range Error" for c
    using p(2-4) that by auto
  have registered: "{(path, h). Register path h \<in> set (p_calls p)} =
      (if Getenv ''ENABLE_WEBHOOKS'' = ''false'' then {}
       else {(''/validate-capp'', CappValidator), (''/mutate-capp'', CappMutator)})"
    by (auto simp: calls startup_calls_def webhooks_enabled_def image_iff)
  have options: "{os. NewManager os \<in> set (p_calls p)} = {managerOptions fl}"
    by (auto simp: calls startup_calls_def image_iff)
  have others: "c \<in> set (p_calls p)"
    if "c \<in> {SetupController CappReconciler, SetupController CappRevisionReconciler,
      AddHealthzCheck ''healthz'', AddReadyzCheck ''readyz''}" for c
    using that by (auto simp: p(2) startup_calls_def)
  show ?thesis
    unfolding registered options
    by (intro conjI p(1) refl others exI [of _ "managerOptions fl"]) (simp_all add: managerOptions_def)
qed

definition startup_sample :: startup_lib where
  "startup_sample = \<lparr> su_AddToScheme = (\<lambda>m s. Ok ((m, ''v1'', ''List'') # s)), su_MetaKinds = [''WatchEvent''],
     su_Fails = (\<lambda>before c. if c = Start then Some (new_error ''lost lease'') else None) \<rparr>"

lemma initScheme_sample: "\<exists>q. forEach (must startup_sample) ms p = (Ok (), q)"
proof (induction ms arbitrary: p)
  case (Cons m ms)
  have "\<exists>q. must startup_sample m p = (Ok (), q)"
    by (simp add: must_def addToScheme_def addKnownTypes_def startup_sample_def)
  with Cons.IH show ?case by (auto simp: andThen_def handle_def)
qed simp

theorem manager_starts_ready_witness:
  "Start \<in> set (p_calls (snd (program startup_sample (\<lambda>_. []) default_flags \<lparr>p_calls = [], p_scheme = []\<rparr>)))
   \<and> knows_kinds (p_scheme (snd (program startup_sample (\<lambda>_. []) default_flags \<lparr>p_calls = [], p_scheme = []\<rparr>)))"
proof -
  have grows: "scheme_grows startup_sample" by (auto simp: scheme_grows_def startup_sample_def)
  have "Start \<in> set (p_calls (snd (program startup_sample (\<lambda>_. []) default_flags \<lparr>p_calls = [], p_scheme = []\<rparr>)))"
  proof -
    let ?p = "\<lparr>p_calls = [], p_scheme = []\<rparr>"
    obtain q where q: "initScheme startup_sample ?p = (Ok (), q)"
      using initScheme_sample unfolding initScheme_def by blast
    have "program startup_sample (\<lambda>_. []) default_flags ?p = carry_out startup_sample (startup_calls (\<lambda>_. []) default_flags) q"
      by (simp add: program_def main_carries_out andThen_def handle_def q)
    then show ?thesis
      by (simp add: startup_calls_def webhooks_enabled_def orExit_run enact_run startup_sample_def)
  qed
  with manager_starts_ready [OF grows prod.collapse [symmetric] this] show ?thesis by blast
qed

end
