(* ===== verification/DecimalText.thy ===== *)
theory DecimalText
  imports GoPrelude
begin

text \<open>
  Reading back the numbers that \<open>%d\<close> and \<open>%05d\<close> write: a decimal number with an optional
  sign in front.
\<close>

definition read_digits :: "string \<Rightarrow> int" where
  "read_digits s = foldl (\<lambda>n d. 10 * n + (of_char d - 48)) 0 s"

fun read_number :: "string \<Rightarrow> int" where
  "read_number [] = 0"
| "read_number (ch # s) = (if ch = CHR ''-'' then - read_digits s else read_digits (ch # s))"

lemma digit_value: "d < 10 \<Longrightarrow> (of_char (digit d) :: int) = int d + 48"
  unfolding digit_def of_nat_of_char [symmetric, where 'a = int] by simp

lemma read_dec_nat: "foldl (\<lambda>n d. 10 * n + (of_char d - 48)) 0 (dec_nat n) = int n"
proof (induction n rule: dec_nat.induct)
  case (1 n)
  show ?case
  proof (cases "n < 10")
    case True
    then show ?thesis by (simp add: dec_nat.simps [of n] digit_value)
  next
    case False
    with 1 have "foldl (\<lambda>n d. 10 * n + (of_char d - 48)) 0 (dec_nat (n div 10)) = int (n div 10)"
      by simp
    with False show ?thesis
      by (simp add: dec_nat.simps [of n] digit_value) presburger
  qed
qed

lemma read_zero_pad: "read_digits (zero_pad m (dec_nat n)) = int n"
proof -
  have "foldl (\<lambda>n d. 10 * n + (of_char d - 48)) (0 :: int) (replicate j (CHR ''0'')) = 0" for j
    by (induction j) simp_all
  then show ?thesis by (simp add: read_digits_def zero_pad_def read_dec_nat)
qed

lemma dec_nat_digits: "set (dec_nat n) \<subseteq> digit ` {..<10}"
proof (induction n rule: dec_nat.induct)
  case (1 n)
  then show ?case by (auto simp: dec_nat.simps [of n])
qed

lemma digit_no_sign: "d < 10 \<Longrightarrow> digit d \<noteq> CHR ''-''"
proof
  assume d: "d < 10" and "digit d = CHR ''-''"
  then have "(of_char (digit d) :: int) = of_char (CHR ''-'')" by simp
  with d show False by (simp add: digit_value)
qed

lemma dec_nat_no_sign: "CHR ''-'' \<notin> set (dec_nat n)"
proof
  assume "CHR ''-'' \<in> set (dec_nat n)"
  with dec_nat_digits have "CHR ''-'' \<in> digit ` {..<10}" by (rule subsetD)
  then obtain d where "CHR ''-'' = digit d" "d \<in> {..<10}" by (rule imageE)
  with digit_no_sign [of d] show False by simp
qed

lemma read_unsigned: "CHR ''-'' \<notin> set s \<Longrightarrow> read_number s = read_digits s"
  by (cases s) (auto simp: read_digits_def)

lemma read_fmt_d: "read_number (fmt_d w) = sint w"
  using read_zero_pad [of 0 "nat (sint w)"] read_zero_pad [of 0 "nat (- sint w)"]
  by (simp add: fmt_d_def dec_int_def zero_pad_def read_unsigned dec_nat_no_sign)

lemma read_fmt_05d: "read_number (fmt_05d w) = sint w"
proof (cases "sint w < 0")
  case False
  have "CHR ''-'' \<notin> set (zero_pad 5 (dec_nat (nat (sint w))))"
    by (simp add: zero_pad_def dec_nat_no_sign)
  with False show ?thesis by (simp add: fmt_05d_def read_unsigned read_zero_pad)
qed (simp add: fmt_05d_def read_zero_pad)

end
