(* ===== verification/Schema.thy ===== *)
theory Schema
  imports WebhookAdmission CappController CappRevisionController DecimalText
begin

text \<open>
  The schema that the markers of \<open>api/v1alpha1\<close> give to the API server: the kubebuilder defaults,
  limits, patterns and CEL rules of a Capp and of the CappConfig, as predicates of the Go values. An
  optional field that is absent is the zero value. Then what the schema and the webhooks together
  guarantee to the managers, and that the operator's own writes pass its webhooks.
\<close>

section \<open>The rules\<close>

text \<open>\<open>Minimum=n\<close>, for an optional field.\<close>

definition at_least :: "int \<Rightarrow> 'w::len word option \<Rightarrow> bool" where
  "at_least n x \<longleftrightarrow> (case x of None \<Rightarrow> True | Some y \<Rightarrow> n \<le> sint y)"

text \<open>The number of characters of a text in UTF-8, which is what \<open>MaxLength\<close> limits.\<close>

definition characters :: "string \<Rightarrow> nat" where
  "characters s = length (filter (\<lambda>c. of_char c div 64 \<noteq> (2 :: nat)) s)"

text \<open>The pattern \<open>^[a-z0-9]([-a-z0-9]*[a-z0-9])?$\<close>.\<close>

definition alphanumerics :: string where
  "alphanumerics = ''abcdefghijklmnopqrstuvwxyz0123456789''"

definition label_pattern :: "string \<Rightarrow> bool" where
  "label_pattern s \<longleftrightarrow> s \<noteq> [] \<and> list_all (\<lambda>c. c \<in> set (''-'' @ alphanumerics)) s
     \<and> hd s \<in> set alphanumerics \<and> last s \<in> set alphanumerics"

definition schema_scale :: "scale_spec \<Rightarrow> bool" where
  "schema_scale s \<longleftrightarrow>
     sc_Metric s \<in> {''cpu'', ''memory'', ''rps'', ''concurrency''}
     \<and> at_least 0 (sc_MinReplicas s) \<and> at_least 1 (sc_MaxReplicas s)
     \<and> at_least 0 (sc_ScaleDelaySeconds s)"

definition schema_kafka :: "kafka_source_configuration \<Rightarrow> bool" where
  "schema_kafka k \<longleftrightarrow>
     kc_SecretRefName k \<noteq> [] \<and> kc_BootstrapServers k \<noteq> [] \<and> kc_Topics k \<noteq> []
     \<and> at_least 1 (kc_Consumers k)"

text \<open>\<open>relative\<close> says of a serialised URL that its text starts with a slash.\<close>

definition schema_source :: "(opaque \<Rightarrow> bool) \<Rightarrow> source_configuration \<Rightarrow> bool" where
  "schema_source relative s \<longleftrightarrow>
     src_Name s \<noteq> []
     \<and> (src_Ping s \<noteq> None \<and> src_Kafka s = None \<or> src_Ping s = None \<and> src_Kafka s \<noteq> None)
     \<and> (case src_URI s of None \<Rightarrow> True | Some u \<Rightarrow> relative u)
     \<and> (case src_Kafka s of None \<Rightarrow> True | Some k \<Rightarrow> schema_kafka k)"

definition schema_volume :: "nfs_volume \<Rightarrow> bool" where
  "schema_volume v \<longleftrightarrow>
     nfs_Server v \<noteq> [] \<and> nfs_Path v \<noteq> [] \<and> HasPrefix (nfs_Path v) ''/''
     \<and> characters (nfs_Name v) \<ge> 1 \<and> characters (nfs_Name v) \<le> 63 \<and> label_pattern (nfs_Name v)"

definition schema_route :: "route_spec \<Rightarrow> bool" where
  "schema_route r \<longleftrightarrow> \<not> rt_TlsEnabled r \<or> rt_Hostname r \<noteq> []"

definition schema_log :: "log_spec \<Rightarrow> bool" where
  "schema_log s \<longleftrightarrow>
     log_Type s \<in> {[], LogTypeElastic, LogTypeElasticDataStream}
     \<and> (log_Type s \<noteq> LogTypeElastic
        \<or> log_Host s \<noteq> [] \<and> log_Index s \<noteq> [] \<and> log_User s \<noteq> [] \<and> log_PasswordSecret s \<noteq> [])
     \<and> (log_Type s \<noteq> LogTypeElasticDataStream
        \<or> log_Host s \<noteq> [] \<and> log_User s \<noteq> [] \<and> log_PasswordSecret s \<noteq> [])
     \<and> (log_Host s = [] \<and> log_Index s = [] \<and> log_User s = [] \<and> log_PasswordSecret s = []
        \<or> log_Type s = LogTypeElastic \<or> log_Type s = LogTypeElasticDataStream)"

definition schema_spec :: "(opaque \<Rightarrow> bool) \<Rightarrow> capp_spec \<Rightarrow> bool" where
  "schema_spec relative s \<longleftrightarrow>
     cs_State s \<in> {CappStateEnabled, CappStateDisabled}
     \<and> schema_scale (cs_ScaleSpec s) \<and> schema_route (cs_RouteSpec s) \<and> schema_log (cs_LogSpec s)
     \<and> list_all schema_volume (cs_NFSVolumes s) \<and> list_all (schema_source relative) (cs_Sources s)"

definition schema_hostname_pattern :: "hostname_pattern \<Rightarrow> bool" where
  "schema_hostname_pattern p \<longleftrightarrow> hp_Match p \<noteq> [] \<and> characters (hp_Explanation p) \<le> 100"

definition schema_issuer :: "issuer_ref \<Rightarrow> bool" where
  "schema_issuer r \<longleftrightarrow> ir_Name r \<noteq> [] \<and> ir_Kind r \<noteq> [] \<and> ir_Group r \<noteq> []"

definition schema_dns :: "dns_config \<Rightarrow> bool" where
  "schema_dns d \<longleftrightarrow> dns_Zone d \<noteq> [] \<and> HasSuffix (dns_Zone d) ''.'' \<and> dns_CNAME d \<noteq> []
     \<and> dns_Provider d \<noteq> [] \<and> schema_issuer (dns_IssuerRef d)"

definition schema_autoscale :: "autoscale_config \<Rightarrow> bool" where
  "schema_autoscale a \<longleftrightarrow>
     1 \<le> sint (as_RPS a) \<and> 1 \<le> sint (as_CPU a) \<and> 1 \<le> sint (as_Memory a) \<and> 1 \<le> sint (as_Concurrency a)
     \<and> 2 \<le> sint (as_ActivationScale a) \<and> 1 \<le> sint (as_MinReplicasLimit a)
     \<and> 1 \<le> sint (as_MaxReplicasLimit a) \<and> 0 \<le> sint (as_MaxScaleDelay a)"

definition schema_config :: "capp_config_spec \<Rightarrow> bool" where
  "schema_config g \<longleftrightarrow>
     schema_dns (cfg_DNSConfig g) \<and> schema_autoscale (cfg_AutoscaleConfig g)
     \<and> list_all schema_hostname_pattern (cfg_AllowedHostnamePatterns g)
     \<and> 1 \<le> sint (cfg_RevisionHistoryLimit g) \<and> 1 \<le> sint (cfg_MaxKafkaConsumers g)"

text \<open>The defaults of absent fields.\<close>

definition default_scale :: "scale_spec \<Rightarrow> scale_spec" where
  "default_scale s = (if sc_Metric s = [] then s\<lparr>sc_Metric := ''concurrency''\<rparr> else s)"

definition default_ping :: "ping_source_configuration \<Rightarrow> ping_source_configuration" where
  "default_ping p = (if pc_Schedule p = [] then p\<lparr>pc_Schedule := ''* * * * *''\<rparr> else p)"

definition default_spec :: "capp_spec \<Rightarrow> capp_spec" where
  "default_spec s = s\<lparr>
     cs_State := (if cs_State s = [] then CappStateEnabled else cs_State s),
     cs_ScaleSpec := default_scale (cs_ScaleSpec s),
     cs_Sources := map (\<lambda>x. x\<lparr>src_Ping := map_option default_ping (src_Ping x)\<rparr>) (cs_Sources s)\<rparr>"

section \<open>The schema and the operator's writes\<close>

text \<open>Defaulting twice is defaulting once; mutating and recording keep the schema.\<close>

lemma default_spec_twice: "default_spec (default_spec s) = default_spec s"
proof -
  have "default_ping (default_ping p) = default_ping p" for p by (simp add: default_ping_def)
  then show ?thesis
    by (simp add: default_spec_def default_scale_def CappStateEnabled_def option.map_comp comp_def)
qed

lemma schema_spec_mapContainers: "schema_spec R (Spec (mapContainers f c)) = schema_spec R (Spec c)"
  by (simp add: mapContainers_def withContainers_def schema_spec_def Let_def)

lemma schema_spec_mutator: "schema_spec R (Spec (mutated g u c)) = schema_spec R (Spec c)"
  by (simp add: mutated_mapContainers schema_spec_mapContainers noteUser_def)

lemma schema_spec_revision:
  "schema_spec R (ct_Spec (cr_CappTemplate (Spec (revisionOf l c n)))) = schema_spec R (Spec c)"
  by (simp add: revisionOf_def)

lemma schema_spec_finalizers: "schema_spec R (Spec (setFinalizers c fs)) = schema_spec R (Spec c)"
  by (simp add: setFinalizers_def)

section \<open>What the managers can rely on\<close>

lemma schema_log_required:
  assumes "schema_log (cs_LogSpec (Spec c))"
  shows "output_IsRequired c \<longleftrightarrow> log_Type (cs_LogSpec (Spec c)) \<noteq> []"
    and "output_IsRequired c \<Longrightarrow> log_Host (cs_LogSpec (Spec c)) \<noteq> [] \<and> log_User (cs_LogSpec (Spec c)) \<noteq> []
      \<and> log_PasswordSecret (cs_LogSpec (Spec c)) \<noteq> []"
    and "\<not> output_IsRequired c \<Longrightarrow> cs_LogSpec (Spec c) = zeroLogSpec"
proof -
  obtain t h i u p where s: "cs_LogSpec (Spec c) =
      \<lparr>log_Type = t, log_Host = h, log_Index = i, log_User = u, log_PasswordSecret = p\<rparr>"
    by (cases "cs_LogSpec (Spec c)")
  note defs = schema_log_def output_IsRequired_def isLogSpecRequired_def isSupportedLogType_def
    syslogNGOutputCreators_def zeroLogSpec_def LogTypeElastic_def LogTypeElasticDataStream_def
  show "output_IsRequired c \<longleftrightarrow> log_Type (cs_LogSpec (Spec c)) \<noteq> []"
    "output_IsRequired c \<Longrightarrow> log_Host (cs_LogSpec (Spec c)) \<noteq> [] \<and> log_User (cs_LogSpec (Spec c)) \<noteq> []
      \<and> log_PasswordSecret (cs_LogSpec (Spec c)) \<noteq> []"
    "\<not> output_IsRequired c \<Longrightarrow> cs_LogSpec (Spec c) = zeroLogSpec"
    using assms unfolding s defs by (auto split: if_splits)
qed

lemma schema_sources_count:
  assumes "list_all (schema_source R) (cs_Sources (Spec c))"
  shows "length (ping_desired c) + length (kafka_desired c) = length (cs_Sources (Spec c))"
proof -
  have "length (List.map_filter (\<lambda>s. map_option (Pair s) (src_Ping s)) ss)
      + length (List.map_filter (\<lambda>s. map_option (Pair s) (src_Kafka s)) ss) = length ss"
    if "list_all (schema_source R) ss" for ss
    using that by (induction ss) (auto simp: List.map_filter_def schema_source_def)
  with assms show ?thesis by (simp add: ping_desired_def kafka_desired_def ping_wanted_def kafka_wanted_def)
qed

lemma schema_target:
  assumes "schema_scale (cs_ScaleSpec (Spec c))" "schema_autoscale a"
  shows "\<exists>target. fmlookup (setAutoScaler c a) TargetAnnotationKey = Some target \<and> 1 \<le> read_number target"
    and "fmlookup (setAutoScaler c a) MetricAnnotationKey = Some (sc_Metric (cs_ScaleSpec (Spec c)))"
proof -
  let ?m = "sc_Metric (cs_ScaleSpec (Spec c))"
  have m: "?m \<in> {''cpu'', ''memory'', ''rps'', ''concurrency''}" using assms(1) by (simp add: schema_scale_def)
  then have "?m \<noteq> []" by auto
  then have "fmlookup (setAutoScaler c a) TargetAnnotationKey = Some (getTargetValue ?m a)"
    and metric: "fmlookup (setAutoScaler c a) MetricAnnotationKey = Some ?m"
    by (simp_all add: setAutoScaler_def Let_def autoscaling_key_defs split: option.split)
  moreover have "1 \<le> read_number (getTargetValue ?m a)"
    using m assms(2)
    by (auto simp: getTargetValue_def schema_autoscale_def read_fmt_d rpsScaleKey_def cpuScaleKey_def
        memoryScaleKey_def concurrencyScaleKey_def)
  ultimately show "\<exists>target. fmlookup (setAutoScaler c a) TargetAnnotationKey = Some target \<and> 1 \<le> read_number target"
    by blast
  show "fmlookup (setAutoScaler c a) MetricAnnotationKey = Some ?m" by (rule metric)
qed

lemma schema_consumers:
  assumes spec: "list_all (schema_source R) (cs_Sources (Spec c))"
    and ok: "sources_ok l w g c" and limit: "1 \<le> sint (cfg_MaxKafkaConsumers (Spec g))"
    and k: "k \<in> set (kafka_desired c)"
  shows "\<exists>n. kfs_Consumers (Spec k) = Some n
    \<and> (if cs_State (Spec c) = CappStateDisabled then n = 0
       else 1 \<le> sint n \<and> sint n \<le> sint (cfg_MaxKafkaConsumers (Spec g)))"
    and "secret_with w (Namespace (Meta c)) (sk_Name (sasl_User (kfs_SASL (Spec k)))) kafka_secret_keys"
proof -
  from k obtain s kc where s: "k = kafka_prepareResource c s kc" "s \<in> set (cs_Sources (Spec c))"
      "src_Kafka s = Some kc"
    by (auto simp: kafka_desired_def kafka_wanted_def List.map_filter_def)
  have "schema_source R s" using spec s(2) by (simp add: list_all_iff)
  with s(3) have kc: "src_Ping s = None" "at_least 1 (kc_Consumers kc)"
    by (auto simp: schema_source_def schema_kafka_def)
  have "source_ok l w (Namespace (Meta c)) (cfg_MaxKafkaConsumers (Spec g)) s"
    using ok s(2) by (simp add: sources_ok_def)
  with s(3) kc(1) have src: "secret_with w (Namespace (Meta c)) (kc_SecretRefName kc) kafka_secret_keys"
      "case kc_Consumers kc of None \<Rightarrow> True | Some n \<Rightarrow> sint n \<le> sint (cfg_MaxKafkaConsumers (Spec g))"
    by (auto simp: source_ok_def split: option.splits)
  then show "\<exists>n. kfs_Consumers (Spec k) = Some n
    \<and> (if cs_State (Spec c) = CappStateDisabled then n = 0
       else 1 \<le> sint n \<and> sint n \<le> sint (cfg_MaxKafkaConsumers (Spec g)))"
    using kc(2) limit
    by (cases "kc_Consumers kc") (simp_all add: s(1) kafka_prepareResource_def Let_def at_least_def)
  show "secret_with w (Namespace (Meta c)) (sk_Name (sasl_User (kfs_SASL (Spec k)))) kafka_secret_keys"
    using src(1) by (simp add: s(1) kafka_prepareResource_def Let_def newSecretValueFromSource_def)
qed

text \<open>
  C34: what gets past the API server's schema and the validating webhook can be served. For a valid
  configuration and a valid Capp that the validator admits: logging is either left out entirely or has a
  supported type, a host, a user and a secret that exists and has the key the output refers to; a
  Capp with TLS has a host name, so that the domain mapping and the DNS record that its certificate needs are
  required too; the autoscaler gets the metric and a target of at least 1; every event source is exactly
  one PingSource or KafkaSource, and a KafkaSource has between 1 and the configured number of consumers, or
  none if the Capp is disabled, and a secret with the three keys that it refers to; and every volume
  is mounted.
\<close>

theorem accepted_capp_is_serviceable:
  assumes "schema_config (Spec g)" "schema_spec relative (Spec c)" "admissible l w g c old"
  shows "(if output_IsRequired c
          then log_Host (cs_LogSpec (Spec c)) \<noteq> [] \<and> log_User (cs_LogSpec (Spec c)) \<noteq> []
            \<and> secret_with w (Namespace (Meta c)) (log_PasswordSecret (cs_LogSpec (Spec c))) [elasticSecretKey]
          else cs_LogSpec (Spec c) = zeroLogSpec)
    \<and> (rt_TlsEnabled (cs_RouteSpec (Spec c)) \<longrightarrow> cert_IsRequired c \<and> dm_IsRequired c \<and> dns_IsRequired c)
    \<and> (let m = setAutoScaler c (cfg_AutoscaleConfig (Spec g))
       in fmlookup m MetricAnnotationKey = Some (sc_Metric (cs_ScaleSpec (Spec c)))
          \<and> (\<exists>target. fmlookup m TargetAnnotationKey = Some target \<and> 1 \<le> read_number target))
    \<and> length (ping_desired c) + length (kafka_desired c) = length (cs_Sources (Spec c))
    \<and> (\<forall>k \<in> set (kafka_desired c).
         (\<exists>n. kfs_Consumers (Spec k) = Some n
            \<and> (if cs_State (Spec c) = CappStateDisabled then n = 0
               else 1 \<le> sint n \<and> sint n \<le> sint (cfg_MaxKafkaConsumers (Spec g))))
         \<and> secret_with w (Namespace (Meta c)) (sk_Name (sasl_User (kfs_SASL (Spec k)))) kafka_secret_keys)
    \<and> (\<forall>v \<in> set (cs_NFSVolumes (Spec c)). nfs_Name v \<in> mountedVolumes c)"
proof -
  have spec: "schema_scale (cs_ScaleSpec (Spec c))" "schema_route (cs_RouteSpec (Spec c))"
      "schema_log (cs_LogSpec (Spec c))" "list_all (schema_source relative) (cs_Sources (Spec c))"
    and config: "schema_autoscale (cfg_AutoscaleConfig (Spec g))" "1 \<le> sint (cfg_MaxKafkaConsumers (Spec g))"
    and ok: "log_secret_ok w c" "sources_ok l w g c" "volumes_mounted c"
    using assms by (simp_all add: schema_spec_def schema_config_def admissible_def)
  have "if output_IsRequired c
      then log_Host (cs_LogSpec (Spec c)) \<noteq> [] \<and> log_User (cs_LogSpec (Spec c)) \<noteq> []
        \<and> secret_with w (Namespace (Meta c)) (log_PasswordSecret (cs_LogSpec (Spec c))) [elasticSecretKey]
      else cs_LogSpec (Spec c) = zeroLogSpec"
    using schema_log_required(2,3) [OF spec(3)] ok(1) by (simp add: log_secret_ok_def)
  moreover have "rt_TlsEnabled (cs_RouteSpec (Spec c)) \<longrightarrow> cert_IsRequired c \<and> dm_IsRequired c \<and> dns_IsRequired c"
    using spec(2) by (simp add: schema_route_def cert_IsRequired_def dm_IsRequired_def dns_IsRequired_def)
  ultimately show ?thesis
    using schema_target [OF spec(1) config(1)] schema_sources_count [OF spec(4)]
      schema_consumers [OF spec(4) ok(2) config(2)] ok(3)
    by (simp add: Let_def volumes_mounted_def)
qed

lemma sample_schema: "schema_spec (\<lambda>_. True) (Spec sampleCapp)" "schema_config (Spec sampleConfig)"
  by (simp_all add: sample_defs sampleConfig_def schema_spec_def schema_scale_def schema_route_def schema_log_def
      schema_volume_def schema_source_def schema_kafka_def at_least_def label_pattern_def alphanumerics_def
      characters_def HasPrefix_def HasSuffix_def CappStateEnabled_def LogTypeElastic_def LogTypeElasticDataStream_def
      schema_config_def schema_dns_def schema_issuer_def schema_autoscale_def schema_hostname_pattern_def)

theorem accepted_capp_is_serviceable_witness:
  "length (ping_desired sampleCapp) + length (kafka_desired sampleCapp) = 2
   \<and> cert_IsRequired sampleCapp \<and> kafka_desired sampleCapp \<noteq> []"
proof -
  have "length (cs_Sources (Spec sampleCapp)) = 2" "rt_TlsEnabled (cs_RouteSpec (Spec sampleCapp))"
    "kafka_desired sampleCapp \<noteq> []"
    by (simp_all add: sample_defs kafka_desired_def kafka_wanted_def List.map_filter_def)
  with accepted_capp_is_serviceable [OF sample_schema(2,1) sample_admissible] show ?thesis by simp
qed

section \<open>The operator's own writes\<close>

lemma admissible_finalizers:
  assumes "admissible l w g c old"
  shows "admissible l w g (setFinalizers c fs) (Some c)"
proof -
  have "hostname_of (setFinalizers c fs) = hostname_of c" "volumes_mounted (setFinalizers c fs) = volumes_mounted c"
    "log_secret_ok w (setFinalizers c fs) = log_secret_ok w c"
    "sources_ok l w g (setFinalizers c fs) = sources_ok l w g c"
    "template_annotations_ok (setFinalizers c fs) = template_annotations_ok c"
    "cs_ScaleSpec (Spec (setFinalizers c fs)) = cs_ScaleSpec (Spec c)"
    by (simp_all add: setFinalizers_def hostname_of_def volumes_mounted_def mountedVolumes_def log_secret_ok_def
        sources_ok_def template_annotations_ok_def)
  with assms show ?thesis by (simp add: admissible_def route_ok_def)
qed

text \<open>
  C35: the operator is not stopped by its own webhooks. The write that puts the finalizer on a Capp, as
  the mutator changes it, keeps the schema and is admitted in any cluster in which the Capp itself was
  admissible; a Capp that is being deleted passes both webhooks whatever it holds and whatever the cluster
  answers, so that its finalizer can always be removed; and the mutator leaves writes of the status
  alone.
\<close>

theorem own_writes_pass:
  assumes "kind_api (c_cappconfigs cl) cappconfigs cappconfigs_update"
    and "kind_api (c_secrets cl) secrets secrets_update" "map_keys_lib l"
    and "tlookup (cappconfigs w) (NamespacedName CappNS CappConfigName) = Some g"
    and "schema_spec relative (Spec c)" "admissible l w g c old"
    and "decode (req_Object req) = Ok d" "DeletionTimestamp (Meta d) = Some t"
  shows "(\<exists>c'. mutator_handle g u (setFinalizers c (l_AddFinalizer l (Finalizers (Meta c)) cappCleanupFinalizer)) = Ok c'
          \<and> schema_spec relative (Spec c') \<and> validator_handle l cl Update c' (Some c) w = (Ok (Allowed []), w))
    \<and> (\<exists>m. mutator_Handle decode marshal anyClient req w' = (Ok (Allowed m), w'))
    \<and> (\<exists>m. validator_Handle l decode anyClient req w' = (Ok (Allowed m), w'))
    \<and> mutator_Handle decode marshal anyClient (req\<lparr>req_SubResource := ''status''\<rparr>) w' = (Ok (Allowed []), w')"
proof -
  let ?c = "mutated g u (setFinalizers c (l_AddFinalizer l (Finalizers (Meta c)) cappCleanupFinalizer))"
  have "admissible l w g ?c (Some c)"
    using admissible_finalizers [OF assms(6)] by (simp add: mutator_admissible)
  with validator_handle_admits [OF assms(1-4), of Update "Some c" ?c]
  have "validator_handle l cl Update ?c (Some c) w = (Ok (Allowed []), w)" by (simp add: admits_def)
  moreover have "schema_spec relative (Spec ?c)"
    using assms(5) by (simp add: schema_spec_mutator schema_spec_finalizers)
  ultimately show ?thesis
    using assms(7,8) by (simp add: mutator_handle_mutated mutator_Handle_def validator_Handle_def handle_def)
qed

definition dyingCapp :: capp where
  "dyingCapp = sampleCapp\<lparr>Meta := (Meta sampleCapp)\<lparr>DeletionTimestamp := Some 1\<rparr>\<rparr>"

theorem own_writes_pass_witness:
  "\<exists>m. validator_Handle mem_lib (\<lambda>_. Ok dyingCapp) mem_client sampleRequest emptyWorld = (Ok (Allowed m), emptyWorld)"
proof -
  have "kind_api (c_cappconfigs mem_client) cappconfigs cappconfigs_update"
    "kind_api (c_secrets mem_client) secrets secrets_update"
    "tlookup (cappconfigs sampleWorld) (NamespacedName CappNS CappConfigName) = Some sampleConfig"
    "DeletionTimestamp (Meta dyingCapp) = Some 1"
    using mem_cappconfigs.kind_api_axioms mem_secrets.kind_api_axioms by (simp_all add: dyingCapp_def)
  from own_writes_pass [OF this(1,2) mem_map_keys_lib this(3) sample_schema(1) sample_admissible _ this(4),
      where decode = "\<lambda>_. Ok dyingCapp" and req = sampleRequest and anyClient = mem_client and w' = emptyWorld]
  show ?thesis by blast
qed

end
