(* ===== verification/Spec2Isabelle.thy ===== *)
theory Spec2Isabelle
  imports WebhookAdmission RevisionProperties WatchProperties StatusProperties ManagerProperties
    PanicFreedom ControlLoop Isolation GuardedWrites Permissions DeepCopies StartUp Schema
begin

text \<open>
  A verification library for the container-app operator: a Kubernetes operator whose custom
  resource, the Capp, describes an application that the operator runs as a Knative service
  with its host name, certificate, volumes, logging and event sources.

  \<^bold>\<open>The program.\<close> Two controllers and two admission webhooks share one API server. The mutating
  webhook (\<open>internal/webhook/rcs/v1alpha1/mutator.go\<close>) notes who wrote a Capp and fills in
  default resources; the validating one (\<open>validator.go\<close>) checks it against the cluster's
  CappConfig and the secrets it refers to. The Capp controller
  (\<open>internal/kinds/capp/controllers\<close>) is woken by its watches, runs nine resource managers
  (\<open>resourcemanagers\<close>), each of which creates, updates and deletes the objects of one kind,
  collects their errors, and writes the status (\<open>status\<close>) from what it reads back; a Capp
  that is being deleted is cleaned up before its finalizer goes. The CappRevision controller
  (\<open>internal/kinds/capprevision\<close>) keeps a bounded history of every Capp.

  \<^bold>\<open>How it is modelled.\<close> Code runs as an \<open>action\<close>: from a world to a result, which is a value, an
  error or a panic, and the next world (GoPrelude). The world (KubeClient) has a table of
  objects for each kind, the recorded events and the clock. Everything outside \<open>src/\<close> is a
  parameter: the Kubernetes \<open>client\<close>, whose operations may answer with any error and change
  the world in any way; the helper libraries \<open>lib\<close>; controller-runtime's predicates and
  queue \<open>watch_lib\<close> (WatchEvents); JSON decoding. What a theorem needs of them is one of its
  hypotheses: the locale \<open>kind_api\<close> (a reachable API server and no concurrent writer) for
  each kind it uses, \<open>owner_refs_lib\<close>, \<open>sort_lib\<close>, \<open>condition_lib\<close>, \<open>map_keys_lib\<close> and
  \<open>watch_contract\<close>, and \<open>library_copies\<close> for the deep copies of the library. The in-memory
  client and libraries at the end of KubeClient meet them, and the witnesses run on those over the
  sample cluster of SampleWorld. Machine integers are words of their width; strings are lists of
  bytes. Nothing here needs fuel: all loops of the program run over finite lists.

  \<^bold>\<open>The theories.\<close>
  \<^item> GoPrelude, DecimalText: strings, integers, \<open>fmt\<close>, errors, actions; reading numbers back.
  \<^item> CappTypes (\<open>api/v1alpha1\<close>), KubeClient: the data and the world.
  \<^item> ManagerHelpers (\<open>cappmeta\<close>, \<open>resourceclient\<close>, \<open>helpers.go\<close>) with the laws of creating,
    updating and deleting a managed object; ResourceManager (\<open>resourcemanagers.go\<close>) with the
    locales \<open>settling_manager\<close> and \<open>cleaning_manager\<close>, the contract of a manager.
  \<^item> KnativeServiceManager, NfsPvcManager, SyslogNGManagers, CertificateManager,
    DomainMappingManager, DnsRecordManager, EventSourceManagers: one manager or two each, and
    the interpretation of the two locales on it.
  \<^item> CappStatus, StatusSync: the sub-statuses, the Ready condition and \<open>SyncStatus\<close>; reading
    twice gives the same status, so it is written once.
  \<^item> CappController: \<open>Reconcile\<close>, \<open>SyncApplication\<close>, the finalizer, the watches. CappSync: the
    managers do not disturb each other, and one pass settles all of them. CappReconcile,
    ReconcileErrors: the whole run, when all goes well and when something fails.
  \<^item> CappRevisionController, RevisionProperties: the history and its invariant over any
    sequence of writes, changes of the limit and runs (the step relation \<open>history_step\<close>).
  \<^item> CappWebhooks, WebhookAdmission: the webhooks, with the nil maps that the mutator has to
    avoid, and the abstract specification \<open>admissible\<close> that the validator implements.
  \<^item> PanicFreedom: a calculus of the computations that never panic, and the locale
    \<open>returning_environment\<close> of the clients and libraries that do not panic themselves.
  \<^item> ScopedAccess, Isolation: the footprint of a run. The locale \<open>scoped_api\<close> derives what the
    shared helpers may touch of one kind from the scope of the client's calls, the locale
    \<open>scoped_environment\<close> what the managers, the controllers and the webhooks may touch.
  \<^item> FaultyCalls: what a run on failing calls is worth; the locale \<open>flaky_environment\<close> compares it
    with the run on calls that do not fail.
  \<^item> GuardedWrites: optimistic concurrency; the locale \<open>reading_environment\<close> shows that a client
    which refuses the updates of versions that were not read gives the same runs.
  \<^item> ControlLoop: the Capp controller with its queue, as the step relation \<open>loop_step\<close> whose steps
    are runs of \<open>Reconcile\<close> with calls that may fail, changes of the cluster, those that the watches
    hear of apart from those that they do not, runs for other namespaces and runs of the
    CappRevision controller.
  \<^item> Permissions: the RBAC markers and a client that enforces them.
  \<^item> GoHeap, DeepCopies (\<open>api/v1alpha1/zz_generated.deepcopy.go\<close>): a heap of pointers, slices
    and maps, the statements of the generator, what a deep copy is, and the copies of all types.
    Everywhere else values are HOL values, which are not shared: there \<open>DeepCopy\<close> is the
    identity, which these two theories justify.
  \<^item> StartUp (\<open>cmd/main.go\<close>, \<open>api/v1alpha1/groupversion_info.go\<close>): the scheme, and the calls of
    the start as a list that is carried out up to the first failure.
  \<^item> Schema: the rules that the markers of the API types give to the API server, what they and
    the webhooks together guarantee to the managers, and the operator's own writes of a Capp.
  \<^item> StatusProperties, ManagerProperties, WatchProperties and this theory: further properties;
    here those that join the webhooks with the controllers.

  \<^bold>\<open>What is shown.\<close> The claims are numbered in the order of their importance. The controller
  brings a live Capp's objects into place and reports it (C1); after any sequence of changes, failures
  and runs for others it has the Capp in its queue or in step, unless a change that no watch reports or
  a run in an unready state came in between, and then until the next run (C2). It comes to rest (C3, C19),
  cleans up a dying Capp (C5, C8), keeps going when managers fail (C9, C13), never takes a failure for a
  success (C11), and never overwrites what it has not read (C12). Whatever the API server answers, the runs
  touch only what belongs to their Capp, in its namespace, and the TLS secrets named after its
  domain mappings (C4, C10, C18), and the role that the operator declares suffices for all it does (C7).
  For arbitrary answers of the API server the controller does not panic, except on one host name
  (C14, C15), nor do the webhooks (C36). The history stays bounded while its limit is from 2 to 100; for 1
  and for more than 100 the code is shown to panic or to prune nothing (C16, C17, C20, C21), and what it
  records it recognises (C40). Which drift and which status writes are noticed, and which are not, is
  the subject of C22 and C23. The Ready condition is characterised, with what it leaves out (C24, C25), the
  status is written once (C26). The generated copies are deep (C27, C28). The validator implements its
  specification (C6, C29, C30), and what it admits suits the controllers, the more so with the API server's
  schema (C31 to C34), but for the autoscaling bounds that the annotations of a Capp may set (C33); the
  operator's own writes pass its webhooks (C35). The process starts completely or not at all (C37, C38).
  The mutator changes what it should (C39).

  \<^bold>\<open>Not modelled.\<close> The parsing of the command line (StartUp begins with the values of the flags);
  logging and metrics; the types of other modules inside a Capp beyond the fields that the code
  reads; that the API server applies the rules of Schema, which is a hypothesis where a theorem needs
  it; concurrent writers between the calls of one run, other than as what the clients of Isolation,
  FaultyCalls, PanicFreedom and ReconcileErrors may answer or leave behind. A map without entries is taken
  to be nil where that matters (CappWebhooks); elsewhere nil and empty are the same. In ControlLoop a
  change that no watch reports is the step \<open>Unnoticed\<close>: an edit of a CNAMERecord, any change of an NfsPvc or
  a secret, a change of labels or owner references alone, an object that has a name of the Capp's but not its label.
\<close>

section \<open>From the webhooks to the controllers\<close>

text \<open>What the mutator notes about the user is what the revision controller leaves out.\<close>

lemma user_key_ignored: "annotationToIgnore = lastUpdatedByAnnotationKey"
  by (simp add: annotationToIgnore_def lastUpdatedByAnnotationKey_def)

lemma fmdrop_fmupd_same: "fmdrop k (fmupd k x m) = fmdrop k m"
  by (rule fmap_ext) simp

lemma mutated_user_only:
  "Spec (mutated g u c) = Spec (mutated g v c)"
  "Labels (Meta (mutated g u c)) = Labels (Meta (mutated g v c))"
  "fmdrop lastUpdatedByAnnotationKey (Annotations (Meta (mutated g u c)))
     = fmdrop lastUpdatedByAnnotationKey (Annotations (Meta (mutated g v c)))"
  by (simp_all add: mutated_def mapContainers_def withContainers_def containers_of_def noteUser_def
      Let_def fmdrop_fmupd_same)

lemma mutated_key: "key_of (mutated g u c) = key_of c"
  by (simp add: mutated_def mapContainers_def withContainers_def noteUser_def
      Let_def key_of_def)

lemma isEqual_user:
  "Spec r = Spec (revisionOf l (mutated g v c) n) \<Longrightarrow> isEqual (mutated g u c) r"
  using mutated_user_only [of g u c v]
  by (simp add: isEqual_def equalSpec_def equalLabels_def equalAnnotations_def revisionOf_def
      user_key_ignored)

text \<open>
  C31: who writes a Capp makes no history. When the newest revisions of a Capp record it as one
  user wrote it through the webhook, a write of the same Capp by any other user makes the
  revision controller create and delete nothing.
\<close>

theorem same_capp_other_user:
  assumes cluster: "revision_cluster l cl (key_of c)"
    and written: "mutator_handle g u c = Ok cu" "mutator_handle g v c = Ok cv"
    and stored: "tlookup (capps w) (key_of c) = Some cu"
    and limit: "history_limit w = Some keep" "card (history (key_of c) w) \<le> RevisionListLimit"
    and recorded: "history (key_of c) w \<noteq> {}"
      "\<forall>r. newest_in (history (key_of c) w) r \<longrightarrow>
         (\<exists>n. Spec r = Spec (revisionOf l cv n))"
  shows "ReconcileRevision l cl (key_of c) w = (Ok 0, w)"
proof -
  let ?c = "mutated g u c"
  have c: "cu = ?c" "cv = mutated g v c" using written by (simp_all add: mutator_handle_mutated)
  note cl = revision_clusterD [where c = ?c, unfolded mutated_key, OF cluster]
  have get: "kget (c_capps cl) (nn_Namespace (key_of c)) (nn_Name (key_of c)) w = (Ok ?c, w)"
    using kind_api.get_found [OF cl(1)] stored c(1) by simp
  have "syncCappRevision l cl ?c w = (Ok (), w)"
    by (rule syncCappRevision_equal [OF cl(4) [OF limit(2)] cl(3) limit(1)])
      (use recorded isEqual_user c(2) in \<open>auto simp: revisions_of_history mutated_key\<close>)
  with get show ?thesis by (simp add: ReconcileRevision_def handle_Ok)
qed

definition bobsWorld :: world where
  "bobsWorld = sampleWorld\<lparr>capps := [mutated sampleConfig ''bob'' sampleCapp],
     capprevisions := [revisionOf mem_lib (mutated sampleConfig ''ann'' sampleCapp) 1]\<rparr>"

theorem same_capp_other_user_witness:
  "ReconcileRevision mem_lib mem_client sampleKey bobsWorld = (Ok 0, bobsWorld)"
proof -
  let ?r = "revisionOf mem_lib (mutated sampleConfig ''ann'' sampleCapp) 1"
  have r: "Namespace (Meta ?r) = ''team''"
    "selected (fmap_of_list [(cappNameLabelKey, ''web'')]) (Meta ?r)"
    using mutated_key [of sampleConfig "''ann''" sampleCapp]
    by (simp_all add: revisionOf_def newMeta_def key_of_def selected_def fmsubset.rep_eq)
  have h: "history sampleKey bobsWorld = {?r}"
  proof (intro set_eqI iffI)
    fix x assume "x \<in> history sampleKey bobsWorld"
    then have "tlookup (capprevisions bobsWorld) (key_of x) = Some x" by (simp add: history_def)
    then have "x \<in> set (capprevisions bobsWorld)" by (rule tlookup_in_set)
    then show "x \<in> {?r}" by (simp add: bobsWorld_def)
  qed (use r in \<open>simp add: history_def bobsWorld_def tlookup_Cons\<close>)
  have "tlookup (capps bobsWorld) (key_of sampleCapp) = Some (mutated sampleConfig ''bob'' sampleCapp)"
    using mutated_key [of sampleConfig "''bob''" sampleCapp] by (simp add: bobsWorld_def tlookup_Cons)
  moreover have "history_limit bobsWorld = Some 2" by (simp add: history_limit_def bobsWorld_def)
  ultimately show ?thesis
    using same_capp_other_user [where c = sampleCapp and g = sampleConfig and u = "''bob''"
        and v = "''ann''" and cu = "mutated sampleConfig ''bob'' sampleCapp"
        and cv = "mutated sampleConfig ''ann'' sampleCapp" and w = bobsWorld and l = mem_lib and cl = mem_client] sample_cluster
    by (auto simp: h newest_in_def RevisionListLimit_def mutator_handle_mutated)
qed

text \<open>
  C32: the event sources of an admitted Capp do not get in each other's way. With the rule of
  the CRD that a source is either a ping or a Kafka source, the objects of an admitted Capp
  have distinct names, as their managers rely on, and no KafkaSource has more consumers than
  the cluster allows, or 1 where it allows less.
\<close>

theorem admitted_sources_fit:
  assumes "admissible l w g c old"
    and crd: "\<forall>s \<in> set (cs_Sources (Spec c)). (src_Ping s = None) = (src_Kafka s \<noteq> None)"
  shows "distinct (map key_of (ping_desired c)) \<and> distinct (map key_of (kafka_desired c))
     \<and> (\<forall>k \<in> set (kafka_desired c). \<exists>n. kfs_Consumers (Spec k) = Some n
          \<and> sint n \<le> max 1 (sint (cfg_MaxKafkaConsumers (Spec g))))"
proof -
  have src: "distinct (map src_Name (cs_Sources (Spec c)))"
    "\<forall>s \<in> set (cs_Sources (Spec c)).
       source_ok l w (Namespace (Meta c)) (cfg_MaxKafkaConsumers (Spec g)) s"
    using assms(1) by (simp_all add: admissible_def sources_ok_def)
  have names: "distinct (map (\<lambda>y. src_Name (fst y)) (List.map_filter (\<lambda>s. map_option (Pair s) (f s)) ss))"
    if "distinct (map src_Name ss)" for ss and f :: "source_configuration \<Rightarrow> 'x option"
    using that
    by (induction ss) (auto simp: List.map_filter_def split: option.splits)
  have "key_of (ping_prepareResource c (fst y) (snd y))
      = NamespacedName (Namespace (Meta c)) (Name (Meta c) @ ''-'' @ src_Name (fst y))" for y
    by (simp add: ping_prepareResource_def newMeta_def key_of_def)
  then have "distinct (map key_of (ping_desired c))"
    using names [OF src(1), of src_Ping] by (simp add: ping_desired_def ping_wanted_def distinct_map inj_on_def)
  moreover have "key_of (kafka_prepareResource c (fst y) (snd y))
      = NamespacedName (Namespace (Meta c)) (Name (Meta c) @ ''-'' @ src_Name (fst y))" for y
    by (simp add: kafka_prepareResource_def newMeta_def key_of_def Let_def)
  then have "distinct (map key_of (kafka_desired c))"
    using names [OF src(1), of src_Kafka] by (simp add: kafka_desired_def kafka_wanted_def distinct_map inj_on_def)
  moreover have "\<exists>n. kfs_Consumers (Spec k) = Some n
      \<and> sint n \<le> max 1 (sint (cfg_MaxKafkaConsumers (Spec g)))" if "k \<in> set (kafka_desired c)" for k
  proof -
    from that obtain s kc where k: "k = kafka_prepareResource c s kc" "s \<in> set (cs_Sources (Spec c))"
        "src_Kafka s = Some kc"
      by (auto simp: kafka_desired_def kafka_wanted_def List.map_filter_def)
    have "src_Ping s = None" using crd k(2,3) by auto
    with src(2) k(2,3) have "case kc_Consumers kc of None \<Rightarrow> True
        | Some n \<Rightarrow> sint n \<le> sint (cfg_MaxKafkaConsumers (Spec g))"
      by (auto simp: source_ok_def split: option.splits)
    then show ?thesis
      by (cases "kc_Consumers kc") (simp_all add: k(1) kafka_prepareResource_def Let_def max_def)
  qed
  ultimately show ?thesis by blast
qed

theorem admitted_sources_fit_witness:
  "distinct (map key_of (kafka_desired sampleCapp)) \<and> kafka_desired sampleCapp \<noteq> []"
proof -
  have "admissible mem_lib sampleWorld sampleConfig sampleCapp None" by (rule sample_admissible)
  moreover have "\<forall>s \<in> set (cs_Sources (Spec sampleCapp)). (src_Ping s = None) = (src_Kafka s \<noteq> None)"
    by (simp add: sample_defs)
  ultimately have "distinct (map key_of (kafka_desired sampleCapp))"
    using admitted_sources_fit [of mem_lib sampleWorld sampleConfig sampleCapp None] by simp
  then show ?thesis by (simp add: kafka_desired_def kafka_wanted_def sample_defs List.map_filter_def)
qed

text \<open>
  C33: how far the limits of the cluster reach. On the template that Knative runs, a replica bound
  that an admitted Capp's scale specification gives, read back as a number, is at most the
  configured limit, and the lower bound does not exceed the upper, the activation scale included.
  The limits bind nothing else: a bound that the specification leaves out, or every one of them if
  it names no metric, is whatever the Capp's own annotations say, which no check reads.
\<close>

theorem admitted_scale_within_limits:
  assumes "admissible l w g c old"
  shows "let a = cfg_AutoscaleConfig (Spec g); sc = cs_ScaleSpec (Spec c);
           t = fmlookup (tmpl_Annotations (Template (svc_Configuration (Spec (ksvc_prepareResource l g c)))));
           own = fmlookup (Annotations (Meta c))
     in if sc_Metric sc = []
        then \<forall>k. t (''autoscaling.knative.dev/'' @ k) = own (''autoscaling.knative.dev/'' @ k)
        else (case sc_MaxReplicas sc of
                None \<Rightarrow> t ''autoscaling.knative.dev/max-scale'' = own ''autoscaling.knative.dev/max-scale''
              | Some n \<Rightarrow> \<exists>hi. t ''autoscaling.knative.dev/max-scale'' = Some hi
                  \<and> read_number hi = sint n \<and> read_number hi \<le> sint (as_MaxReplicasLimit a))
          \<and> (case sc_MinReplicas sc of
                None \<Rightarrow> t ''autoscaling.knative.dev/min-scale'' = own ''autoscaling.knative.dev/min-scale''
              | Some n \<Rightarrow> \<exists>lo. t ''autoscaling.knative.dev/min-scale'' = Some lo
                  \<and> read_number lo = sint n \<and> read_number lo \<le> sint (as_MinReplicasLimit a))
          \<and> (sc_MaxReplicas sc \<noteq> None \<longrightarrow>
              (\<exists>lo hi. t ''autoscaling.knative.dev/max-scale'' = Some hi \<and> read_number lo \<le> read_number hi
                 \<and> t (if sc_MinReplicas sc = None then ''autoscaling.knative.dev/activation-scale''
                      else ''autoscaling.knative.dev/min-scale'') = Some lo))"
proof -
  let ?a = "cfg_AutoscaleConfig (Spec g)" and ?sc = "cs_ScaleSpec (Spec c)"
  have ok: "scale_ok ?a ?sc" using assms by (simp add: admissible_def)
  have hi: "fmlookup (setAutoScaler c ?a) ''autoscaling.knative.dev/max-scale''
      = (if sc_Metric ?sc = [] then None else map_option fmt_d (sc_MaxReplicas ?sc))"
    and lo: "fmlookup (setAutoScaler c ?a) ''autoscaling.knative.dev/min-scale''
      = (if sc_Metric ?sc = [] then None else map_option fmt_d (sc_MinReplicas ?sc))"
    and act: "fmlookup (setAutoScaler c ?a) ''autoscaling.knative.dev/activation-scale''
      = (if sc_Metric ?sc = [] \<or> sc_MinReplicas ?sc \<noteq> None then None
         else Some (fmt_d (as_ActivationScale ?a)))"
    by (simp_all add: setAutoScaler_def Let_def autoscaling_key_defs split: option.split)
  let ?t = "fmlookup (tmpl_Annotations (Template (svc_Configuration (Spec (ksvc_prepareResource l g c)))))"
  have t: "?t k = (case fmlookup (setAutoScaler c ?a) k of Some v \<Rightarrow> Some v | None \<Rightarrow> fmlookup (Annotations (Meta c)) k)"
    if "HasPrefix k ''autoscaling.knative.dev/''" for k
  proof -
    from that obtain k' where "k = ''autoscaling.knative.dev/'' @ k'" by (auto simp: HasPrefix_iff)
    then have "\<not> HasPrefix k ''rcs.dana.io''" "\<not> HasPrefix k ''kubectl.kubernetes.io/''"
      by (simp_all add: HasPrefix_def)
    then show ?thesis unfolding ksvc_template [THEN conjunct1] by (simp cong: option.case_cong)
  qed
  have keys: "HasPrefix ''autoscaling.knative.dev/max-scale'' ''autoscaling.knative.dev/''"
    "HasPrefix ''autoscaling.knative.dev/min-scale'' ''autoscaling.knative.dev/''"
    "HasPrefix ''autoscaling.knative.dev/activation-scale'' ''autoscaling.knative.dev/''"
    by (simp_all add: HasPrefix_def)
  note lookups = t [OF keys(1), unfolded hi] t [OF keys(2), unfolded lo] t [OF keys(3), unfolded act]
  show ?thesis
  proof (cases "sc_Metric ?sc = []")
    case True
    then have "setAutoScaler c ?a = fmempty" by (simp add: setAutoScaler_def Let_def)
    with True t show ?thesis by (simp add: Let_def HasPrefix_iff)
  next
    case False
    with ok show ?thesis
      by (cases "sc_MaxReplicas ?sc"; cases "sc_MinReplicas ?sc")
        (simp_all add: Let_def lookups scale_ok_def read_fmt_d)
  qed
qed

theorem admitted_scale_within_limits_witness:
  "\<exists>hi. fmlookup (tmpl_Annotations (Template (svc_Configuration
       (Spec (ksvc_prepareResource mem_lib sampleConfig sampleCapp))))) ''autoscaling.knative.dev/max-scale''
     = Some hi \<and> read_number hi = 3 \<and> read_number hi \<le> 10"
proof -
  have "sc_Metric (cs_ScaleSpec (Spec sampleCapp)) \<noteq> []"
    "sc_MaxReplicas (cs_ScaleSpec (Spec sampleCapp)) = Some 3"
    "sint (as_MaxReplicasLimit (cfg_AutoscaleConfig (Spec sampleConfig))) = 10"
    by (simp_all add: sample_defs sampleConfig_def)
  then show ?thesis
    using admitted_scale_within_limits [OF sample_admissible] by (simp add: Let_def)
qed

end
